(* ===== verification/Go_Prelude.thy ===== *)
theory Go_Prelude
  imports Main "HOL-Library.Sublist"
begin

text \<open>
  What the other theories share: outcomes of Go code that may panic, the few operations of Go's
  standard library the sources call on strings and slices, Go maps and the pointer cells that
  several goroutines of the chat bot share. Nothing here models a file of the repository by
  itself, except where a text block says so.
\<close>

named_theorems go_simps \<open>rewrites for the panic monad\<close>
named_theorems go_consts \<open>the string and number constants of the sources\<close>

subsection \<open>Panics\<close>

text \<open>
  A Go function that may panic returns a value of type \<open>'a go\<close>. \<open>NilDeref\<close> is the runtime error
  of a nil pointer, \<open>SliceBounds\<close> the one of an index or slice expression out of range,
  \<open>NilMap\<close> a store to a nil map, \<open>TypeAssertion\<close> a failed type assertion, \<open>AssertFailed\<close> a failed \<open>assert\<close> of the err2 package and
  \<open>ErrThrown\<close> an error that \<open>try.To\<close> throws and no handler of the function takes.
\<close>

datatype panic = NilDeref | SliceBounds | NilMap | AssertFailed | ErrThrown | TypeAssertion

type_synonym 'a go = "panic + 'a"

definition bindG :: "'a go \<Rightarrow> ('a \<Rightarrow> 'b go) \<Rightarrow> 'b go" where
  "bindG m f = (case m of Inl p \<Rightarrow> Inl p | Inr x \<Rightarrow> f x)"

definition deref :: "'a option \<Rightarrow> 'a go" where
  "deref p = (case p of None \<Rightarrow> Inl NilDeref | Some x \<Rightarrow> Inr x)"

definition assertG :: "bool \<Rightarrow> unit go" where
  "assertG b = (if b then Inr () else Inl AssertFailed)"

definition slice_from :: "nat \<Rightarrow> 'a list \<Rightarrow> 'a list go" where
  "slice_from i xs = (if i \<le> length xs then Inr (drop i xs) else Inl SliceBounds)"

lemma bindG_Inl [simp, go_simps]: "bindG (Inl p) f = Inl p"
  by (simp add: bindG_def)

lemma bindG_Inr [simp, go_simps]: "bindG (Inr x) f = f x"
  by (simp add: bindG_def)

lemma bindG_eq_Inr [simp]: "bindG m f = Inr y \<longleftrightarrow> (\<exists>x. m = Inr x \<and> f x = Inr y)"
  by (cases m) auto

lemma bindG_eq_Inl: "bindG m f = Inl p \<longleftrightarrow> m = Inl p \<or> (\<exists>x. m = Inr x \<and> f x = Inl p)"
  by (cases m) auto

lemma bindG_assoc [go_simps]: "bindG (bindG m f) g = bindG m (\<lambda>x. bindG (f x) g)"
  by (cases m) auto

lemma deref_None [simp, go_simps]: "deref None = Inl NilDeref"
  by (simp add: deref_def)

lemma deref_Some [simp, go_simps]: "deref (Some x) = Inr x"
  by (simp add: deref_def)

lemma deref_eq_Inr [simp]: "deref p = Inr x \<longleftrightarrow> p = Some x"
  by (cases p) auto

lemma assertG_True [simp, go_simps]: "assertG True = Inr ()"
  by (simp add: assertG_def)

lemma assertG_False [simp, go_simps]: "assertG False = Inl AssertFailed"
  by (simp add: assertG_def)

lemma assertG_eq_Inr [simp]: "assertG b = Inr u \<longleftrightarrow> b"
  by (cases b) auto

lemma slice_from_ok: "i \<le> length xs \<Longrightarrow> slice_from i xs = Inr (drop i xs)"
  by (simp add: slice_from_def)

lemma slice_from_out: "length xs < i \<Longrightarrow> slice_from i xs = Inl SliceBounds"
  by (simp add: slice_from_def)

text \<open>Whether a computation returns at all, and whether a computation under a handler that
  recovers every panic (\<open>err2.Catch\<close>) returns.\<close>

definition returns :: "'a go \<Rightarrow> bool" where
  "returns m \<longleftrightarrow> (case m of Inl _ \<Rightarrow> False | Inr _ \<Rightarrow> True)"

lemma returns_Inl [simp, go_simps]: "\<not> returns (Inl p)"
  by (simp add: returns_def)

lemma returns_Inr [simp, go_simps]: "returns (Inr x)"
  by (simp add: returns_def)

lemma returns_iff: "returns m \<longleftrightarrow> (\<exists>x. m = Inr x)"
  by (cases m) auto

lemma returns_bindG: "returns (bindG m f) \<longleftrightarrow> (\<exists>x. m = Inr x \<and> returns (f x))"
  by (cases m) auto

text \<open>
  Two predicate transformers over the monad: \<open>wlp m P\<close> says that \<open>P\<close> holds if \<open>m\<close> returns, and
  \<open>wp m P\<close> that it returns and \<open>P\<close> holds.
\<close>

definition wlp :: "'a go \<Rightarrow> ('a \<Rightarrow> bool) \<Rightarrow> bool" where
  "wlp m P \<longleftrightarrow> (case m of Inl _ \<Rightarrow> True | Inr x \<Rightarrow> P x)"

definition wp :: "'a go \<Rightarrow> ('a \<Rightarrow> bool) \<Rightarrow> bool" where
  "wp m P \<longleftrightarrow> (case m of Inl _ \<Rightarrow> False | Inr x \<Rightarrow> P x)"

lemma wlp_simps [simp, go_simps]:
  "wlp (Inl p) P" "wlp (Inr x) P \<longleftrightarrow> P x"
  "wlp (bindG m f) Q \<longleftrightarrow> wlp m (\<lambda>x. wlp (f x) Q)"
  by (simp_all add: wlp_def bindG_def split: sum.split)

lemma wp_simps [simp, go_simps]:
  "\<not> wp (Inl p) P" "wp (Inr x) P \<longleftrightarrow> P x"
  "wp (bindG m f) Q \<longleftrightarrow> wp m (\<lambda>x. wp (f x) Q)"
  by (simp_all add: wp_def bindG_def split: sum.split)

lemma wlp_deref [simp]: "wlp (deref p) P \<longleftrightarrow> (\<forall>x. p = Some x \<longrightarrow> P x)"
  by (cases p) auto

lemma wlp_assertG [simp]: "wlp (assertG b) P \<longleftrightarrow> (b \<longrightarrow> P ())"
  by (cases b) auto

lemma wp_deref [simp]: "wp (deref p) P \<longleftrightarrow> (\<exists>x. p = Some x \<and> P x)"
  by (cases p) auto

lemma wp_assertG [simp]: "wp (assertG b) P \<longleftrightarrow> b \<and> P ()"
  by (cases b) auto

lemma wlpI: "(\<And>x. m = Inr x \<Longrightarrow> P x) \<Longrightarrow> wlp m P"
  by (cases m) auto

lemma wlpD: "wlp m P \<Longrightarrow> m = Inr x \<Longrightarrow> P x"
  by simp

lemma wlp_mono: "wlp m P \<Longrightarrow> (\<And>x. P x \<Longrightarrow> Q x) \<Longrightarrow> wlp m Q"
  by (cases m) auto

lemma wp_mono: "wp m P \<Longrightarrow> (\<And>x. P x \<Longrightarrow> Q x) \<Longrightarrow> wp m Q"
  by (cases m) auto

lemma wpE: "wp m P \<Longrightarrow> (\<And>x. m = Inr x \<Longrightarrow> P x \<Longrightarrow> R) \<Longrightarrow> R"
  by (cases m) auto

lemma wpI: "m = Inr x \<Longrightarrow> P x \<Longrightarrow> wp m P"
  by simp

lemma wlp_if [simp]: "wlp (if b then m else m') P \<longleftrightarrow> (b \<longrightarrow> wlp m P) \<and> (\<not> b \<longrightarrow> wlp m' P)"
  by simp

lemma wp_if [simp]: "wp (if b then m else m') P \<longleftrightarrow> (b \<longrightarrow> wp m P) \<and> (\<not> b \<longrightarrow> wp m' P)"
  by simp

subsection \<open>Go maps\<close>

text \<open>Reading a Go map yields the zero value, here the empty string, for a missing key.\<close>

definition mget :: "(string \<rightharpoonup> string) \<Rightarrow> string \<Rightarrow> string" where
  "mget m k = (case m k of None \<Rightarrow> [] | Some v \<Rightarrow> v)"

lemma mget_upd_same [simp]: "mget (m(k \<mapsto> v)) k = v"
  by (simp add: mget_def)

lemma mget_upd_other [simp]: "k' \<noteq> k \<Longrightarrow> mget (m(k \<mapsto> v)) k' = mget m k'"
  by (simp add: mget_def)

lemma mget_empty [simp]: "mget Map.empty k = []"
  by (simp add: mget_def)

lemma mget_Some: "m k = Some v \<Longrightarrow> mget m k = v"
  by (simp add: mget_def)

lemma in_dom_code [code_unfold]: "k \<in> dom m \<longleftrightarrow> m k \<noteq> None"
  by (simp add: dom_def)

text \<open>
  A Go map that the code ranges over is an association list with distinct keys: its order is the
  iteration order, which Go leaves open, and the theorems hold for every order.
\<close>

fun alist_update :: "'k \<Rightarrow> ('v \<Rightarrow> 'v) \<Rightarrow> ('k \<times> 'v) list \<Rightarrow> ('k \<times> 'v) list" where
  "alist_update k f [] = []"
| "alist_update k f ((k', v) # xs) =
     (if k' = k then (k', f v) # xs else (k', v) # alist_update k f xs)"

lemma alist_update_keys [simp]: "map fst (alist_update k f xs) = map fst xs"
  by (induction k f xs rule: alist_update.induct) auto

lemma map_of_alist_update:
  "map_of (alist_update k f xs) k' = (if k' = k then map_option f (map_of xs k) else map_of xs k')"
  by (induction k f xs rule: alist_update.induct) auto

lemma dom_map_of_alist_update [simp]: "dom (map_of (alist_update k f xs)) = dom (map_of xs)"
  by (auto simp: map_of_alist_update dom_def split: if_splits)

subsection \<open>Strings\<close>

text \<open>\<open>strings.HasPrefix\<close>, \<open>strings.TrimPrefix\<close>, \<open>strings.Contains\<close>, \<open>strings.Split\<close> (for a
  separator that is not empty, the only use) and \<open>strings.ReplaceAll\<close> of one character.\<close>

definition hasPrefix :: "string \<Rightarrow> string \<Rightarrow> bool" where
  "hasPrefix s p = prefix p s"

definition trimPrefix :: "string \<Rightarrow> string \<Rightarrow> string" where
  "trimPrefix s p = (if hasPrefix s p then drop (length p) s else s)"

definition contains :: "string \<Rightarrow> string \<Rightarrow> bool" where
  "contains s sub = sublist sub s"

fun splitAux :: "string \<Rightarrow> string \<Rightarrow> string \<Rightarrow> string list" where
  "splitAux sep acc [] = [rev acc]"
| "splitAux sep acc (c # cs) =
     (if prefix sep (c # cs) then rev acc # splitAux sep [] (drop (length sep - 1) cs)
      else splitAux sep (c # acc) cs)"

definition strings_Split :: "string \<Rightarrow> string \<Rightarrow> string list" where
  "strings_Split s sep = splitAux sep [] s"

definition join :: "string \<Rightarrow> string list \<Rightarrow> string" where
  "join sep ss = (case ss of [] \<Rightarrow> [] | s # rest \<Rightarrow> s @ concat (map (\<lambda>x. sep @ x) rest))"

definition replaceChar :: "char \<Rightarrow> string \<Rightarrow> string \<Rightarrow> string" where
  "replaceChar c r s = concat (map (\<lambda>x. if x = c then r else [x]) s)"

lemma hasPrefix_append [simp]: "hasPrefix (p @ s) p"
  by (simp add: hasPrefix_def)

lemma trimPrefix_append [simp]: "trimPrefix (p @ s) p = s"
  by (simp add: trimPrefix_def)

lemma hasPrefix_iff: "hasPrefix s p \<longleftrightarrow> (\<exists>t. s = p @ t)"
  by (auto simp: hasPrefix_def prefix_def)

lemma splitAux_not_Nil [simp]: "splitAux sep acc s \<noteq> []"
  by (induction sep acc s rule: splitAux.induct) auto

lemma join_Cons_ne: "ss \<noteq> [] \<Longrightarrow> join sep (s # ss) = s @ sep @ join sep ss"
  by (cases ss) (auto simp: join_def)

lemma join_splitAux: "sep \<noteq> [] \<Longrightarrow> join sep (splitAux sep acc s) = rev acc @ s"
proof (induction sep acc s rule: splitAux.induct)
  case (1 sep acc)
  then show ?case by (simp add: join_def)
next
  case (2 sep acc c cs)
  show ?case
  proof (cases "prefix sep (c # cs)")
    case True
    with 2 obtain d ds where sep: "sep = d # ds" by (cases sep) auto
    with True obtain t where t: "c # cs = sep @ t" by (auto simp: prefix_def)
    with sep have "drop (length sep - 1) cs = t" by auto
    then have "splitAux sep acc (c # cs) = rev acc # splitAux sep [] t"
      using True by simp
    moreover have "join sep (splitAux sep [] t) = t"
      using "2.IH"(1) [OF True] "2.prems" \<open>drop (length sep - 1) cs = t\<close> by simp
    ultimately show ?thesis by (simp only: join_Cons_ne splitAux_not_Nil not_False_eq_True t)
  next
    case False
    with 2 show ?thesis by simp
  qed
qed

lemma join_split: "sep \<noteq> [] \<Longrightarrow> join sep (strings_Split s sep) = s"
  by (simp add: strings_Split_def join_splitAux)

lemma splitAux_no_sep: "\<not> sublist sep s \<Longrightarrow> splitAux sep acc s = [rev acc @ s]"
proof (induction sep acc s rule: splitAux.induct)
  case (1 sep acc)
  then show ?case by simp
next
  case (2 sep acc c cs)
  from "2.prems" have "\<not> prefix sep (c # cs)" and "\<not> sublist sep cs"
    by (auto simp: sublist_Cons_right)
  with 2 show ?case by simp
qed

lemma split_no_sep: "\<not> contains s sep \<Longrightarrow> strings_Split s sep = [s]"
  by (simp add: strings_Split_def contains_def splitAux_no_sep)

text \<open>Decimal digits, as \<open>fmt\<close> prints an integer that is not negative with \<open>%v\<close> or \<open>%d\<close>.\<close>

definition digit :: "int \<Rightarrow> char" where
  "digit n = char_of (48 + n)"

function decimal :: "int \<Rightarrow> string" where
  "decimal n = (if n < 10 then [digit n] else decimal (n div 10) @ [digit (n mod 10)])"
  by auto

termination by (relation "measure nat") auto

declare decimal.simps [simp del]

lemma length_decimal: "10 ^ k \<le> n \<Longrightarrow> n < 10 ^ Suc k \<Longrightarrow> length (decimal n) = Suc k"
proof (induction k arbitrary: n)
  case 0
  then show ?case by (simp add: decimal.simps [of n])
next
  case (Suc k)
  have "1 \<le> (10 :: int) ^ k" by simp
  then have ge: "\<not> n < 10"
    using Suc.prems(1) unfolding power_Suc by linarith
  have "10 ^ k \<le> n div 10" "n div 10 < 10 ^ Suc k"
    using Suc.prems by simp_all
  with Suc.IH ge show ?case by (simp add: decimal.simps [of n])
qed

subsection \<open>Pointer cells\<close>

text \<open>
  Values that the code shares between goroutines by pointer live in a heap of cells. A pointer is
  the number of a cell, nil is \<open>None\<close>, and \<open>new\<close> takes the next free cell.
\<close>

record 'v heap =
  cells :: "nat \<Rightarrow> 'v"
  next_cell :: nat

definition hnew :: "'v \<Rightarrow> 'v heap \<Rightarrow> nat \<times> 'v heap" where
  "hnew v h = (next_cell h, h\<lparr>cells := (cells h)(next_cell h := v), next_cell := Suc (next_cell h)\<rparr>)"

definition hmod :: "nat \<Rightarrow> ('v \<Rightarrow> 'v) \<Rightarrow> 'v heap \<Rightarrow> 'v heap" where
  "hmod p f h = h\<lparr>cells := (cells h)(p := f (cells h p))\<rparr>"

lemma cells_hmod [simp]: "cells (hmod p f h) = (cells h)(p := f (cells h p))"
  by (simp add: hmod_def)

lemma next_cell_hmod [simp]: "next_cell (hmod p f h) = next_cell h"
  by (simp add: hmod_def)

lemma hnew_fst [simp]: "fst (hnew v h) = next_cell h"
  by (simp add: hnew_def)

lemma hnew_cells [simp]: "cells (snd (hnew v h)) = (cells h)(next_cell h := v)"
  by (simp add: hnew_def)

lemma hnew_next [simp]: "next_cell (snd (hnew v h)) = Suc (next_cell h)"
  by (simp add: hnew_def)

text \<open>Code equations that wait for the heap, so that evaluation does not copy it.\<close>

lemma hnew_code [code]:
  "hnew v \<lparr>cells = c, next_cell = n\<rparr> = (n, \<lparr>cells = c(n := v), next_cell = Suc n\<rparr>)"
  by (simp add: hnew_def)

lemma hmod_code [code]:
  "hmod p f \<lparr>cells = c, next_cell = n\<rparr> = \<lparr>cells = c(p := f (c p)), next_cell = n\<rparr>"
  by (simp add: hmod_def)

end
