(* ===== verification/Fsm_Types.thy ===== *)
theory Fsm_Types
  imports Go_Prelude
begin

text \<open>
  The data of the state machines of \<open>agency/fsm\<close>: constants and file format (\<open>fsm.go\<close>), events and
  transitions (\<open>event.go\<close>, \<open>transition.go\<close>), the machine (\<open>machine.go\<close>), the messages between the
  two kinds of machines (\<open>backend.go\<close>), the machine types (\<open>machine_type.go\<close>), and the fields of the
  agency's messages (\<open>grpc/agency/v1\<close>) that the machines read. A pointer that the code tests
  against nil, or that can be nil when it is followed, is an \<open>option\<close>.
\<close>

subsection \<open>Rules and protocols of the file format\<close>

definition TriggerTypeLua :: string where
  [go_consts]: "TriggerTypeLua = ''LUA''"
definition TriggerTypeOurMessage :: string where
  [go_consts]: "TriggerTypeOurMessage = ''OUR_STATUS''"
definition TriggerTypeUseInput :: string where
  [go_consts]: "TriggerTypeUseInput = ''INPUT''"
definition TriggerTypeUseInputSave :: string where
  [go_consts]: "TriggerTypeUseInputSave = ''INPUT_SAVE''"
definition TriggerTypeUseInputSaveConnID :: string where
  [go_consts]: "TriggerTypeUseInputSaveConnID = ''INPUT_SAVE_CONN''"
definition TriggerTypeUseInputSaveSessionID :: string where
  [go_consts]: "TriggerTypeUseInputSaveSessionID = ''INPUT_SAVE_SESSION_ID''"
definition TriggerTypeFormat :: string where
  [go_consts]: "TriggerTypeFormat = ''FORMAT''"
definition TriggerTypeFormatFromMem :: string where
  [go_consts]: "TriggerTypeFormatFromMem = ''FORMAT_MEM''"
definition TriggerTypePIN :: string where
  [go_consts]: "TriggerTypePIN = ''GEN_PIN''"
definition TriggerTypeData :: string where
  [go_consts]: "TriggerTypeData = []"
definition TriggerTypeValidateInputEqual :: string where
  [go_consts]: "TriggerTypeValidateInputEqual = ''INPUT_VALIDATE_EQUAL''"
definition TriggerTypeValidateInputNotEqual :: string where
  [go_consts]: "TriggerTypeValidateInputNotEqual = ''INPUT_VALIDATE_NOT_EQUAL''"
definition TriggerTypeInputEqual :: string where
  [go_consts]: "TriggerTypeInputEqual = ''INPUT_EQUAL''"
definition TriggerTypeAcceptAndInputValues :: string where
  [go_consts]: "TriggerTypeAcceptAndInputValues = ''ACCEPT_AND_INPUT_VALUES''"
definition TriggerTypeNotAcceptValues :: string where
  [go_consts]: "TriggerTypeNotAcceptValues = ''NOT_ACCEPT_VALUES''"
definition TriggerTypeTransient :: string where
  [go_consts]: "TriggerTypeTransient = ''TRANSIENT''"

definition MessageNone :: string where
  [go_consts]: "MessageNone = []"
definition MessageBasicMessage :: string where
  [go_consts]: "MessageBasicMessage = ''basic_message''"
definition MessageIssueCred :: string where
  [go_consts]: "MessageIssueCred = ''issue_cred''"
definition MessageTrustPing :: string where
  [go_consts]: "MessageTrustPing = ''trust_ping''"
definition MessagePresentProof :: string where
  [go_consts]: "MessagePresentProof = ''present_proof''"
definition MessageConnection :: string where
  [go_consts]: "MessageConnection = ''connection''"
definition MessageAnswer :: string where
  [go_consts]: "MessageAnswer = ''answer''"
definition MessageEmail :: string where
  [go_consts]: "MessageEmail = ''email''"
definition MessageHook :: string where
  [go_consts]: "MessageHook = ''hook''"
definition MessageBackend :: string where
  [go_consts]: "MessageBackend = ''backend''"
definition MessageTransient :: string where
  [go_consts]: "MessageTransient = ''transient''"

text \<open>
  The enumerations of the wire format are 32-bit integers that the code only compares, so they
  are integers here. \<open>Protocol_Type\<close> has the five numbers of the agency's enumeration and the
  machines' own ones from 100 on.
\<close>

type_synonym Protocol_Type = int

definition Protocol_NONE :: Protocol_Type where
  [go_consts]: "Protocol_NONE = 0"
definition Protocol_DIDEXCHANGE :: Protocol_Type where
  [go_consts]: "Protocol_DIDEXCHANGE = 1"
definition Protocol_ISSUE_CREDENTIAL :: Protocol_Type where
  [go_consts]: "Protocol_ISSUE_CREDENTIAL = 2"
definition Protocol_PRESENT_PROOF :: Protocol_Type where
  [go_consts]: "Protocol_PRESENT_PROOF = 3"
definition Protocol_TRUST_PING :: Protocol_Type where
  [go_consts]: "Protocol_TRUST_PING = 4"
definition Protocol_BASIC_MESSAGE :: Protocol_Type where
  [go_consts]: "Protocol_BASIC_MESSAGE = 5"
definition EmailProtocol :: Protocol_Type where
  [go_consts]: "EmailProtocol = 100"
definition QAProtocol :: Protocol_Type where
  [go_consts]: "QAProtocol = 101"
definition HookProtocol :: Protocol_Type where
  [go_consts]: "HookProtocol = 102"
definition BackendProtocol :: Protocol_Type where
  [go_consts]: "BackendProtocol = 103"
definition TransientProtocol :: Protocol_Type where
  [go_consts]: "TransientProtocol = 104"

text \<open>The two tables between names and numbers; a Go map yields the zero value for a missing key.\<close>

definition ProtocolType_table :: "(string \<times> Protocol_Type) list" where
  [go_consts]: "ProtocolType_table =
    [(MessageNone, Protocol_NONE),
     (MessageConnection, Protocol_DIDEXCHANGE),
     (MessageIssueCred, Protocol_ISSUE_CREDENTIAL),
     (MessagePresentProof, Protocol_PRESENT_PROOF),
     (MessageTrustPing, Protocol_TRUST_PING),
     (MessageBasicMessage, Protocol_BASIC_MESSAGE),
     (MessageEmail, EmailProtocol),
     (MessageAnswer, QAProtocol),
     (MessageHook, HookProtocol),
     (MessageBackend, BackendProtocol),
     (MessageTransient, TransientProtocol)]"

definition ProtocolType :: "string \<Rightarrow> Protocol_Type" where
  "ProtocolType s = (case map_of ProtocolType_table s of None \<Rightarrow> 0 | Some t \<Rightarrow> t)"

definition toFileProtocolType_table :: "(Protocol_Type \<times> string) list" where
  [go_consts]: "toFileProtocolType_table =
    [(Protocol_NONE, MessageNone),
     (Protocol_DIDEXCHANGE, MessageConnection),
     (Protocol_ISSUE_CREDENTIAL, MessageIssueCred),
     (Protocol_PRESENT_PROOF, MessagePresentProof),
     (Protocol_TRUST_PING, MessageTrustPing),
     (Protocol_BASIC_MESSAGE, MessageBasicMessage),
     (EmailProtocol, MessageEmail),
     (QAProtocol, MessageAnswer),
     (HookProtocol, MessageHook),
     (BackendProtocol, MessageBackend),
     (TransientProtocol, MessageTransient)]"

definition toFileProtocolType :: "Protocol_Type \<Rightarrow> string" where
  "toFileProtocolType t = (case map_of toFileProtocolType_table t of None \<Rightarrow> [] | Some s \<Rightarrow> s)"

definition Notification_KEEPALIVE :: int where
  [go_consts]: "Notification_KEEPALIVE = 1"
definition Notification_STATUS_UPDATE :: int where
  [go_consts]: "Notification_STATUS_UPDATE = 2"
definition Notification_PROTOCOL_PAUSED :: int where
  [go_consts]: "Notification_PROTOCOL_PAUSED = 3"
definition Question_KEEPALIVE :: int where
  [go_consts]: "Question_KEEPALIVE = 1"
definition Question_PING_WAITS :: int where
  [go_consts]: "Question_PING_WAITS = 2"
definition Question_ISSUE_PROPOSE_WAITS :: int where
  [go_consts]: "Question_ISSUE_PROPOSE_WAITS = 3"
definition Question_PROOF_PROPOSE_WAITS :: int where
  [go_consts]: "Question_PROOF_PROPOSE_WAITS = 4"
definition Question_PROOF_VERIFY_WAITS :: int where
  [go_consts]: "Question_PROOF_VERIFY_WAITS = 5"

definition notificationTypeID :: "(string \<times> int) list" where
  [go_consts]: "notificationTypeID =
    [(''STATUS_UPDATE'', Notification_STATUS_UPDATE),
     (''ACTION_NEEDED'', Notification_PROTOCOL_PAUSED)]"

definition QuestionTypeID :: "(string \<times> int) list" where
  [go_consts]: "QuestionTypeID =
    [(''ANSWER_NEEDED_PING'', Question_PING_WAITS),
     (''ANSWER_NEEDED_ISSUE_PROPOSE'', Question_ISSUE_PROPOSE_WAITS),
     (''ANSWER_NEEDED_PROOF_PROPOSE'', Question_PROOF_PROPOSE_WAITS),
     (''ANSWER_NEEDED_PROOF_VERIFY'', Question_PROOF_VERIFY_WAITS)]"

definition NotificationTypeID :: "string \<Rightarrow> int" where
  "NotificationTypeID typeName =
     (case map_of notificationTypeID typeName of
        Some n \<Rightarrow> n
      | None \<Rightarrow> (case map_of QuestionTypeID typeName of
          Some q \<Rightarrow> 10 * q
        | None \<Rightarrow> 0))"

text \<open>Registers of the memory map that the Go code itself reads or writes.\<close>

definition LUA_CONN_ID :: string where
  [go_consts]: "LUA_CONN_ID = ''CONN_ID''"
definition LUA_SUBJECT :: string where
  [go_consts]: "LUA_SUBJECT = ''SUBJECT''"
definition LUA_SESSION_ID :: string where
  [go_consts]: "LUA_SESSION_ID = ''SESSION_ID''"
definition LUA_INPUT :: string where
  [go_consts]: "LUA_INPUT = ''INPUT''"
definition LUA_OUTPUT :: string where
  [go_consts]: "LUA_OUTPUT = ''OUTPUT''"
definition LUA_TARGET :: string where
  [go_consts]: "LUA_TARGET = ''TARGET''"
definition LUA_OK :: string where
  [go_consts]: "LUA_OK = ''OK''"
definition LUA_ALL_OK :: string where
  [go_consts]: "LUA_ALL_OK = []"
definition LUA_ERROR :: string where
  [go_consts]: "LUA_ERROR = ''ERR''"
definition PIN_REGISTER :: string where
  [go_consts]: "PIN_REGISTER = ''PIN''"
definition REG_MEMORY :: string where
  [go_consts]: "REG_MEMORY = ''MEM''"
definition digitsInPIN :: nat where
  [go_consts]: "digitsInPIN = 6"

subsection \<open>Machine types\<close>

text \<open>In the source's \<open>const\<close> block the second line is \<open>1 + iota\<close> with \<open>iota = 1\<close>, so the two
  kinds of machines are 2 and 3.\<close>

type_synonym MachineType = int

definition MachineTypeNone :: MachineType where
  [go_consts]: "MachineTypeNone = 0"
definition MachineTypeConversation :: MachineType where
  [go_consts]: "MachineTypeConversation = 1 + 1"
definition MachineTypeBackend :: MachineType where
  [go_consts]: "MachineTypeBackend = 1 + 2"

definition machineTypeNames :: "(MachineType \<times> string) list" where
  [go_consts]: "machineTypeNames =
    [(MachineTypeNone, ''MachineTypeNone''),
     (MachineTypeConversation, ''MachineTypeConversation''),
     (MachineTypeBackend, ''MachineTypeBackend'')]"

definition machineTypeValues :: "(string \<times> MachineType) list" where
  [go_consts]: "machineTypeValues =
    [(''MachineTypeNone'', MachineTypeNone),
     (''MachineTypeConversation'', MachineTypeConversation),
     (''MachineTypeBackend'', MachineTypeBackend)]"

definition MachineType_String :: "MachineType \<Rightarrow> string" where
  "MachineType_String mt = (case map_of machineTypeNames mt of None \<Rightarrow> [] | Some s \<Rightarrow> s)"

text \<open>\<open>assert.MKeyExists\<close> under \<open>err2.Handle\<close>: an unknown name is the error result, here \<open>None\<close>.\<close>

definition ParseMachineType :: "string \<Rightarrow> MachineType option" where
  "ParseMachineType s = map_of machineTypeValues s"

text \<open>In JSON a type is its name; \<open>marshal\<close> and \<open>unmarshal\<close> are the package's functions on strings. An unknown number has the
  empty name, which is not read back.\<close>

definition MarshalJSON :: "(string \<Rightarrow> 'j option) \<Rightarrow> MachineType \<Rightarrow> 'j option" where
  "MarshalJSON marshal mt = marshal (MachineType_String mt)"

definition UnmarshalJSON :: "('j \<Rightarrow> string option) \<Rightarrow> 'j \<Rightarrow> MachineType option" where
  "UnmarshalJSON unmarshal dat = (case unmarshal dat of None \<Rightarrow> None | Some machineType \<Rightarrow> ParseMachineType machineType)"

lemma MachineType_round_trip:
  assumes "\<And>s j. marshal s = Some j \<Longrightarrow> unmarshal j = Some s" "MarshalJSON marshal mt = Some j"
  shows "UnmarshalJSON unmarshal j =
    (if mt \<in> {MachineTypeNone, MachineTypeConversation, MachineTypeBackend} then Some mt else None)"
  using assms(1) [OF assms(2) [unfolded MarshalJSON_def]]
  by (auto simp: UnmarshalJSON_def ParseMachineType_def MachineType_String_def go_consts)

subsection \<open>Messages of the agency\<close>

text \<open>The fields of \<open>ProtocolStatus\<close>, \<open>Notification\<close>, \<open>AgentStatus\<close> and \<open>Question\<close> that the machines
  and the chat bot read. \<open>ps_BasicMessage\<close> and \<open>q_ProofVerify\<close> are what the getters of the one-of
  fields return.\<close>

record ProtocolID =
  pid_TypeID :: Protocol_Type
  pid_Role :: int
  pid_ID :: string

record ProtocolState =
  st_ProtocolID :: "ProtocolID option"
  st_State :: int

definition ProtocolState_OK :: int where
  [go_consts]: "ProtocolState_OK = 1"

record ProtocolStatus =
  ps_State :: "ProtocolState option"
  ps_BasicMessage :: "string option"

record Notification =
  n_TypeID :: int
  n_ID :: string
  n_ConnectionID :: string
  n_ProtocolID :: string
  n_Timestamp :: int
  n_ProtocolType :: Protocol_Type
  n_Role :: int

record AgentStatus =
  as_ClientID :: string
  as_Notification :: Notification

record Attribute =
  at_Value :: string
  at_Name :: string
  at_CredDefID :: string

record Question =
  q_Status :: AgentStatus
  q_TypeID :: int
  q_ProofVerify :: "Attribute list option"

text \<open>\<open>status.GetState().ProtocolID.TypeID\<close>: the getter accepts a nil receiver, the two field
  selections after it do not accept a nil pointer.\<close>

definition GetState :: "ProtocolStatus option \<Rightarrow> ProtocolState option" where
  "GetState s = (case s of None \<Rightarrow> None | Some x \<Rightarrow> ps_State x)"

definition GetBasicMessage :: "ProtocolStatus option \<Rightarrow> string option" where
  "GetBasicMessage s = (case s of None \<Rightarrow> None | Some x \<Rightarrow> ps_BasicMessage x)"

definition statusTypeID :: "ProtocolStatus option \<Rightarrow> Protocol_Type go" where
  "statusTypeID s =
     bindG (deref (GetState s)) (\<lambda>st.
     bindG (deref (st_ProtocolID st)) (\<lambda>p. Inr (pid_TypeID p)))"

subsection \<open>Events, transitions, states\<close>

record BackendData =
  bd_ConnID :: string
  bd_Protocol :: string
  bd_NoEcho :: bool
  bd_SessionID :: string
  bd_Subject :: string
  bd_Content :: string

text \<open>The zero value of the struct.\<close>

definition BackendData_zero :: BackendData where
  "BackendData_zero = \<lparr>bd_ConnID = [], bd_Protocol = [], bd_NoEcho = False, bd_SessionID = [],
     bd_Subject = [], bd_Content = []\<rparr>"

text \<open>The text of a message in the logs; an id of less than eight bytes panics, which \<open>fmt\<close> catches and writes instead of
  the text.\<close>

definition BackendData_String :: "BackendData \<Rightarrow> string go" where
  "BackendData_String bd =
     (let noEcho = (if bd_NoEcho bd then ''yes'' else ''no'') in
      if length (bd_ConnID bd) < 8 then Inl SliceBounds
      else (let connID = take 8 (bd_ConnID bd) in
            Inr (bd_Content bd @ ''|ConnID:'' @ connID @ '', NoEcho:'' @ noEcho @ '', SID:'' @ bd_SessionID bd)))"

record Email =
  em_To :: string
  em_From :: string
  em_Subject :: string
  em_Body :: string

record Issuing =
  is_CredDefID :: string
  is_AttrsJSON :: string

record ProofAttr =
  pa_ID :: string
  pa_Name :: string
  pa_CredDefID :: string
  pa_Predicate :: string
  pa_found :: bool

text \<open>The one-field structs \<open>BasicMessage\<close>, \<open>Proof\<close> and \<open>Hook\<close> are their field; the map of a hook,
  which the code only builds and hands over, is the list of its entries. \<open>Backend\<close> is a
  pointer that several goroutines hold, so it is a cell of a heap of \<open>BackendData\<close>.\<close>

type_synonym hook_map = "(string \<times> string) list"

record EventData =
  ed_BasicMessage :: "string option"
  ed_Issuing :: "Issuing option"
  ed_Email :: "Email option"
  ed_Proof :: "string option"
  ed_Hook :: "hook_map option"
  ed_Backend :: "nat option"

definition EventData_zero :: EventData where
  "EventData_zero = \<lparr>ed_BasicMessage = None, ed_Issuing = None, ed_Email = None, ed_Proof = None,
     ed_Hook = None, ed_Backend = None\<rparr>"

record Event =
  e_Protocol :: string
  e_TypeID :: string
  e_Rule :: string
  e_Data :: string
  e_NoStatus :: bool
  e_WantStatus :: bool
  e_EventData :: "EventData option"
  e_NoEcho :: bool
  e_ProtocolType :: Protocol_Type
  e_NotificationType :: int
  e_ProtocolStatus :: "ProtocolStatus option"

definition Event_zero :: Event where
  "Event_zero = \<lparr>e_Protocol = [], e_TypeID = [], e_Rule = [], e_Data = [], e_NoStatus = False,
     e_WantStatus = False, e_EventData = None, e_NoEcho = False, e_ProtocolType = 0,
     e_NotificationType = 0, e_ProtocolStatus = None\<rparr>"

record Transition =
  t_Trigger :: "Event option"
  t_Sends :: "Event list"
  t_Target :: string

record State =
  s_Transitions :: "Transition list"
  s_Terminate :: bool

subsection \<open>Lua calls and the machine\<close>

text \<open>
  A script reaches the program only through the two functions that \<open>registerMemFuncs\<close> registers.
  \<open>LuaSet r k v\<close> is a call of \<open>setRegValue\<close>; an argument that is not a string is \<open>None\<close>. Calls of
  \<open>getRegValue\<close> change nothing. The interpreter keeps its own globals between scripts: its state
  is the history of the scripts it has run, each with the memory it started from.
\<close>

datatype lua_call = LuaSet "string option" "string option" "string option"

type_synonym memory = "string \<rightharpoonup> string"
type_synonym lua_hist = "(string \<times> memory) list"

text \<open>
  \<open>m_luaState\<close> is nil until \<open>InitLua\<close>; \<open>m_termChan\<close> tells whether the termination channel is a real
  channel; \<open>m_States\<close> lists the map in an arbitrary iteration order. \<open>m_rndDraws\<close> counts the random
  numbers drawn so far. The back pointers of events and transitions to their machine are left out:
  every event of a machine is reached from it.
\<close>

record Machine =
  m_Type :: MachineType
  m_Name :: string
  m_KeepMemory :: bool
  m_Initial :: "Transition option"
  m_States :: "(string \<times> State) list"
  m_Current :: string
  m_Initialized :: bool
  m_Memory :: memory
  m_ConnID :: string
  m_termChan :: bool
  m_luaState :: "lua_hist option"
  m_KeepMemoryReported :: bool
  m_rndDraws :: nat

text \<open>
  What the machines use of code and of an environment outside the repository: environment
  variables, files, the Lua interpreter (\<open>go-lua\<close>), the template, format and JSON packages, and the
  random source. Each is an arbitrary function. \<open>luaDo h script mem\<close> is the list of \<open>setRegValue\<close>
  calls of the script and whether it ran without an error; \<open>execTemplate\<close> is \<open>None\<close> when the text
  does not parse or its execution fails; \<open>randIntn i n\<close> is the \<open>i\<close>-th number drawn below \<open>n\<close>.
\<close>

record env =
  getenv :: "string \<Rightarrow> string"
  readFile :: "string \<Rightarrow> string option"
  luaDo :: "lua_hist \<Rightarrow> string \<Rightarrow> memory \<Rightarrow> lua_call list \<times> bool"
  execTemplate :: "string \<Rightarrow> memory \<Rightarrow> string option"
  sprintf :: "string \<Rightarrow> string \<Rightarrow> string"
  unmarshalEmail :: "string \<Rightarrow> Email"
  unmarshalProofAttrs :: "string \<Rightarrow> ProofAttr list option"
  randIntn :: "nat \<Rightarrow> int \<Rightarrow> int"

text \<open>\<open>m.States[m.Current]\<close>, which is nil when the map has no such key.\<close>

definition stateOf :: "Machine \<Rightarrow> string \<Rightarrow> State option" where
  "stateOf m s = map_of (m_States m) s"

definition CurrentState :: "Machine \<Rightarrow> State option" where
  "CurrentState m = stateOf m (m_Current m)"

text \<open>
  A transition that a trigger has found is a copy that shares its events with the machine
  (\<open>withNewTarget\<close> copies the struct, not the events), so it is a place in the machine and a
  target.
\<close>

datatype place = InitialPlace | StatePlace string nat

record found =
  f_place :: place
  f_Target :: string

definition transitionAt :: "Machine \<Rightarrow> place \<Rightarrow> Transition option" where
  "transitionAt m p =
     (case p of
        InitialPlace \<Rightarrow> m_Initial m
      | StatePlace s i \<Rightarrow>
          (case stateOf m s of
             None \<Rightarrow> None
           | Some st \<Rightarrow> if i < length (s_Transitions st) then Some (s_Transitions st ! i) else None))"

text \<open>Writes the events of a transition back to its place.\<close>

definition setSends :: "place \<Rightarrow> Event list \<Rightarrow> Machine \<Rightarrow> Machine" where
  "setSends p es m =
     (case p of
        InitialPlace \<Rightarrow> m\<lparr>m_Initial := map_option (\<lambda>t. t\<lparr>t_Sends := es\<rparr>) (m_Initial m)\<rparr>
      | StatePlace s i \<Rightarrow> m\<lparr>m_States := alist_update s
          (\<lambda>st. st\<lparr>s_Transitions := (s_Transitions st)
             [i := (s_Transitions st ! i)\<lparr>t_Sends := es\<rparr>]\<rparr>) (m_States m)\<rparr>)"

end
