(* ===== verification/Fsm_Filter.thy ===== *)
theory Fsm_Filter
  imports Fsm_Types
begin

text \<open>
  Links in texts of a machine file (\<open>filterLink\<close>, \<open>filterEnvs\<close> and \<open>filterFilelink\<close> of
  \<open>agency/fsm/fsm.go\<close>, \<open>Event.filterEnvs\<close> of \<open>event.go\<close>): \<open>${NAME}\<close> stands for an environment
  variable or for the content of a file.
\<close>

subsection \<open>The substitution\<close>

text \<open>
  The loop over the pieces of \<open>strings.Split(in, keyword+"{")\<close>: \<open>n\<close> is the number of pieces, \<open>i\<close>
  the index of the next one, \<open>o\<close> the output so far. In the last piece the code continues with
  \<open>s2[i:]\<close>, where \<open>i\<close> is the index of the piece and not of the part after the name.
\<close>

fun filterLink_loop ::
  "(string \<Rightarrow> string) \<Rightarrow> string \<Rightarrow> nat \<Rightarrow> nat \<Rightarrow> string list \<Rightarrow> string \<Rightarrow> string go" where
  "filterLink_loop getter inp n i [] out = Inr out"
| "filterLink_loop getter inp n i (sub # subs) out =
     (if hasPrefix inp sub then filterLink_loop getter inp n (Suc i) subs (out @ sub)
      else
        (let s2 = strings_Split sub ''}'';
             e = (if length s2 > 1 then getter (hd s2) else [])
         in if e = [] then Inr inp
            else if i = n - 1
              then bindG (slice_from i s2) (\<lambda>rest. Inr (out @ e @ join ''}'' rest))
              else filterLink_loop getter inp n (Suc i) subs (out @ e)))"

definition filterLink :: "string \<Rightarrow> string \<Rightarrow> (string \<Rightarrow> string) \<Rightarrow> string go" where
  "filterLink inp keyword getter =
     (let s = strings_Split inp (keyword @ ''{'') in filterLink_loop getter inp (length s) 0 s [])"

definition filterEnvs :: "env \<Rightarrow> string \<Rightarrow> string go" where
  "filterEnvs env inp = filterLink inp ''$'' (getenv env)"

text \<open>The getter of file links recovers the error of \<open>os.ReadFile\<close> and returns the empty string.\<close>

definition filterFilelink :: "env \<Rightarrow> string \<Rightarrow> string go" where
  "filterFilelink env inp =
     filterLink inp ''$'' (\<lambda>k. case readFile env k of None \<Rightarrow> [] | Some s \<Rightarrow> s)"

definition Event_filterEnvs :: "env \<Rightarrow> Event \<Rightarrow> Event go" where
  "Event_filterEnvs env e =
     (if e_ProtocolType e = Protocol_ISSUE_CREDENTIAL then
        bindG (case e_EventData e of
                 None \<Rightarrow> Inr None
               | Some d \<Rightarrow> (case ed_Issuing d of
                   None \<Rightarrow> Inr (Some d)
                 | Some iss \<Rightarrow> bindG (filterEnvs env (is_CredDefID iss)) (\<lambda>c.
                     Inr (Some (d\<lparr>ed_Issuing := Some (iss\<lparr>is_CredDefID := c\<rparr>)\<rparr>))))) (\<lambda>ed.
        bindG (filterEnvs env (e_Data e)) (\<lambda>dt.
        Inr (e\<lparr>e_EventData := ed, e_Data := dt\<rparr>)))
      else if e_ProtocolType e = Protocol_PRESENT_PROOF then
        bindG (case e_EventData e of
                 None \<Rightarrow> Inr None
               | Some d \<Rightarrow> (case ed_Proof d of
                   None \<Rightarrow> Inr (Some d)
                 | Some pj \<Rightarrow> bindG (filterEnvs env pj) (\<lambda>c.
                     Inr (Some (d\<lparr>ed_Proof := Some c\<rparr>))))) (\<lambda>ed.
        bindG (filterEnvs env (e_Data e)) (\<lambda>dt.
        Inr (e\<lparr>e_EventData := ed, e_Data := dt\<rparr>)))
      else Inr e)"

subsection \<open>How a text splits\<close>

lemma splitAux_append:
  assumes "sep = c # cs" "c \<notin> set pre"
  shows "splitAux sep acc (pre @ sep @ rest) = (rev acc @ pre) # splitAux sep [] rest"
  using assms(2)
proof (induction pre arbitrary: acc)
  case Nil
  have "sep @ rest = c # (cs @ rest)" by (simp add: assms(1))
  then show ?case by (simp add: assms(1))
next
  case (Cons x pre)
  then have "\<not> prefix sep (x # pre @ sep @ rest)" by (auto simp: assms(1))
  with Cons show ?case by simp
qed

lemma split_append:
  "sep = c # cs \<Longrightarrow> c \<notin> set pre \<Longrightarrow> strings_Split (pre @ sep @ rest) sep = pre # strings_Split rest sep"
  unfolding strings_Split_def using splitAux_append [of sep c cs pre "[]" rest] by simp

lemma split_notin: "sep = c # cs \<Longrightarrow> c \<notin> set s \<Longrightarrow> strings_Split s sep = [s]"
proof (rule split_no_sep)
  assume "sep = c # cs" "c \<notin> set s"
  then show "\<not> contains s sep"
    by (auto simp: contains_def dest: set_mono_sublist)
qed

lemma split_brace: "CHR ''}'' \<notin> set k \<Longrightarrow> strings_Split (k @ ''}'' @ post) ''}'' = k # strings_Split post ''}''"
  by (rule split_append) auto

lemma split_not_Nil [simp]: "strings_Split s sep \<noteq> []"
  by (simp add: strings_Split_def)

lemma not_hasPrefix_link [simp]:
  "CHR ''$'' \<notin> set k \<Longrightarrow> \<not> hasPrefix (CHR ''$'' # s) (k @ CHR ''}'' # post)"
  by (cases k) (auto simp: hasPrefix_def)

text \<open>One piece of the loop that is a link, in the middle and at the end of the text.\<close>

lemma filterLink_loop_link:
  assumes "\<not> hasPrefix inp (k @ ''}'' @ post)" "CHR ''}'' \<notin> set k" "getter k \<noteq> []" "i \<noteq> n - 1"
  shows "filterLink_loop getter inp n i ((k @ ''}'' @ post) # subs) out =
    filterLink_loop getter inp n (Suc i) subs (out @ getter k)"
  using assms by (simp add: split_brace [simplified] Let_def)

lemma filterLink_loop_last:
  assumes "\<not> hasPrefix inp (k @ ''}'' @ post)" "CHR ''}'' \<notin> set k" "getter k \<noteq> []"
  shows "filterLink_loop getter inp (Suc i) i ((k @ ''}'' @ post) # subs) out =
    bindG (slice_from i (k # strings_Split post ''}'')) (\<lambda>rest. Inr (out @ getter k @ join ''}'' rest))"
  using assms by (simp add: split_brace [simplified] Let_def)

lemma filterLink_split:
  "strings_Split inp ''${'' = s \<Longrightarrow> length s = n \<Longrightarrow>
   filterLink inp ''$'' getter = filterLink_loop getter inp n 0 s []"
  by (simp add: filterLink_def Let_def)

subsection \<open>What the substitution does\<close>

text \<open>A text without a link is returned as it is.\<close>

lemma filterLink_no_link:
  "\<not> contains inp (keyword @ ''{'') \<Longrightarrow> filterLink inp keyword getter = Inr inp"
  by (simp add: filterLink_def split_no_sep hasPrefix_def)

text \<open>One link is replaced and the text around it is kept.\<close>

lemma filterLink_one_link:
  assumes "CHR ''$'' \<notin> set pre" "CHR ''$'' \<notin> set k" "CHR ''$'' \<notin> set post"
    and "CHR ''}'' \<notin> set k" "getter k \<noteq> []"
    and "\<not> prefix (k @ ''}'' @ post) (pre @ ''${'' @ k @ ''}'' @ post)"
  shows "filterLink (pre @ ''${'' @ k @ ''}'' @ post) ''$'' getter = Inr (pre @ getter k @ post)"
proof -
  let ?inp = "pre @ ''${'' @ k @ ''}'' @ post"
  have "strings_Split (k @ ''}'' @ post) ''${'' = [k @ ''}'' @ post]"
    by (rule split_notin) (use assms in auto)
  then have s: "strings_Split ?inp ''${'' = [pre, k @ ''}'' @ post]"
    using split_append [of "''${''" "CHR ''$''" "''{''" pre "k @ ''}'' @ post"] assms(1) by simp
  have p0: "filterLink_loop getter ?inp 2 0 [pre, k @ ''}'' @ post] [] =
      filterLink_loop getter ?inp (Suc 1) 1 [k @ ''}'' @ post] pre"
    by (simp only: filterLink_loop.simps hasPrefix_append if_True append_Nil numeral_2_eq_2 One_nat_def)
  also have "\<dots> = bindG (slice_from 1 (k # strings_Split post ''}''))
      (\<lambda>rest. Inr (pre @ getter k @ join ''}'' rest))"
    by (rule filterLink_loop_last) (use assms in \<open>auto simp: hasPrefix_def\<close>)
  also have "\<dots> = Inr (pre @ getter k @ post)"
    by (simp add: slice_from_def join_split)
  finally show ?thesis
    using filterLink_split [OF s, of 2] by (simp only: list.size)
qed

text \<open>
  Two links: what stands between them is dropped, and so is the first part of what follows the
  second one. Three links and no second brace after the last name: the slice expression is out of
  range and the function panics.
\<close>

lemma split_links3:
  assumes "CHR ''$'' \<notin> set a" "CHR ''$'' \<notin> set b" "CHR ''$'' \<notin> set c"
  shows "strings_Split (''${'' @ a @ ''${'' @ b @ ''${'' @ c) ''${'' = [[], a, b, c]"
proof -
  have "strings_Split c ''${'' = [c]" by (rule split_notin) (use assms in auto)
  moreover have "strings_Split (b @ ''${'' @ c) ''${'' = b # strings_Split c ''${''"
    by (rule split_append) (use assms in auto)
  moreover have "strings_Split (a @ ''${'' @ b @ ''${'' @ c) ''${'' = a # strings_Split (b @ ''${'' @ c) ''${''"
    by (rule split_append) (use assms in auto)
  moreover have "strings_Split ([] @ ''${'' @ a @ ''${'' @ b @ ''${'' @ c) ''${'' =
      [] # strings_Split (a @ ''${'' @ b @ ''${'' @ c) ''${''"
    by (rule split_append) auto
  ultimately show ?thesis by simp
qed

lemma split_links2:
  assumes "CHR ''$'' \<notin> set a" "CHR ''$'' \<notin> set b"
  shows "strings_Split (''${'' @ a @ ''${'' @ b) ''${'' = [[], a, b]"
proof -
  have "strings_Split b ''${'' = [b]" by (rule split_notin) (use assms in auto)
  moreover have "strings_Split (a @ ''${'' @ b) ''${'' = a # strings_Split b ''${''"
    by (rule split_append) (use assms in auto)
  moreover have "strings_Split ([] @ ''${'' @ a @ ''${'' @ b) ''${'' = [] # strings_Split (a @ ''${'' @ b) ''${''"
    by (rule split_append) auto
  ultimately show ?thesis by simp
qed

lemma filterLink_two_links:
  assumes "CHR ''$'' \<notin> set (k1 @ mid @ k2 @ post)" "CHR ''}'' \<notin> set (k1 @ k2 @ post)"
    and "getter k1 \<noteq> []" "getter k2 \<noteq> []"
  shows "filterLink (''${'' @ (k1 @ ''}'' @ mid) @ ''${'' @ (k2 @ ''}'' @ post)) ''$'' getter =
    Inr (getter k1 @ getter k2)"
proof -
  let ?inp = "''${'' @ (k1 @ ''}'' @ mid) @ ''${'' @ (k2 @ ''}'' @ post)"
  have s: "strings_Split ?inp ''${'' = [[], k1 @ ''}'' @ mid, k2 @ ''}'' @ post]"
    by (rule split_links2) (use assms in auto)
  have np: "\<not> hasPrefix ?inp (k1 @ ''}'' @ mid)" "\<not> hasPrefix ?inp (k2 @ ''}'' @ post)"
    using assms by simp_all
  have "filterLink_loop getter ?inp 3 0 [[], k1 @ ''}'' @ mid, k2 @ ''}'' @ post] [] =
      filterLink_loop getter ?inp 3 1 [k1 @ ''}'' @ mid, k2 @ ''}'' @ post] []"
    by (simp add: hasPrefix_def)
  also have "\<dots> = filterLink_loop getter ?inp 3 (Suc 1) [k2 @ ''}'' @ post] ([] @ getter k1)"
    by (rule filterLink_loop_link) (use np assms in auto)
  also have "\<dots> = bindG (slice_from 2 (k2 # strings_Split post ''}''))
      (\<lambda>rest. Inr (([] @ getter k1) @ getter k2 @ join ''}'' rest))"
    using filterLink_loop_last [of ?inp k2 post getter 2] np assms
    by (simp add: numeral_3_eq_3 numeral_2_eq_2)
  also have "strings_Split post ''}'' = [post]"
    by (rule split_notin) (use assms in auto)
  finally show ?thesis
    using filterLink_split [OF s, of 3] by (simp only: list.size) (simp add: slice_from_def join_def)
qed

lemma filterLink_three_links_panic:
  assumes "CHR ''$'' \<notin> set (k1 @ mid1 @ k2 @ mid2 @ k3 @ post)"
    and "CHR ''}'' \<notin> set (k1 @ k2 @ k3 @ post)"
    and "getter k1 \<noteq> []" "getter k2 \<noteq> []" "getter k3 \<noteq> []"
  shows "filterLink (''${'' @ (k1 @ ''}'' @ mid1) @ ''${'' @ (k2 @ ''}'' @ mid2) @
      ''${'' @ (k3 @ ''}'' @ post)) ''$'' getter = Inl SliceBounds"
proof -
  let ?inp = "''${'' @ (k1 @ ''}'' @ mid1) @ ''${'' @ (k2 @ ''}'' @ mid2) @
      ''${'' @ (k3 @ ''}'' @ post)"
  have s: "strings_Split ?inp ''${'' = [[], k1 @ ''}'' @ mid1, k2 @ ''}'' @ mid2, k3 @ ''}'' @ post]"
    by (rule split_links3) (use assms in auto)
  have np: "\<not> hasPrefix ?inp (k1 @ ''}'' @ mid1)" "\<not> hasPrefix ?inp (k2 @ ''}'' @ mid2)"
      "\<not> hasPrefix ?inp (k3 @ ''}'' @ post)"
    using assms by simp_all
  have "filterLink_loop getter ?inp 4 0
        [[], k1 @ ''}'' @ mid1, k2 @ ''}'' @ mid2, k3 @ ''}'' @ post] [] =
      filterLink_loop getter ?inp 4 1 [k1 @ ''}'' @ mid1, k2 @ ''}'' @ mid2, k3 @ ''}'' @ post] []"
    by (simp add: hasPrefix_def)
  also have "\<dots> = filterLink_loop getter ?inp 4 (Suc 1) [k2 @ ''}'' @ mid2, k3 @ ''}'' @ post]
      ([] @ getter k1)"
    by (rule filterLink_loop_link) (use np assms in auto)
  also have "\<dots> = filterLink_loop getter ?inp 4 (Suc (Suc 1)) [k3 @ ''}'' @ post]
      (([] @ getter k1) @ getter k2)"
    by (rule filterLink_loop_link) (use np assms in auto)
  also have "\<dots> = bindG (slice_from 3 (k3 # strings_Split post ''}''))
      (\<lambda>rest. Inr ((([] @ getter k1) @ getter k2) @ getter k3 @ join ''}'' rest))"
    using filterLink_loop_last [of ?inp k3 post getter 3] np assms
    by (simp add: numeral_3_eq_3 eval_nat_numeral)
  also have "strings_Split post ''}'' = [post]"
    by (rule split_notin) (use assms in auto)
  finally show ?thesis
    using filterLink_split [OF s, of 4] by (simp only: list.size) (simp add: slice_from_def)
qed

end
