(* ===== verification/Fsm_Event.thy ===== *)
theory Fsm_Event
  imports Fsm_Filter
begin

text \<open>
  Events as triggers (\<open>agency/fsm/event.go\<close>) and the registers a Lua script uses
  (\<open>registerMemFuncs\<close> of \<open>machine.go\<close>). An event that checks whether it triggers may write to the
  memory of its machine, also when the answer is no, so every function returns the machine.
\<close>

subsection \<open>Registers\<close>

definition register :: "Machine \<Rightarrow> string \<Rightarrow> memory" where
  "register m name = (if name = REG_MEMORY then m_Memory m else m_Memory m)"

text \<open>\<open>getRegValue\<close> pushes the value, or returns nothing when an assertion fails; \<open>None\<close> stands for
  an argument that is not a string.\<close>

definition getRegValue :: "Machine \<Rightarrow> string option \<Rightarrow> string option \<Rightarrow> string option" where
  "getRegValue m r k =
     (case r of None \<Rightarrow> None
      | Some r' \<Rightarrow> (case k of None \<Rightarrow> None | Some k' \<Rightarrow> register m r' k'))"

definition setRegValue :: "Machine \<Rightarrow> string option \<Rightarrow> string option \<Rightarrow> string option \<Rightarrow> Machine" where
  "setRegValue m r k v =
     (case r of None \<Rightarrow> m
      | Some r' \<Rightarrow> (case k of None \<Rightarrow> m
        | Some k' \<Rightarrow> (case v of None \<Rightarrow> m
          | Some v' \<Rightarrow> m\<lparr>m_Memory := (register m r')(k' \<mapsto> v')\<rparr>)))"

fun runLuaCalls :: "lua_call list \<Rightarrow> Machine \<Rightarrow> Machine" where
  "runLuaCalls [] m = m"
| "runLuaCalls (LuaSet r k v # cs) m = runLuaCalls cs (setRegValue m r k v)"

text \<open>\<open>lua.DoString\<close> on the machine's interpreter; a nil interpreter is a nil pointer panic.\<close>

definition DoString :: "env \<Rightarrow> string \<Rightarrow> Machine \<Rightarrow> bool \<times> Machine" where
  "DoString env script m =
     (case m_luaState m of
        None \<Rightarrow> (False, m)
      | Some h \<Rightarrow>
          (let (calls, ok) = luaDo env h script (m_Memory m)
           in (ok, (runLuaCalls calls m)\<lparr>m_luaState := Some (h @ [(script, m_Memory m)])\<rparr>)))"

subsection \<open>Running a script for an event\<close>

text \<open>
  \<open>ExecLua\<close> recovers every panic and then returns \<open>ok = False\<close> with the results it has set. The
  optional argument is the output that counts as success.
\<close>

definition ExecLua ::
  "env \<Rightarrow> Event \<Rightarrow> string \<Rightarrow> string list \<Rightarrow> Machine \<Rightarrow> (string \<times> string \<times> bool) \<times> Machine" where
  "ExecLua env e content a m =
     (let okStr = (case a of [] \<Rightarrow> LUA_OK | x # _ \<Rightarrow> x);
          m1 = m\<lparr>m_Memory := (m_Memory m)(LUA_INPUT \<mapsto> content)\<rparr>
      in case filterFilelink env (e_Data e) of
           Inl _ \<Rightarrow> (([], [], False), m1)
         | Inr luaScript \<Rightarrow>
             (let (ran, m2) = DoString env luaScript m1
              in if \<not> ran then (([], [], False), m2)
                 else
                   (let out = mget (m_Memory m2) LUA_OUTPUT;
                        ok = (LUA_OUTPUT \<in> dom (m_Memory m2));
                        tgt = mget (m_Memory m2) LUA_TARGET
                    in if \<not> ok \<and> LUA_ERROR \<notin> dom (m_Memory m2) then ((out, [], False), m2)
                       else if okStr = LUA_ALL_OK then ((out, tgt, True), m2)
                       else ((out, tgt, ok \<and> out = okStr), m2))))"

subsection \<open>Triggers\<close>

definition copyBackendDataValuesToMemory :: "BackendData \<Rightarrow> Machine \<Rightarrow> Machine" where
  "copyBackendDataValuesToMemory data m =
     (let mem1 = (if bd_ConnID data \<noteq> [] then (m_Memory m)(LUA_CONN_ID \<mapsto> bd_ConnID data)
                  else m_Memory m);
          mem2 = (if bd_Subject data \<noteq> [] then mem1(LUA_SUBJECT \<mapsto> bd_Subject data) else mem1);
          mem3 = (if bd_SessionID data \<noteq> [] then mem2(LUA_SESSION_ID \<mapsto> bd_SessionID data) else mem2)
      in m\<lparr>m_Memory := mem3\<rparr>)"

definition Event_TriggersByBackendData ::
  "env \<Rightarrow> Event \<Rightarrow> BackendData option \<Rightarrow> Machine \<Rightarrow> (bool \<times> string) \<times> Machine" where
  "Event_TriggersByBackendData env e data m =
     (case data of
        None \<Rightarrow> ((True, []), m)
      | Some d \<Rightarrow>
          (let m1 = copyBackendDataValuesToMemory d m;
               content = bd_Content d
           in if e_Rule e = TriggerTypeValidateInputNotEqual then
                ((mget (m_Memory m1) (e_Data e) \<noteq> content, []), m1)
              else if e_Rule e = TriggerTypeValidateInputEqual then
                ((mget (m_Memory m1) (e_Data e) = content, []), m1)
              else if e_Rule e = TriggerTypeInputEqual then
                ((content = e_Data e, []), m1)
              else if e_Rule e \<in> {TriggerTypeData, TriggerTypeUseInput, TriggerTypeUseInputSave,
                  TriggerTypeUseInputSaveConnID, TriggerTypeUseInputSaveSessionID} then
                ((True, []), m1)
              else if e_Rule e = TriggerTypeLua then
                (let (res, m2) = ExecLua env e content [] m1 in ((snd (snd res), fst (snd res)), m2))
              else ((False, []), m1)))"

definition Event_TriggersByHook :: "Event \<Rightarrow> bool" where
  "Event_TriggersByHook e = True"

definition Event_Triggers ::
  "env \<Rightarrow> Event \<Rightarrow> ProtocolStatus option \<Rightarrow> Machine \<Rightarrow> ((bool \<times> string) \<times> Machine) go" where
  "Event_Triggers env e status m =
     (if status = None then Inr ((True, []), m)
      else
        bindG (statusTypeID status) (\<lambda>ty.
        if ty \<in> {Protocol_ISSUE_CREDENTIAL, Protocol_DIDEXCHANGE, Protocol_PRESENT_PROOF} then
          Inr ((True, []), m)
        else if ty = Protocol_BASIC_MESSAGE then
          bindG (deref (GetBasicMessage status)) (\<lambda>content.
          Inr (if e_Rule e = TriggerTypeValidateInputNotEqual then
                 ((mget (m_Memory m) (e_Data e) \<noteq> content, []), m)
               else if e_Rule e = TriggerTypeValidateInputEqual then
                 ((mget (m_Memory m) (e_Data e) = content, []), m)
               else if e_Rule e = TriggerTypeInputEqual then
                 ((content = e_Data e, []), m)
               else if e_Rule e \<in> {TriggerTypeData, TriggerTypeUseInput, TriggerTypeUseInputSave,
                   TriggerTypeTransient, TriggerTypeUseInputSaveConnID,
                   TriggerTypeUseInputSaveSessionID} then
                 ((True, []), m)
               else if e_Rule e = TriggerTypeLua then
                 (let (res, m2) = ExecLua env e content [] m in ((snd (snd res), fst (snd res)), m2))
               else ((False, []), m)))
        else Inr ((False, []), m)))"

subsection \<open>Answers to questions\<close>

text \<open>The loops over the presented attributes. \<open>found\<close> is not a field of the JSON text, so it is
  false when the loop starts.\<close>

definition markFound :: "Attribute list \<Rightarrow> ProofAttr list \<Rightarrow> ProofAttr list" where
  "markFound attrs vals =
     foldl (\<lambda>vs attr. map (\<lambda>v. if pa_Name v = at_Name attr \<and> pa_CredDefID v = at_CredDefID attr
        then v\<lparr>pa_found := True\<rparr> else v) vs) vals attrs"

fun acceptAttr :: "Attribute \<Rightarrow> ProofAttr list \<Rightarrow> nat \<times> memory \<Rightarrow> nat \<times> memory" where
  "acceptAttr attr [] (count, mem) = (count, mem)"
| "acceptAttr attr (value # vs) (count, mem) =
     acceptAttr attr vs
       (if pa_Name value = at_Name attr then (Suc count, mem(pa_Name value \<mapsto> at_Value attr))
        else (count, mem))"

fun acceptAttrs :: "Attribute list \<Rightarrow> ProofAttr list \<Rightarrow> nat \<times> memory \<Rightarrow> nat \<times> memory" where
  "acceptAttrs [] vals cm = cm"
| "acceptAttrs (attr # attrs) vals cm = acceptAttrs attrs vals (acceptAttr attr vals cm)"

definition Event_Answers :: "env \<Rightarrow> Event \<Rightarrow> Question \<Rightarrow> Machine \<Rightarrow> (bool \<times> Machine) go" where
  "Event_Answers env e q m =
     (if q_TypeID q = Question_PROOF_VERIFY_WAITS then
        bindG (assertG (e_ProtocolType e = Protocol_PRESENT_PROOF)) (\<lambda>_.
        bindG (case unmarshalProofAttrs env (e_Data e) of None \<Rightarrow> Inl ErrThrown | Some vs \<Rightarrow> Inr vs)
          (\<lambda>vs. let attrValues = map (\<lambda>v. v\<lparr>pa_found := False\<rparr>) vs in
          if e_Rule e = TriggerTypeNotAcceptValues then
            bindG (deref (q_ProofVerify q)) (\<lambda>attrs.
            if length attrValues \<noteq> length attrs then Inr (True, m)
            else Inr (list_ex (\<lambda>v. \<not> pa_found v) (markFound attrs attrValues), m))
          else if e_Rule e = TriggerTypeAcceptAndInputValues then
            bindG (deref (q_ProofVerify q)) (\<lambda>attrs.
            let (count, mem) = acceptAttrs attrs attrValues (0, m_Memory m)
            in Inr (count = length attrs, m\<lparr>m_Memory := mem\<rparr>))
          else Inr (False, m)))
      else Inr (False, m))"

subsection \<open>What a trigger may change\<close>

text \<open>
  \<open>memory_step m m'\<close>: the two machines differ at most in the memory and in the interpreter's
  history. \<open>memory_grows\<close> adds that no register is removed.
\<close>

definition memory_step :: "Machine \<Rightarrow> Machine \<Rightarrow> bool" where
  "memory_step m m' \<longleftrightarrow> m' = m\<lparr>m_Memory := m_Memory m', m_luaState := m_luaState m'\<rparr>"

definition memory_grows :: "Machine \<Rightarrow> Machine \<Rightarrow> bool" where
  "memory_grows m m' \<longleftrightarrow> memory_step m m' \<and> dom (m_Memory m) \<subseteq> dom (m_Memory m')"

named_theorems frame \<open>introduction rules for the frame predicates\<close>

lemma memory_stepD:
  "memory_step m m' \<Longrightarrow> m_Type m' = m_Type m \<and> m_Initial m' = m_Initial m \<and>
     m_States m' = m_States m \<and> m_Current m' = m_Current m \<and> m_ConnID m' = m_ConnID m \<and>
     m_termChan m' = m_termChan m \<and> m_KeepMemory m' = m_KeepMemory m \<and>
     m_KeepMemoryReported m' = m_KeepMemoryReported m \<and> m_Initialized m' = m_Initialized m \<and>
     m_rndDraws m' = m_rndDraws m \<and> m_Name m' = m_Name m"
  by (cases m; cases m') (simp add: memory_step_def)

lemma memory_step_refl [simp, frame]: "memory_step m m"
  by (simp add: memory_step_def)

lemma memory_step_upd [frame]: "memory_step m (m\<lparr>m_Memory := mem\<rparr>)"
  by (simp add: memory_step_def)

lemma memory_step_lua [frame]: "memory_step m m' \<Longrightarrow> memory_step m (m'\<lparr>m_luaState := h\<rparr>)"
  by (cases m, cases m') (auto simp: memory_step_def)

lemma memory_step_trans: "memory_step a b \<Longrightarrow> memory_step b c \<Longrightarrow> memory_step a c"
  by (cases a, cases b, cases c) (auto simp: memory_step_def)

lemma memory_grows_refl [simp, frame]: "memory_grows m m"
  by (simp add: memory_grows_def memory_step_refl)

lemma memory_grows_upd [frame]:
  "dom (m_Memory m) \<subseteq> dom mem \<Longrightarrow> memory_grows m (m\<lparr>m_Memory := mem\<rparr>)"
  by (simp add: memory_grows_def memory_step_upd)

lemma memory_grows_lua [frame]: "memory_grows m m' \<Longrightarrow> memory_grows m (m'\<lparr>m_luaState := h\<rparr>)"
  by (simp add: memory_grows_def memory_step_lua)

lemma memory_grows_trans: "memory_grows a b \<Longrightarrow> memory_grows b c \<Longrightarrow> memory_grows a c"
  by (auto simp: memory_grows_def intro: memory_step_trans)

lemma memory_grows_step: "memory_grows m m' \<Longrightarrow> memory_step m m'"
  by (simp add: memory_grows_def)

lemma setRegValue_grows [frame]: "memory_grows m (setRegValue m r k v)"
  by (auto simp: setRegValue_def register_def split: option.split intro!: frame)

lemma runLuaCalls_grows [frame]: "memory_grows m (runLuaCalls cs m)"
proof (induction cs arbitrary: m)
  case Nil
  show ?case by (simp add: frame)
next
  case (Cons c cs)
  show ?case
    by (cases c) (auto intro: memory_grows_trans [OF setRegValue_grows Cons.IH])
qed

lemma DoString_grows [frame]: "memory_grows m (snd (DoString env script m))"
  by (auto simp: DoString_def split: option.split prod.split intro!: frame)

lemma ExecLua_grows [frame]: "memory_grows m (snd (ExecLua env e content a m))"
proof -
  let ?m1 = "m\<lparr>m_Memory := (m_Memory m)(LUA_INPUT \<mapsto> content)\<rparr>"
  have m1: "memory_grows m ?m1" by (rule memory_grows_upd) auto
  have "memory_grows m (snd (DoString env s ?m1))" for s
    by (rule memory_grows_trans [OF m1 DoString_grows])
  with m1 show ?thesis
    by (simp add: ExecLua_def Let_def split_def split: sum.split)
qed

lemma copyBackendData_grows [frame]: "memory_grows m (copyBackendDataValuesToMemory d m)"
  unfolding copyBackendDataValuesToMemory_def Let_def by (rule memory_grows_upd) auto

lemma Event_TriggersByBackendData_grows [frame]:
  "memory_grows m (snd (Event_TriggersByBackendData env e d m))"
proof (cases d)
  case None
  then show ?thesis by (simp add: Event_TriggersByBackendData_def frame)
next
  case (Some bd)
  have "memory_grows m (snd (ExecLua env e c a (copyBackendDataValuesToMemory bd m)))" for c a
    by (rule memory_grows_trans [OF copyBackendData_grows ExecLua_grows])
  then show ?thesis
    using copyBackendData_grows [of m bd]
    by (simp add: Event_TriggersByBackendData_def Some Let_def split_def)
qed

lemma Event_Triggers_grows:
  assumes "Event_Triggers env e status m = Inr (r, m')"
  shows "memory_grows m m'"
proof -
  have "m' = m \<or> (\<exists>c. m' = snd (ExecLua env e c [] m))"
    using assms
    by (fastforce simp: Event_Triggers_def Let_def split_def split: if_splits)
  then show ?thesis by (auto simp: frame)
qed

lemma acceptAttr_dom: "dom (snd cm) \<subseteq> dom (snd (acceptAttr attr vals cm))"
proof (induction attr vals cm rule: acceptAttr.induct)
  case (1 attr count mem)
  show ?case by simp
next
  case (2 attr v vs count mem)
  have "dom mem \<subseteq> dom (snd (if pa_Name v = at_Name attr
      then (Suc count, mem(pa_Name v \<mapsto> at_Value attr)) else (count, mem)))"
    by auto
  also note "2.IH"
  finally show ?case by simp
qed

lemma acceptAttrs_dom: "dom (snd cm) \<subseteq> dom (snd (acceptAttrs attrs vals cm))"
proof (induction attrs vals cm rule: acceptAttrs.induct)
  case (2 attr attrs vals cm)
  with acceptAttr_dom [of cm attr vals] show ?case by simp
qed simp

lemma acceptAttrs_grows [frame]:
  "memory_grows m (m\<lparr>m_Memory := snd (acceptAttrs attrs vals (c, m_Memory m))\<rparr>)"
  using acceptAttrs_dom [of "(c, m_Memory m)" attrs vals] by (simp add: memory_grows_upd)

lemma Event_Answers_grows:
  assumes "Event_Answers env e q m = Inr (b, m')"
  shows "memory_grows m m'"
proof (cases "q_TypeID q = Question_PROOF_VERIFY_WAITS")
  case False
  with assms show ?thesis by (simp add: Event_Answers_def)
next
  case True
  note Q = assms [unfolded Event_Answers_def Let_def split_def, simplified True, simplified]
  show ?thesis
  proof (cases "e_Rule e = TriggerTypeNotAcceptValues")
    case True
    with Q show ?thesis by (auto split: if_split_asm)
  next
    case False
    show ?thesis
    proof (cases "e_Rule e = TriggerTypeAcceptAndInputValues")
      case True
      with Q False show ?thesis by (auto intro: acceptAttrs_grows)
    next
      case False
      with Q \<open>e_Rule e \<noteq> TriggerTypeNotAcceptValues\<close> show ?thesis by auto
    qed
  qed
qed

end
