(* ===== verification/Fsm_Transition.thy ===== *)
theory Fsm_Transition
  imports Fsm_Event
begin

text \<open>
  How a transition builds the events it sends (\<open>agency/fsm/transition.go\<close>). The events of a
  transition are pointers into the machine: building them overwrites their \<open>EventData\<close>, so a build
  returns the machine with the events written back to their place, and the next build starts from
  what the last one left. The cells behind \<open>EventData.Backend\<close> live in a heap of their own, since
  the chat bot hands their pointers to other goroutines.
\<close>

type_synonym bheap = "BackendData heap"

subsection \<open>Small steps\<close>

definition ed_basic :: "string \<Rightarrow> EventData" where
  "ed_basic content = EventData_zero\<lparr>ed_BasicMessage := Some content\<rparr>"

definition FmtFromMem :: "env \<Rightarrow> Machine \<Rightarrow> Event \<Rightarrow> string" where
  "FmtFromMem env m send =
     (case execTemplate env (e_Data send) (m_Memory m) of None \<Rightarrow> [] | Some s \<Rightarrow> s)"

definition pin :: "env \<Rightarrow> nat \<Rightarrow> nat \<Rightarrow> int" where
  "pin env draw d = (let lo = 10 ^ (d - 1); hi = 10 ^ d in lo + randIntn env draw (hi - lo))"

definition GenPIN :: "env \<Rightarrow> Machine \<Rightarrow> Machine" where
  "GenPIN env m = m\<lparr>m_Memory := (m_Memory m)
       (PIN_REGISTER \<mapsto> decimal (pin env (m_rndDraws m) digitsInPIN)),
     m_rndDraws := Suc (m_rndDraws m)\<rparr>"

definition withNewTarget :: "place \<Rightarrow> string \<Rightarrow> string \<Rightarrow> found" where
  "withNewTarget p target tgt = \<lparr>f_place = p, f_Target = (if tgt = [] then target else tgt)\<rparr>"

subsection \<open>Input events\<close>

definition buildInputEvent ::
  "Event option \<Rightarrow> ProtocolStatus option \<Rightarrow> Machine \<Rightarrow> (Event option \<times> Machine) go" where
  "buildInputEvent trigger status m =
     (if status = None then Inr (None, m)
      else
        bindG (statusTypeID status) (\<lambda>ty.
        let e = Event_zero\<lparr>e_Protocol := toFileProtocolType ty, e_ProtocolType := ty,
                  e_ProtocolStatus := status\<rparr>
        in if ty \<in> {Protocol_ISSUE_CREDENTIAL, Protocol_PRESENT_PROOF} then
             bindG (deref trigger) (\<lambda>_. Inr (Some e, m))
           else if ty = Protocol_DIDEXCHANGE then Inr (Some e, m)
           else if ty = Protocol_BASIC_MESSAGE then
             bindG (deref (GetBasicMessage status)) (\<lambda>content.
             bindG (deref trigger) (\<lambda>trg.
             Inr (if e_Rule trg \<in> {TriggerTypeValidateInputNotEqual, TriggerTypeValidateInputEqual,
                    TriggerTypeLua, TriggerTypeUseInput, TriggerTypeTransient} then
                    (Some (e\<lparr>e_Data := content, e_EventData := Some (ed_basic content)\<rparr>), m)
                  else if e_Rule trg = TriggerTypeUseInputSaveConnID then
                    (Some (e\<lparr>e_Data := content, e_EventData := Some (ed_basic content)\<rparr>),
                     m\<lparr>m_Memory := (m_Memory m)(m_ConnID m @ e_Data trg \<mapsto> content)\<rparr>)
                  else if e_Rule trg = TriggerTypeUseInputSaveSessionID then
                    (Some (e\<lparr>e_Data := content, e_EventData := Some (ed_basic content)\<rparr>),
                     m\<lparr>m_Memory := (m_Memory m)(LUA_SESSION_ID \<mapsto> content)\<rparr>)
                  else if e_Rule trg = TriggerTypeUseInputSave then
                    (Some (e\<lparr>e_Data := content, e_EventData := Some (ed_basic content)\<rparr>),
                     m\<lparr>m_Memory := (m_Memory m)(e_Data trg \<mapsto> content)\<rparr>)
                  else if e_Rule trg \<in> {TriggerTypeData, TriggerTypeInputEqual} then
                    (Some (e\<lparr>e_EventData := Some (ed_basic (e_Data trg))\<rparr>), m)
                  else (Some e, m))))
           else Inr (Some e, m)))"

definition buildInputAnswers :: "AgentStatus \<Rightarrow> Event" where
  "buildInputAnswers status =
     Event_zero\<lparr>e_Protocol := toFileProtocolType (n_ProtocolType (as_Notification status)),
       e_ProtocolType := n_ProtocolType (as_Notification status)\<rparr>"

subsection \<open>Building one event\<close>

definition buildTransientSend :: "Event \<Rightarrow> Event go" where
  "buildTransientSend send =
     (if e_Rule send = TriggerTypeTransient
      then Inr (send\<lparr>e_EventData := Some (ed_basic (e_Data send))\<rparr>)
      else Inl AssertFailed)"

definition hookData :: "Event \<Rightarrow> string \<Rightarrow> Event" where
  "hookData send dat = send\<lparr>e_EventData := Some (EventData_zero\<lparr>ed_Hook :=
     Some [(''ID'', e_TypeID send), (''data'', dat)]\<rparr>)\<rparr>"

definition inputContent :: "Event \<Rightarrow> string go" where
  "inputContent inp =
     bindG (deref (e_EventData inp)) (\<lambda>d. deref (ed_BasicMessage d))"

definition buildHookSend :: "env \<Rightarrow> Event option \<Rightarrow> Event \<Rightarrow> Machine \<Rightarrow> Event go" where
  "buildHookSend env input send m =
     (if e_Rule send = TriggerTypeData then Inr (hookData send (e_Data send))
      else if e_Rule send = TriggerTypeUseInput then
        bindG (deref input) (\<lambda>inp.
        bindG (if e_ProtocolType inp = Protocol_BASIC_MESSAGE then inputContent inp else Inr [])
          (\<lambda>dataStr. Inr (hookData send dataStr)))
      else if e_Rule send = TriggerTypeFormat then
        bindG (deref input) (\<lambda>inp.
        Inr (hookData send (sprintf env (e_Data send) (e_Data inp))))
      else if e_Rule send = TriggerTypeFormatFromMem then
        Inr (hookData send (FmtFromMem env m send))
      else Inr send)"

definition buildBMSend ::
  "env \<Rightarrow> Event option \<Rightarrow> Event \<Rightarrow> Machine \<Rightarrow> (Event \<times> Machine) go" where
  "buildBMSend env input send m =
     bindG (assertG (input \<noteq> None \<or> e_Rule send = TriggerTypeData \<or>
       e_Rule send = TriggerTypeFormatFromMem)) (\<lambda>_.
     if e_Rule send = TriggerTypeUseInput then
       bindG (deref input) (\<lambda>inp. Inr (send\<lparr>e_EventData := e_EventData inp\<rparr>, m))
     else if e_Rule send = TriggerTypeData then
       Inr (send\<lparr>e_EventData := Some (ed_basic (e_Data send))\<rparr>, m)
     else if e_Rule send = TriggerTypeFormat then
       bindG (deref input) (\<lambda>inp.
       Inr (send\<lparr>e_EventData := Some (ed_basic (sprintf env (e_Data send) (e_Data inp)))\<rparr>, m))
     else if e_Rule send = TriggerTypeFormatFromMem then
       Inr (send\<lparr>e_EventData := Some (ed_basic (FmtFromMem env m send))\<rparr>, m)
     else if e_Rule send = TriggerTypeLua then
       bindG (deref input) (\<lambda>inp.
       let (res, m') = ExecLua env send (e_Data inp) [LUA_ALL_OK] m
       in Inr (send\<lparr>e_EventData := Some (ed_basic
            (if snd (snd res) then fst res else e_Data inp))\<rparr>, m'))
     else Inr (send, m))"

text \<open>
  The message to the other kind of machine. The record of the send event is reused from build to
  build; the first build takes a new cell. \<open>backendContent\<close> is the switch over the rule.
\<close>

definition backendContent ::
  "env \<Rightarrow> Event \<Rightarrow> Event \<Rightarrow> Machine \<Rightarrow> bheap \<Rightarrow> (string \<times> Machine) go" where
  "backendContent env inp send m h =
     (if e_Rule send = TriggerTypeLua then
        (let (res, m') = ExecLua env send (e_Data inp) [LUA_ALL_OK] m
         in Inr (if snd (snd res) then fst res else e_Data inp, m'))
      else if e_Rule send = TriggerTypeData then Inr (e_Data send, m)
      else if e_Rule send = TriggerTypeUseInput then
        (if e_ProtocolType inp = Protocol_BASIC_MESSAGE then
           bindG (inputContent inp) (\<lambda>c. Inr (c, m))
         else if e_ProtocolType inp = BackendProtocol then
           bindG (deref (e_EventData inp)) (\<lambda>d.
           bindG (deref (ed_Backend d)) (\<lambda>p. Inr (bd_Content (cells h p), m)))
         else Inr ([], m))
      else if e_Rule send = TriggerTypeFormat then Inr (sprintf env (e_Data send) (e_Data inp), m)
      else if e_Rule send = TriggerTypeFormatFromMem then Inr (FmtFromMem env m send, m)
      else Inr ([], m))"

text \<open>The cell of the send event: its own one, or a new one.\<close>

definition sendCell :: "Event \<Rightarrow> bheap \<Rightarrow> (nat \<times> EventData) \<times> bheap" where
  "sendCell send h =
     (case e_EventData send of
        Some d \<Rightarrow> (case ed_Backend d of
            Some p \<Rightarrow> ((p, d), h)
          | None \<Rightarrow> (let (p, h') = hnew BackendData_zero h
                     in ((p, EventData_zero\<lparr>ed_Backend := Some p\<rparr>), h')))
      | None \<Rightarrow> (let (p, h') = hnew BackendData_zero h
                 in ((p, EventData_zero\<lparr>ed_Backend := Some p\<rparr>), h')))"

definition buildBackendSend ::
  "env \<Rightarrow> Event option \<Rightarrow> Event option \<Rightarrow> Event \<Rightarrow> Machine \<Rightarrow> bheap \<Rightarrow>
   (Event \<times> Machine \<times> bheap) go" where
  "buildBackendSend env trigger input send m h =
     bindG (deref input) (\<lambda>inp.
     bindG (deref (e_EventData inp)) (\<lambda>ind.
     let inb = map_option (cells h) (ed_Backend ind);
         inputEventSID = (case inb of None \<Rightarrow> [] | Some b \<Rightarrow> bd_SessionID b);
         connID1 = (case inb of None \<Rightarrow> [] | Some b \<Rightarrow> bd_ConnID b);
         noEcho1 = (case inb of None \<Rightarrow> False | Some b \<Rightarrow> bd_NoEcho b);
         noEcho = (if \<not> noEcho1 then e_NoEcho send else noEcho1);
         ((p, ed), h1) = sendCell send h;
         sendEventSID = bd_SessionID (cells h1 p);
         connID2 = (if connID1 = [] \<and> bd_ConnID (cells h1 p) \<noteq> [] then bd_ConnID (cells h1 p)
                    else connID1);
         sessionID1 = (if inputEventSID = [] then sendEventSID else [])
     in
     bindG (deref trigger) (\<lambda>_.
     let mustGet = (m_Type m = MachineTypeConversation \<or>
                    (m_Type m = MachineTypeBackend \<and> sessionID1 = []));
         sessionID = (if mustGet then mget (m_Memory m) LUA_SESSION_ID else sessionID1);
         connID = (if connID2 = [] then m_ConnID m else connID2)
     in
     bindG (assertG (connID \<noteq> [])) (\<lambda>_.
     bindG (backendContent env inp send m h1) (\<lambda>(content, m').
     Inr (send\<lparr>e_EventData := Some ed\<rparr>, m',
       hmod p (\<lambda>b. b\<lparr>bd_ConnID := connID, bd_Content := content, bd_SessionID := sessionID,
         bd_NoEcho := noEcho\<rparr>) h1))))))"

subsection \<open>Building all events of a transition\<close>

text \<open>One turn of the loop of \<open>doBuildSendEvents\<close>; \<open>None\<close> is the protocol that has no handler.\<close>

definition buildSend ::
  "env \<Rightarrow> Event option \<Rightarrow> Event option \<Rightarrow> Event \<Rightarrow> Machine \<Rightarrow> bheap \<Rightarrow>
   (Event option \<times> Machine \<times> bheap) go" where
  "buildSend env trigger input send m h =
     (if e_Protocol send = MessageIssueCred then
        (if e_Rule send = TriggerTypeFormatFromMem then
           bindG (deref (e_EventData send)) (\<lambda>d.
           bindG (deref (ed_Issuing d)) (\<lambda>iss.
           Inr (Some (send\<lparr>e_EventData := Some (EventData_zero\<lparr>ed_Issuing := Some
             \<lparr>is_CredDefID = is_CredDefID iss, is_AttrsJSON = FmtFromMem env m send\<rparr>\<rparr>)\<rparr>), m, h)))
         else Inr (Some send, m, h))
      else if e_Protocol send = MessagePresentProof then
        (if e_Rule send = TriggerTypeData then
           Inr (Some (send\<lparr>e_EventData := Some (EventData_zero\<lparr>ed_Proof := Some (e_Data send)\<rparr>)\<rparr>), m, h)
         else Inr (Some send, m, h))
      else if e_Protocol send = MessageAnswer then Inr (Some send, m, h)
      else if e_Protocol send = MessageEmail then
        (if e_Rule send = TriggerTypePIN then
           (let m1 = GenPIN env m;
                email = unmarshalEmail env (FmtFromMem env m1 send)
            in Inr (Some (send\<lparr>e_EventData := Some (EventData_zero\<lparr>ed_Email := Some email\<rparr>)\<rparr>), m1, h))
         else Inr (Some send, m, h))
      else if e_Protocol send = MessageBasicMessage then
        bindG (buildBMSend env input send m) (\<lambda>(send', m'). Inr (Some send', m', h))
      else if e_Protocol send = MessageHook then
        bindG (buildHookSend env input send m) (\<lambda>send'. Inr (Some send', m, h))
      else if e_Protocol send = MessageBackend then
        bindG (buildBackendSend env trigger input send m h)
          (\<lambda>(send', m', h'). Inr (Some send', m', h'))
      else if e_Protocol send = MessageTransient then
        bindG (buildTransientSend send) (\<lambda>send'. Inr (Some send', m, h))
      else Inr (None, m, h))"

text \<open>
  The loop. The result tells whether every event was built, and lists the events as they are in
  the machine afterwards: when a protocol has no handler the loop returns nil, and the events
  before it keep what was built.
\<close>

fun buildSends ::
  "env \<Rightarrow> Event option \<Rightarrow> Event option \<Rightarrow> Event list \<Rightarrow> Machine \<Rightarrow> bheap \<Rightarrow>
   (bool \<times> Event list \<times> Machine \<times> bheap) go" where
  "buildSends env trigger input [] m h = Inr (True, [], m, h)"
| "buildSends env trigger input (send # sends) m h =
     bindG (buildSend env trigger input send m h) (\<lambda>(r, m1, h1).
     case r of
       None \<Rightarrow> Inr (False, send # sends, m1, h1)
     | Some send' \<Rightarrow>
         bindG (buildSends env trigger input sends m1 h1) (\<lambda>(ok, sends', m2, h2).
         Inr (ok, send' # sends', m2, h2)))"

type_synonym built = "(Event list option \<times> Machine \<times> bheap) go"

definition doBuildSendEvents ::
  "env \<Rightarrow> place \<Rightarrow> Event option \<Rightarrow> Machine \<Rightarrow> bheap \<Rightarrow> built" where
  "doBuildSendEvents env p input m h =
     bindG (deref (transitionAt m p)) (\<lambda>t.
     bindG (buildSends env (t_Trigger t) input (t_Sends t) m h) (\<lambda>(ok, sends, m', h').
     Inr (if ok then Some sends else None, setSends p sends m', h')))"

subsection \<open>The five ways to start a build\<close>

definition triggerAt :: "Machine \<Rightarrow> place \<Rightarrow> Event option" where
  "triggerAt m p = (case transitionAt m p of None \<Rightarrow> None | Some t \<Rightarrow> t_Trigger t)"

definition BuildSendEventsFromBackendData ::
  "env \<Rightarrow> place \<Rightarrow> nat option \<Rightarrow> Machine \<Rightarrow> bheap \<Rightarrow> built" where
  "BuildSendEventsFromBackendData env p data m h =
     bindG (deref (triggerAt m p)) (\<lambda>trg.
     bindG (deref data) (\<lambda>dp.
     let d = cells h dp in
     bindG (if m_Type m = MachineTypeConversation then
              Inr (Event_zero\<lparr>e_Protocol := toFileProtocolType Protocol_BASIC_MESSAGE,
                e_ProtocolType := Protocol_BASIC_MESSAGE,
                e_EventData := Some (ed_basic (bd_Content d)), e_Data := bd_Content d\<rparr>)
            else if m_Type m = MachineTypeBackend then
              Inr (Event_zero\<lparr>e_Protocol := toFileProtocolType BackendProtocol,
                e_ProtocolType := BackendProtocol,
                e_EventData := Some (EventData_zero\<lparr>ed_Backend := Some dp\<rparr>),
                e_Data := bd_Content d\<rparr>)
            else Inl AssertFailed) (\<lambda>sendEvent.
     bindG (if e_Rule trg = TriggerTypeUseInputSaveSessionID then
              (let key = bd_ConnID d @ LUA_SESSION_ID;
                   sessionID = bd_Content d;
                   m1 = m\<lparr>m_Memory := (m_Memory m)(key \<mapsto> sessionID)\<rparr>
               in bindG (deref (e_EventData sendEvent)) (\<lambda>eData.
                  bindG (deref (ed_Backend eData)) (\<lambda>q.
                  Inr (m1, hmod q (\<lambda>b. b\<lparr>bd_SessionID := sessionID\<rparr>) h))))
            else if e_Rule trg = TriggerTypeUseInputSaveConnID then
              Inr (m\<lparr>m_Memory := (m_Memory m)(bd_ConnID d @ e_Data trg \<mapsto> bd_Content d)\<rparr>, h)
            else if e_Rule trg = TriggerTypeUseInputSave then
              Inr (m\<lparr>m_Memory := (m_Memory m)(e_Data trg \<mapsto> bd_Content d)\<rparr>, h)
            else Inr (m, h)) (\<lambda>(m2, h2).
     doBuildSendEvents env p (Some sendEvent) m2 h2))))"

definition BuildSendEventsFromStep ::
  "env \<Rightarrow> place \<Rightarrow> string \<Rightarrow> Machine \<Rightarrow> bheap \<Rightarrow> built" where
  "BuildSendEventsFromStep env p dat m h =
     doBuildSendEvents env p (Some (Event_zero\<lparr>e_Protocol := toFileProtocolType TransientProtocol,
       e_ProtocolType := TransientProtocol, e_EventData := Some (ed_basic dat)\<rparr>)) m h"

definition BuildSendEventsFromHook ::
  "env \<Rightarrow> place \<Rightarrow> hook_map \<Rightarrow> Machine \<Rightarrow> bheap \<Rightarrow> built" where
  "BuildSendEventsFromHook env p dat m h =
     doBuildSendEvents env p (Some (Event_zero\<lparr>e_Protocol := toFileProtocolType HookProtocol,
       e_ProtocolType := HookProtocol,
       e_EventData := Some (EventData_zero\<lparr>ed_Hook := Some dat\<rparr>)\<rparr>)) m h"

definition BuildSendEvents ::
  "env \<Rightarrow> place \<Rightarrow> ProtocolStatus option \<Rightarrow> Machine \<Rightarrow> bheap \<Rightarrow> built" where
  "BuildSendEvents env p status m h =
     bindG (buildInputEvent (triggerAt m p) status m) (\<lambda>(input, m1).
     doBuildSendEvents env p input m1 h)"

definition BuildSendAnswers ::
  "env \<Rightarrow> place \<Rightarrow> AgentStatus \<Rightarrow> Machine \<Rightarrow> bheap \<Rightarrow> built" where
  "BuildSendAnswers env p status m h =
     doBuildSendEvents env p (Some (buildInputAnswers status)) m h"

end
