(* ===== verification/Fsm_Machine.thy ===== *)
theory Fsm_Machine
  imports Fsm_Transition
begin

text \<open>
  The machine (\<open>agency/fsm/machine.go\<close>): loading, \<open>Initialize\<close>, the searches for a transition of the
  current state, \<open>Step\<close> and \<open>Start\<close>.
\<close>

subsection \<open>Loading\<close>

text \<open>\<open>filepath.Ext\<close>: the suffix from the last dot of the last path element.\<close>

fun extRev :: "string \<Rightarrow> string \<Rightarrow> string" where
  "extRev [] acc = []"
| "extRev (c # cs) acc =
     (if c = CHR ''/'' then [] else if c = CHR ''.'' then c # acc else extRev cs (c # acc))"

definition filepath_Ext :: "string \<Rightarrow> string" where
  "filepath_Ext path = extRev (rev path) []"

record MachineData =
  md_FType :: string
  md_Data :: "string option"

definition MachineData_IsValid :: "MachineData option \<Rightarrow> bool" where
  "MachineData_IsValid md =
     (case md of None \<Rightarrow> False | Some d \<Rightarrow> md_FType d \<noteq> [] \<and> md_Data d \<noteq> None)"

text \<open>The two parsers are packages outside the repository; \<open>None\<close> is their error.\<close>

record codec =
  jsonMachine :: "string option \<Rightarrow> Machine option"
  yamlMachine :: "string option \<Rightarrow> Machine option"

definition NewMachine :: "codec \<Rightarrow> MachineData \<Rightarrow> Machine go" where
  "NewMachine cd dat =
     (case (if filepath_Ext (md_FType dat) = ''.json'' then jsonMachine cd (md_Data dat)
            else yamlMachine cd (md_Data dat)) of
        None \<Rightarrow> Inl ErrThrown
      | Some m \<Rightarrow> Inr m)"

definition NewBackendMachine :: "codec \<Rightarrow> MachineData \<Rightarrow> Machine go" where
  "NewBackendMachine cd dat =
     bindG (case (if filepath_Ext (md_FType dat) = ''.json'' then jsonMachine cd (md_Data dat)
                  else yamlMachine cd (md_Data dat)) of
              None \<Rightarrow> Inl ErrThrown
            | Some m \<Rightarrow> Inr m) (\<lambda>m.
     Inr (m\<lparr>m_Type := MachineTypeBackend\<rparr>))"

subsection \<open>Initialize\<close>

datatype init_error = BadFormat string | NoInitialState | MultipleInitialStates

text \<open>A result that may also be an error value, as Go returns it.\<close>

definition bindE :: "('e + 'a) go \<Rightarrow> ('a \<Rightarrow> ('e + 'b) go) \<Rightarrow> ('e + 'b) go" where
  "bindE m f = bindG m (\<lambda>r. case r of Inl e \<Rightarrow> Inr (Inl e) | Inr x \<Rightarrow> f x)"

fun mapE :: "('a \<Rightarrow> ('e + 'b) go) \<Rightarrow> 'a list \<Rightarrow> ('e + 'b list) go" where
  "mapE f [] = Inr (Inr [])"
| "mapE f (x # xs) = bindE (f x) (\<lambda>y. bindE (mapE f xs) (\<lambda>ys. Inr (Inr (y # ys))))"

definition setSendDefs :: "Event \<Rightarrow> Event" where
  "setSendDefs e = e\<lparr>e_WantStatus :=
     (e_ProtocolType e \<in> {Protocol_ISSUE_CREDENTIAL, Protocol_PRESENT_PROOF})\<rparr>"

definition resolveEvent :: "Event \<Rightarrow> Event" where
  "resolveEvent e = e\<lparr>e_ProtocolType := ProtocolType (e_Protocol e),
     e_NotificationType := NotificationTypeID (e_TypeID e)\<rparr>"

definition initSend :: "env \<Rightarrow> Event \<Rightarrow> (init_error + Event) go" where
  "initSend env send =
     (if e_Protocol send = MessageIssueCred \<and>
         (case e_EventData send of None \<Rightarrow> True | Some d \<Rightarrow> ed_Issuing d = None)
      then Inr (Inl (BadFormat (e_Data send)))
      else bindG (Event_filterEnvs env (resolveEvent send)) (\<lambda>s. Inr (Inr (setSendDefs s))))"

definition initTransition :: "env \<Rightarrow> Transition \<Rightarrow> (init_error + Transition) go" where
  "initTransition env t =
     bindG (deref (t_Trigger t)) (\<lambda>trg.
     bindG (Event_filterEnvs env (resolveEvent trg)) (\<lambda>trg'.
     bindE (mapE (initSend env) (t_Sends t)) (\<lambda>sends.
     Inr (Inr (t\<lparr>t_Trigger := Some trg', t_Sends := sends\<rparr>)))))"

text \<open>The loop over the states: \<open>cur\<close> is \<open>m.Current\<close> so far and \<open>initSet\<close> the local flag.\<close>

fun initStates ::
  "env \<Rightarrow> Transition option \<Rightarrow> (string \<times> State) list \<Rightarrow> string \<Rightarrow> bool \<Rightarrow>
   (init_error + (string \<times> State) list \<times> string) go" where
  "initStates env initial [] cur initSet = Inr (Inr ([], cur))"
| "initStates env initial ((sid, st) # rest) cur initSet =
     bindE (mapE (initTransition env) (s_Transitions st)) (\<lambda>ts.
     case initial of
       None \<Rightarrow> Inr (Inl NoInitialState)
     | Some t0 \<Rightarrow>
         (if sid = t_Target t0 \<and> initSet then Inr (Inl MultipleInitialStates)
          else
            bindE (if sid = t_Target t0 then initStates env initial rest (t_Target t0) True
                   else initStates env initial rest cur initSet) (\<lambda>(sts, cur').
            Inr (Inr ((sid, st\<lparr>s_Transitions := ts\<rparr>) # sts, cur')))))"

definition initInitialSend :: "Event \<Rightarrow> Event" where
  "initInitialSend send = setSendDefs (send\<lparr>e_ProtocolType := ProtocolType (e_Protocol send)\<rparr>)"

definition Initialize :: "env \<Rightarrow> Machine \<Rightarrow> (init_error + Machine) go" where
  "Initialize env m =
     (let ty = (if m_Type m = MachineTypeNone then MachineTypeConversation else m_Type m) in
      bindE (initStates env (m_Initial m) (m_States m) (m_Current m) False) (\<lambda>(sts, cur).
      bindG (deref (m_Initial m)) (\<lambda>t0.
      Inr (Inr (m\<lparr>m_Type := ty, m_Memory := Map.empty, m_States := sts, m_Current := cur,
        m_Initial := Some (t0\<lparr>t_Sends := map initInitialSend (t_Sends t0)\<rparr>),
        m_Initialized := True\<rparr>)))))"

definition InitLua :: "Machine \<Rightarrow> Machine" where
  "InitLua m = m\<lparr>m_luaState := Some []\<rparr>"

subsection \<open>Searching the transitions of the current state\<close>

text \<open>
  The loops over \<open>m.CurrentState().Transitions\<close>: the first transition that triggers wins, and what
  the earlier ones wrote to the memory stays.
\<close>

fun firstTrigger ::
  "(Event \<Rightarrow> Machine \<Rightarrow> ((bool \<times> string) \<times> Machine) go) \<Rightarrow> nat \<Rightarrow> Transition list \<Rightarrow> Machine \<Rightarrow>
   ((nat \<times> string \<times> string) option \<times> Machine) go" where
  "firstTrigger f i [] m = Inr (None, m)"
| "firstTrigger f i (t # ts) m =
     bindG (deref (t_Trigger t)) (\<lambda>trg.
     bindG (f trg m) (\<lambda>((ok, tgt), m').
     if ok then Inr (Some (i, t_Target t, tgt), m') else firstTrigger f (Suc i) ts m'))"

definition searchTransition ::
  "(Event \<Rightarrow> Machine \<Rightarrow> ((bool \<times> string) \<times> Machine) go) \<Rightarrow> Machine \<Rightarrow>
   (found option \<times> Machine) go" where
  "searchTransition f m =
     bindG (deref (CurrentState m)) (\<lambda>st.
     bindG (firstTrigger f 0 (s_Transitions st) m) (\<lambda>(r, m').
     Inr (map_option (\<lambda>(i, target, tgt). withNewTarget (StatePlace (m_Current m) i) target tgt) r,
          m')))"

definition Triggers :: "env \<Rightarrow> ProtocolStatus option \<Rightarrow> Machine \<Rightarrow> (found option \<times> Machine) go" where
  "Triggers env status m =
     searchTransition (\<lambda>trg m.
       bindG (statusTypeID status) (\<lambda>ty.
       if e_ProtocolType trg = ty then Event_Triggers env trg status m
       else Inr ((False, []), m))) m"

definition TriggersByHook :: "Machine \<Rightarrow> (found option \<times> Machine) go" where
  "TriggersByHook m =
     searchTransition (\<lambda>trg m.
       Inr ((e_ProtocolType trg = HookProtocol \<and> Event_TriggersByHook trg, []), m)) m"

definition TriggersByStep :: "Machine \<Rightarrow> (found option \<times> Machine) go" where
  "TriggersByStep m =
     searchTransition (\<lambda>trg m. Inr ((e_ProtocolType trg = TransientProtocol, []), m)) m"

definition TriggersByBackendData ::
  "env \<Rightarrow> BackendData option \<Rightarrow> Machine \<Rightarrow> (found option \<times> Machine) go" where
  "TriggersByBackendData env dat m =
     searchTransition (\<lambda>trg m.
       if e_ProtocolType trg = BackendProtocol then
         Inr (Event_TriggersByBackendData env trg dat m)
       else Inr ((False, []), m)) m"

definition Answers :: "env \<Rightarrow> Question \<Rightarrow> Machine \<Rightarrow> (found option \<times> Machine) go" where
  "Answers env q m =
     searchTransition (\<lambda>trg m.
       if e_ProtocolType trg = n_ProtocolType (as_Notification (q_Status q)) then
         bindG (Event_Answers env trg q m) (\<lambda>(ok, m'). Inr ((ok, []), m'))
       else Inr ((False, []), m)) m"

subsection \<open>Step and Start\<close>

text \<open>
  \<open>checkTerm\<close> sends on the termination channel; whether that send can proceed is the business of the
  goroutine that steps the machine, so the result tells whether there is a signal to send.
\<close>

definition checkTerm :: "Machine \<Rightarrow> bool go" where
  "checkTerm m = bindG (deref (CurrentState m)) (\<lambda>st. Inr (s_Terminate st \<and> m_termChan m))"

definition Step :: "found \<Rightarrow> Machine \<Rightarrow> (Machine \<times> bool) go" where
  "Step t m =
     (let m1 = m\<lparr>m_Current := f_Target t\<rparr> in
      bindG (deref (m_Initial m1)) (\<lambda>t0.
      let m2 = (if m_Current m1 = t_Target t0 then
                  (if \<not> m_KeepMemory m1 \<and> \<not> m_KeepMemoryReported m1
                   then m1\<lparr>m_Memory := Map.empty, m_KeepMemoryReported := True\<rparr>
                   else m1\<lparr>m_KeepMemoryReported := True\<rparr>)
                else m1)
      in bindG (checkTerm m2) (\<lambda>sig. Inr (m2, sig))))"

text \<open>\<open>Start\<close> returns nil when the initial transition sends nothing.\<close>

definition Start :: "env \<Rightarrow> bool \<Rightarrow> Machine \<Rightarrow> bheap \<Rightarrow> built" where
  "Start env termChan m h =
     (let m1 = m\<lparr>m_termChan := termChan\<rparr> in
      bindG (deref (m_Initial m1)) (\<lambda>t.
      if t_Sends t \<noteq> [] then BuildSendEvents env InitialPlace None m1 h
      else Inr (None, m1, h)))"

end
