(* ===== verification/Fsm_Invariant.thy ===== *)
theory Fsm_Invariant
  imports Fsm_Machine
begin

text \<open>
  What the operations of a machine keep: the skeleton of the machine (everything but memory,
  interpreter, random source and the data of its send events), and well-formedness, which says that
  the machine's places and targets exist. The search for a transition is stated once, for any
  trigger test that only lets the memory grow, and interpreted for the five searches of the code.
\<close>

subsection \<open>Skeletons\<close>

definition erase :: "Event \<Rightarrow> Event" where
  "erase e = e\<lparr>e_EventData := None\<rparr>"

definition skelT :: "Transition \<Rightarrow> Transition" where
  "skelT t = t\<lparr>t_Sends := map erase (t_Sends t)\<rparr>"

definition skelS :: "State \<Rightarrow> State" where
  "skelS s = s\<lparr>s_Transitions := map skelT (s_Transitions s)\<rparr>"

definition skeleton :: "Machine \<Rightarrow> Machine" where
  "skeleton m = m\<lparr>m_Memory := Map.empty, m_luaState := None, m_rndDraws := 0,
     m_Initial := map_option skelT (m_Initial m),
     m_States := map (\<lambda>(k, s). (k, skelS s)) (m_States m)\<rparr>"

definition wf_machine :: "Machine \<Rightarrow> bool" where
  "wf_machine m \<longleftrightarrow>
     (case m_Initial m of None \<Rightarrow> False | Some t0 \<Rightarrow> t_Target t0 \<in> set (map fst (m_States m))) \<and>
     distinct (map fst (m_States m)) \<and>
     m_Current m \<in> set (map fst (m_States m)) \<and>
     list_all (\<lambda>(k, s). list_all (\<lambda>t. t_Trigger t \<noteq> None \<and>
        t_Target t \<in> set (map fst (m_States m))) (s_Transitions s)) (m_States m)"

lemma skelT_simps [simp]:
  "t_Trigger (skelT t) = t_Trigger t" "t_Target (skelT t) = t_Target t"
  "t_Sends (skelT t) = map erase (t_Sends t)"
  by (simp_all add: skelT_def)

lemma skelS_simps [simp]:
  "s_Terminate (skelS s) = s_Terminate s" "s_Transitions (skelS s) = map skelT (s_Transitions s)"
  by (simp_all add: skelS_def)

lemma erase_idem [simp]: "erase (erase e) = erase e"
  by (simp add: erase_def)

lemma erase_upd [simp]: "erase (e\<lparr>e_EventData := d\<rparr>) = erase e"
  by (simp add: erase_def)

lemma skeleton_keys [simp]: "map fst (m_States (skeleton m)) = map fst (m_States m)"
  by (simp add: skeleton_def comp_def split_def)

lemma skeleton_fields [simp]:
  "m_Type (skeleton m) = m_Type m" "m_Current (skeleton m) = m_Current m"
  "m_Initial (skeleton m) = map_option skelT (m_Initial m)" "m_ConnID (skeleton m) = m_ConnID m"
  "m_termChan (skeleton m) = m_termChan m" "m_KeepMemory (skeleton m) = m_KeepMemory m"
  "m_KeepMemoryReported (skeleton m) = m_KeepMemoryReported m"
  "m_Initialized (skeleton m) = m_Initialized m"
  by (simp_all add: skeleton_def)

lemma stateOf_skeleton: "stateOf (skeleton m) s = map_option skelS (stateOf m s)"
  by (simp add: stateOf_def skeleton_def map_of_map)

lemma skeleton_eqD:
  assumes "skeleton m' = skeleton m"
  shows "m_Type m' = m_Type m" "m_Current m' = m_Current m" "m_ConnID m' = m_ConnID m"
    "m_termChan m' = m_termChan m" "m_KeepMemory m' = m_KeepMemory m"
    "m_KeepMemoryReported m' = m_KeepMemoryReported m" "m_Initialized m' = m_Initialized m"
    "map_option skelT (m_Initial m') = map_option skelT (m_Initial m)"
    "map fst (m_States m') = map fst (m_States m)"
    "map_option skelS (stateOf m' s) = map_option skelS (stateOf m s)"
  using assms
  by (metis skeleton_fields, metis skeleton_fields, metis skeleton_fields, metis skeleton_fields,
      metis skeleton_fields, metis skeleton_fields, metis skeleton_fields, metis skeleton_fields,
      metis skeleton_keys, metis stateOf_skeleton)

lemma wf_machine_skeleton: "wf_machine (skeleton m) \<longleftrightarrow> wf_machine m"
  by (auto simp: wf_machine_def skeleton_def list_all_iff comp_def split_def image_image
      split: option.splits)

lemma wf_machine_cong: "skeleton m' = skeleton m \<Longrightarrow> wf_machine m' \<longleftrightarrow> wf_machine m"
  by (metis wf_machine_skeleton)

lemma memory_step_skeleton: "memory_step m m' \<Longrightarrow> skeleton m' = skeleton m"
  by (cases m; cases m') (simp add: memory_step_def skeleton_def)

lemma skeleton_upd [simp]:
  "skeleton (m\<lparr>m_Memory := mem\<rparr>) = skeleton m"
  "skeleton (m\<lparr>m_luaState := h\<rparr>) = skeleton m"
  "skeleton (m\<lparr>m_rndDraws := n\<rparr>) = skeleton m"
  by (simp_all add: skeleton_def)

lemma memory_grows_skeleton: "memory_grows m m' \<Longrightarrow> skeleton m' = skeleton m"
  by (auto dest: memory_grows_step memory_step_skeleton)

lemma wf_machine_stateOf:
  assumes "wf_machine m"
  obtains st where "CurrentState m = Some st"
  using assms by (fastforce simp: wf_machine_def CurrentState_def stateOf_def
      dest: map_of_eq_None_iff [THEN iffD1] split: option.splits)

lemma wf_machine_transition:
  assumes "wf_machine m" "stateOf m s = Some st" "t \<in> set (s_Transitions st)"
  shows "t_Trigger t \<noteq> None" "t_Target t \<in> set (map fst (m_States m))"
proof -
  have "(s, st) \<in> set (m_States m)"
    using assms(2) by (auto simp: stateOf_def dest: map_of_SomeD)
  with assms show "t_Trigger t \<noteq> None" "t_Target t \<in> set (map fst (m_States m))"
    by (auto simp: wf_machine_def list_all_iff)
qed

subsection \<open>Builds keep the skeleton\<close>

lemma buildBMSend_keeps:
  assumes "buildBMSend env input send m = Inr (send', m')"
  shows "erase send' = erase send \<and> memory_grows m m'"
  using assms unfolding buildBMSend_def Let_def split_def
  by (auto simp: frame split: if_split_asm)

lemma buildHookSend_keeps:
  "buildHookSend env input send m = Inr send' \<Longrightarrow> erase send' = erase send"
  unfolding buildHookSend_def Let_def by (auto simp: hookData_def split: if_split_asm)

lemma buildTransientSend_keeps: "buildTransientSend send = Inr send' \<Longrightarrow> erase send' = erase send"
  by (auto simp: buildTransientSend_def split: if_split_asm)

lemma backendContent_grows:
  "backendContent env inp send m h = Inr (c, m') \<Longrightarrow> memory_grows m m'"
  unfolding backendContent_def Let_def split_def by (auto simp: frame split: if_split_asm)

lemma buildBackendSend_keeps:
  assumes "buildBackendSend env trigger input send m h = Inr (send', m', h')"
  shows "erase send' = erase send \<and> memory_grows m m'"
  using assms unfolding buildBackendSend_def Let_def split_def
  by (auto dest!: backendContent_grows)

text \<open>Which handler built an event.\<close>

lemma buildSend_cases:
  assumes "buildSend env trigger input send m h = Inr (r, m', h')"
  obtains (nohandler) "r = None" "m' = m" "h' = h"
  | (same) "r = Some send" "m' = m" "h' = h"
  | (dat) d where "r = Some (send\<lparr>e_EventData := d\<rparr>)" "m' = m" "h' = h"
  | (pin) d where "e_Protocol send = MessageEmail" "e_Rule send = TriggerTypePIN"
      "r = Some (send\<lparr>e_EventData := d\<rparr>)" "m' = GenPIN env m" "h' = h"
  | (bm) send' where "e_Protocol send = MessageBasicMessage" "r = Some send'" "h' = h"
      "buildBMSend env input send m = Inr (send', m')"
  | (hook) send' where "e_Protocol send = MessageHook" "r = Some send'" "m' = m" "h' = h"
      "buildHookSend env input send m = Inr send'"
  | (backend) send' where "e_Protocol send = MessageBackend" "r = Some send'"
      "buildBackendSend env trigger input send m h = Inr (send', m', h')"
  | (transient) send' where "e_Protocol send = MessageTransient" "r = Some send'" "m' = m" "h' = h"
      "buildTransientSend send = Inr send'"
proof -
  consider "e_Protocol send = MessageIssueCred" | "e_Protocol send = MessagePresentProof"
    | "e_Protocol send = MessageAnswer" | "e_Protocol send = MessageEmail"
    | "e_Protocol send = MessageBasicMessage" | "e_Protocol send = MessageHook"
    | "e_Protocol send = MessageBackend" | "e_Protocol send = MessageTransient"
    | "e_Protocol send \<notin> {MessageIssueCred, MessagePresentProof, MessageAnswer, MessageEmail,
        MessageBasicMessage, MessageHook, MessageBackend, MessageTransient}"
    by blast
  then show thesis
  proof cases
    case 1
    with assms show thesis
      by (auto simp: buildSend_def split: if_split_asm intro: dat same)
  next
    case 2
    with assms show thesis
      by (auto simp: buildSend_def go_consts split: if_split_asm intro: dat same)
  next
    case 3
    with assms show thesis
      by (auto simp: buildSend_def go_consts intro: same)
  next
    case 4
    with assms show thesis
      by (cases "e_Rule send = TriggerTypePIN")
        (auto simp: buildSend_def go_consts Let_def intro: pin [unfolded go_consts] same)
  next
    case 5
    with assms show thesis by (auto simp: buildSend_def go_consts intro: bm [unfolded go_consts])
  next
    case 6
    with assms show thesis by (auto simp: buildSend_def go_consts intro: hook [unfolded go_consts])
  next
    case 7
    with assms show thesis by (auto simp: buildSend_def go_consts intro: backend [unfolded go_consts])
  next
    case 8
    with assms show thesis by (auto simp: buildSend_def go_consts intro: transient [unfolded go_consts])
  next
    case 9
    with assms show thesis by (auto simp: buildSend_def intro: nohandler)
  qed
qed

lemma GenPIN_keeps [simp]:
  "m_States (GenPIN env m) = m_States m" "m_Initial (GenPIN env m) = m_Initial m"
  "skeleton (GenPIN env m) = skeleton m" "dom (m_Memory m) \<subseteq> dom (m_Memory (GenPIN env m))"
  by (auto simp: GenPIN_def skeleton_def)

text \<open>A build may change memory, interpreter and random source, nothing else of the machine, and
  it removes no register.\<close>

definition build_step :: "Machine \<Rightarrow> Machine \<Rightarrow> bool" where
  "build_step m m' \<longleftrightarrow> skeleton m' = skeleton m \<and> m_States m' = m_States m \<and>
     m_Initial m' = m_Initial m \<and> dom (m_Memory m) \<subseteq> dom (m_Memory m')"

lemma build_step_refl [simp]: "build_step m m"
  by (simp add: build_step_def)

lemma build_step_trans: "build_step a b \<Longrightarrow> build_step b c \<Longrightarrow> build_step a c"
  by (auto simp: build_step_def)

lemma build_step_GenPIN [simp]: "build_step m (GenPIN env m)"
  by (simp add: build_step_def)

lemma memory_grows_build_step: "memory_grows m m' \<Longrightarrow> build_step m m'"
  using memory_grows_skeleton memory_stepD by (simp add: build_step_def memory_grows_def)

lemma buildSend_keeps:
  assumes "buildSend env trigger input send m h = Inr (r, m', h')"
  shows "(\<forall>send'. r = Some send' \<longrightarrow> erase send' = erase send) \<and> build_step m m'"
  using assms
proof (cases rule: buildSend_cases)
  case (bm send')
  with buildBMSend_keeps show ?thesis by (auto intro: memory_grows_build_step)
next
  case (hook send')
  with buildHookSend_keeps show ?thesis by auto
next
  case (backend send')
  with buildBackendSend_keeps show ?thesis by (auto intro: memory_grows_build_step)
next
  case (transient send')
  with buildTransientSend_keeps show ?thesis by auto
qed simp_all

lemma buildSends_keeps:
  assumes "buildSends env trigger input sends m h = Inr (ok, sends', m', h')"
  shows "map erase sends' = map erase sends \<and> build_step m m'"
  using assms
proof (induction sends arbitrary: m h ok sends' m' h')
  case Nil
  then show ?case by simp
next
  case (Cons send sends)
  then obtain r m1 h1 where b: "buildSend env trigger input send m h = Inr (r, m1, h1)"
    by auto
  note k = buildSend_keeps [OF b]
  show ?case
  proof (cases r)
    case None
    with Cons.prems b k show ?thesis by simp
  next
    case (Some send')
    with Cons.prems b obtain ok2 s2 m2 h2
      where b2: "buildSends env trigger input sends m1 h1 = Inr (ok2, s2, m2, h2)"
        and eq: "sends' = send' # s2" "m' = m2"
      by auto
    from Cons.IH [OF b2] k Some eq show ?thesis
      by (auto intro: build_step_trans)
  qed
qed

lemma setSends_skeleton:
  assumes "transitionAt m p = Some t" "map erase es = map erase (t_Sends t)"
  shows "skeleton (setSends p es m) = skeleton m"
proof (cases p)
  case InitialPlace
  with assms show ?thesis
    by (auto simp: transitionAt_def setSends_def skeleton_def skelT_def)
next
  case (StatePlace s i)
  with assms(1) obtain st where st: "stateOf m s = Some st" and i: "i < length (s_Transitions st)"
      and t: "t = s_Transitions st ! i"
    by (auto simp: transitionAt_def split: option.splits if_splits)
  have "(s_Transitions st ! i)\<lparr>t_Sends := map erase es\<rparr> = skelT (s_Transitions st ! i)"
    using assms(2) t by (simp add: skelT_def)
  moreover have "(map skelT (s_Transitions st))[i := skelT (s_Transitions st ! i)] =
      map skelT (s_Transitions st)"
    using i by (metis list_update_id nth_map)
  ultimately have upd: "skelS (st\<lparr>s_Transitions := (s_Transitions st)
      [i := (s_Transitions st ! i)\<lparr>t_Sends := es\<rparr>]\<rparr>) = skelS st"
    by (simp add: skelS_def map_update skelT_def)
  have "map (\<lambda>(k, s). (k, skelS s)) (alist_update s (\<lambda>st. st\<lparr>s_Transitions := (s_Transitions st)
      [i := (s_Transitions st ! i)\<lparr>t_Sends := es\<rparr>]\<rparr>) xs) = map (\<lambda>(k, s). (k, skelS s)) xs"
    if "map_of xs s = Some st" for xs
    using that upd by (induction xs) (auto split: if_splits)
  with StatePlace st show ?thesis by (simp add: setSends_def skeleton_def stateOf_def)
qed

lemma doBuildSendEvents_keeps:
  assumes "doBuildSendEvents env p input m h = Inr (r, m', h')"
  shows "skeleton m' = skeleton m \<and> dom (m_Memory m) \<subseteq> dom (m_Memory m')"
proof -
  from assms obtain t ok sends m1 where t: "transitionAt m p = Some t"
    and b: "buildSends env (t_Trigger t) input (t_Sends t) m h = Inr (ok, sends, m1, h')"
    and m': "m' = setSends p sends m1"
    by (auto simp: doBuildSendEvents_def)
  from buildSends_keeps [OF b] have k: "map erase sends = map erase (t_Sends t)" "build_step m m1"
    by auto
  then have "transitionAt m1 p = Some t"
    using t by (cases p) (simp_all add: transitionAt_def build_step_def stateOf_def)
  then have "skeleton m' = skeleton m1"
    unfolding m' using k(1) by (rule setSends_skeleton)
  moreover have "m_Memory m' = m_Memory m1" by (simp add: m' setSends_def split: place.split)
  ultimately show ?thesis using k(2) by (simp add: build_step_def)
qed

text \<open>The entry points keep the skeleton, and of the memory every register.\<close>

definition build_keeps :: "Machine \<Rightarrow> built \<Rightarrow> bool" where
  "build_keeps m b \<longleftrightarrow>
     wlp b (\<lambda>(r, m', h'). skeleton m' = skeleton m \<and> dom (m_Memory m) \<subseteq> dom (m_Memory m'))"

lemma build_keepsD:
  "build_keeps m b \<Longrightarrow> b = Inr (r, m', h') \<Longrightarrow>
   skeleton m' = skeleton m \<and> dom (m_Memory m) \<subseteq> dom (m_Memory m')"
  by (simp add: build_keeps_def)

lemma build_keeps_do:
  assumes "skeleton m1 = skeleton m" "dom (m_Memory m) \<subseteq> dom (m_Memory m1)"
  shows "build_keeps m (doBuildSendEvents env p input m1 h)"
  unfolding build_keeps_def
proof (rule wlpI, clarify)
  fix r m' h'
  assume "doBuildSendEvents env p input m1 h = Inr (r, m', h')"
  from doBuildSendEvents_keeps [OF this] assms
  show "skeleton m' = skeleton m \<and> dom (m_Memory m) \<subseteq> dom (m_Memory m')"
    by (metis subset_trans)
qed

lemma build_keeps_Inl [simp]: "build_keeps m (Inl e)"
  by (simp add: build_keeps_def)

lemma build_keeps_bind:
  "wlp g (\<lambda>x. build_keeps m (f x)) \<Longrightarrow> build_keeps m (bindG g f)"
  by (simp add: build_keeps_def)

lemma buildInputEvent_keeps:
  "wlp (buildInputEvent trigger status m)
     (\<lambda>(e, m1). skeleton m1 = skeleton m \<and> dom (m_Memory m) \<subseteq> dom (m_Memory m1))"
  unfolding buildInputEvent_def statusTypeID_def Let_def
  by (simp split del: if_split) (auto split: if_split)

lemma BuildSendEvents_keeps: "build_keeps m (BuildSendEvents env p status m h)"
  unfolding BuildSendEvents_def
  by (rule build_keeps_bind, rule wlp_mono [OF buildInputEvent_keeps]) (auto intro: build_keeps_do)

lemma BuildSendEventsFromStep_keeps: "build_keeps m (BuildSendEventsFromStep env p dat m h)"
  unfolding BuildSendEventsFromStep_def by (rule build_keeps_do) auto

lemma BuildSendEventsFromHook_keeps: "build_keeps m (BuildSendEventsFromHook env p dat m h)"
  unfolding BuildSendEventsFromHook_def by (rule build_keeps_do) auto

lemma BuildSendAnswers_keeps: "build_keeps m (BuildSendAnswers env p status m h)"
  unfolding BuildSendAnswers_def by (rule build_keeps_do) auto

lemma BuildSendEventsFromBackendData_keeps:
  "build_keeps m (BuildSendEventsFromBackendData env p dat m h)"
  unfolding BuildSendEventsFromBackendData_def Let_def
  by (intro build_keeps_bind) (auto intro!: build_keeps_bind build_keeps_do)

end
