(* ===== verification/Fsm_Search.thy ===== *)
theory Fsm_Search
  imports Fsm_Invariant
begin

text \<open>
  The search for a transition, as an interface: a locale over the test that each of the five
  searches of \<open>machine.go\<close> applies to the triggers of the current state, with the one law that the
  test at most adds registers to the memory. Its interpretations are the searches of the code. Then
  what \<open>Step\<close> does, and that searches, builds and steps keep a machine well-formed.
\<close>

lemma searchTransition_Some:
  assumes "searchTransition test m = Inr (Some f, m')"
  shows "\<exists>st j target tgt. CurrentState m = Some st \<and>
    firstTrigger test 0 (s_Transitions st) m = Inr (Some (j, target, tgt), m') \<and>
    f = withNewTarget (StatePlace (m_Current m) j) target tgt"
proof (cases "CurrentState m")
  case None
  with assms show ?thesis by (simp add: searchTransition_def)
next
  case (Some st)
  show ?thesis
  proof (cases "firstTrigger test 0 (s_Transitions st) m")
    case (Inl e)
    with Some assms show ?thesis by (simp add: searchTransition_def)
  next
    case (Inr x)
    obtain r m1 where x: "x = (r, m1)" by (cases x)
    with Some assms Inr show ?thesis by (cases r) (auto simp: searchTransition_def)
  qed
qed

locale trigger_search =
  fixes test :: "Event \<Rightarrow> Machine \<Rightarrow> ((bool \<times> string) \<times> Machine) go"
  assumes test_grows: "test trg m = Inr (r, m') \<Longrightarrow> memory_grows m m'"
begin

lemma firstTrigger_grows: "firstTrigger test i ts m = Inr (r, m') \<Longrightarrow> memory_grows m m'"
proof (induction ts arbitrary: i m)
  case (Cons t ts)
  then show ?case
    by (auto split: if_split_asm dest: test_grows intro: memory_grows_trans)
qed simp

lemma firstTrigger_place:
  "firstTrigger test i ts m = Inr (Some (j, target, tgt), m') \<Longrightarrow>
   \<exists>k < length ts. j = i + k \<and> target = t_Target (ts ! k)"
proof (induction ts arbitrary: i m)
  case (Cons t ts)
  then show ?case
    by (fastforce split: if_split_asm)
qed simp

lemma firstTrigger_returns:
  assumes "\<And>t. t \<in> set ts \<Longrightarrow> t_Trigger t \<noteq> None" "\<And>trg m. returns (test trg m)"
  shows "returns (firstTrigger test i ts m)"
  using assms(1)
proof (induction ts arbitrary: i m)
  case (Cons t ts)
  then obtain trg where "t_Trigger t = Some trg" by fastforce
  moreover obtain ok tgt m1 where "test trg m = Inr ((ok, tgt), m1)"
    using assms(2) [of trg m] by (auto simp: returns_iff)
  ultimately show ?case using Cons by simp
qed simp

lemma search_grows: "searchTransition test m = Inr (r, m') \<Longrightarrow> memory_grows m m'"
  by (auto simp: searchTransition_def dest: firstTrigger_grows)

lemma search_skeleton: "searchTransition test m = Inr (r, m') \<Longrightarrow> skeleton m' = skeleton m"
  by (blast dest: search_grows memory_grows_skeleton)

lemma search_wf: "searchTransition test m = Inr (r, m') \<Longrightarrow> wf_machine m' = wf_machine m"
  by (blast dest: search_skeleton wf_machine_cong)

text \<open>A transition that was found is one of the current state's.\<close>

lemma search_place:
  assumes "searchTransition test m = Inr (Some f, m')"
  obtains st i tgt where "CurrentState m = Some st" "i < length (s_Transitions st)"
    "f_place f = StatePlace (m_Current m) i"
    "f_Target f = (if tgt = [] then t_Target (s_Transitions st ! i) else tgt)"
proof -
  from assms obtain st j target tgt where st: "CurrentState m = Some st"
    and ft: "firstTrigger test 0 (s_Transitions st) m = Inr (Some (j, target, tgt), m')"
    and f: "f = withNewTarget (StatePlace (m_Current m) j) target tgt"
    using searchTransition_Some [OF assms] by blast
  from firstTrigger_place [OF ft] have j: "j < length (s_Transitions st)"
    "target = t_Target (s_Transitions st ! j)" by auto
  show thesis
    by (rule that [OF st j(1), where tgt = tgt]) (simp_all add: f j(2) withNewTarget_def)
qed

lemma search_transitionAt:
  assumes "searchTransition test m = Inr (Some f, m')"
  shows "\<exists>t. transitionAt m (f_place f) = Some t"
proof (rule search_place [OF assms])
  fix st i tgt
  assume "CurrentState m = Some st" "i < length (s_Transitions st)"
    "f_place f = StatePlace (m_Current m) i"
  then show ?thesis by (simp add: transitionAt_def CurrentState_def)
qed

text \<open>The test that succeeded, on a machine that at most has more registers.\<close>

lemma firstTrigger_test:
  "firstTrigger test i ts m = Inr (Some (j, target, tgt), m') \<Longrightarrow>
   \<exists>k < length ts. \<exists>trg m1. j = i + k \<and> t_Trigger (ts ! k) = Some trg \<and> memory_grows m m1 \<and>
     test trg m1 = Inr ((True, tgt), m')"
proof (induction ts arbitrary: i m)
  case Nil
  then show ?case by simp
next
  case (Cons t ts)
  then obtain trg ok tg m1 where t: "t_Trigger t = Some trg" "test trg m = Inr ((ok, tg), m1)"
    by auto
  show ?case
  proof (cases ok)
    case True
    with Cons.prems t show ?thesis by (intro exI [of _ 0]) (auto intro: exI [of _ m])
  next
    case False
    with Cons.prems t have "firstTrigger test (Suc i) ts m1 = Inr (Some (j, target, tgt), m')" by simp
    from Cons.IH [OF this] obtain k trg' m2 where
      "k < length ts" "j = Suc i + k" "t_Trigger (ts ! k) = Some trg'" "memory_grows m1 m2"
      "test trg' m2 = Inr ((True, tgt), m')"
      by blast
    with memory_grows_trans [OF test_grows [OF t(2)]] show ?thesis
      by (intro exI [of _ "Suc k"]) auto
  qed
qed

lemma search_test:
  assumes "searchTransition test m = Inr (Some f, m')"
  shows "\<exists>st i trg m1 tgt. CurrentState m = Some st \<and> i < length (s_Transitions st) \<and>
    f = withNewTarget (StatePlace (m_Current m) i) (t_Target (s_Transitions st ! i)) tgt \<and>
    t_Trigger (s_Transitions st ! i) = Some trg \<and> memory_grows m m1 \<and>
    test trg m1 = Inr ((True, tgt), m')"
proof -
  obtain st j target tgt where st: "CurrentState m = Some st"
    and ft: "firstTrigger test 0 (s_Transitions st) m = Inr (Some (j, target, tgt), m')"
    and f: "f = withNewTarget (StatePlace (m_Current m) j) target tgt"
    using searchTransition_Some [OF assms] by blast
  from firstTrigger_place [OF ft] have j: "j < length (s_Transitions st)"
    "target = t_Target (s_Transitions st ! j)" by auto
  from firstTrigger_test [OF ft] obtain trg m1 where
    "t_Trigger (s_Transitions st ! j) = Some trg" "memory_grows m m1"
    "test trg m1 = Inr ((True, tgt), m')"
    by auto
  with st f j show ?thesis by blast
qed

text \<open>If the test never names a target of its own, the target is a state of the machine.\<close>

lemma search_target:
  assumes "wf_machine m" "searchTransition test m = Inr (Some f, m')"
    and "\<And>trg m1 tgt m2. test trg m1 = Inr ((True, tgt), m2) \<Longrightarrow> tgt = [] \<or> tgt \<in> set (map fst (m_States m))"
  shows "f_Target f \<in> set (map fst (m_States m))"
proof -
  obtain st i trg m1 tgt where st: "CurrentState m = Some st" "i < length (s_Transitions st)"
    and f: "f = withNewTarget (StatePlace (m_Current m) i) (t_Target (s_Transitions st ! i)) tgt"
    and t: "test trg m1 = Inr ((True, tgt), m')"
    using search_test [OF assms(2)] by blast
  from st have "t_Target (s_Transitions st ! i) \<in> set (map fst (m_States m))"
    by (intro wf_machine_transition(2) [OF assms(1)]) (auto simp: CurrentState_def)
  with assms(3) [OF t] show ?thesis by (auto simp: f withNewTarget_def)
qed

text \<open>On a well-formed machine the search returns if the test does.\<close>

lemma search_returns:
  assumes "wf_machine m" "\<And>trg m. returns (test trg m)"
  shows "returns (searchTransition test m)"
proof -
  from assms(1) obtain st where st: "CurrentState m = Some st" by (rule wf_machine_stateOf)
  then have "returns (firstTrigger test 0 (s_Transitions st) m)"
    using assms wf_machine_transition(1) [OF assms(1)]
    by (intro firstTrigger_returns) (auto simp: CurrentState_def)
  with st show ?thesis by (auto simp: searchTransition_def returns_iff)
qed

end

text \<open>
  A test that neither writes nor names a target of its own is a predicate on the trigger and the
  memory; then the search finds the first transition whose trigger satisfies it, and nothing
  else happens.
\<close>

locale pure_search =
  fixes test :: "Event \<Rightarrow> Machine \<Rightarrow> ((bool \<times> string) \<times> Machine) go"
    and enabled :: "Event \<Rightarrow> memory \<Rightarrow> bool"
  assumes test_pure: "test trg m = Inr ((enabled trg (m_Memory m), []), m)"

sublocale pure_search \<subseteq> trigger_search test
  by unfold_locales (simp add: test_pure)

text \<open>The index and target of the first transition whose trigger satisfies a predicate.\<close>

fun firstEnabled :: "(Event \<Rightarrow> bool) \<Rightarrow> nat \<Rightarrow> Transition list \<Rightarrow> (nat \<times> string) option" where
  "firstEnabled P i [] = None"
| "firstEnabled P i (t # ts) =
     (case t_Trigger t of
        None \<Rightarrow> None
      | Some trg \<Rightarrow> if P trg then Some (i, t_Target t) else firstEnabled P (Suc i) ts)"

definition firstFound :: "(Event \<Rightarrow> bool) \<Rightarrow> Machine \<Rightarrow> found option" where
  "firstFound P m =
     (case CurrentState m of
        None \<Rightarrow> None
      | Some st \<Rightarrow> map_option (\<lambda>(i, target). \<lparr>f_place = StatePlace (m_Current m) i, f_Target = target\<rparr>)
          (firstEnabled P 0 (s_Transitions st)))"

text \<open>What makes \<open>firstEnabled\<close> the first one.\<close>

lemma firstEnabled_Some:
  assumes "firstEnabled P i ts = Some (j, target)"
  shows "\<exists>k < length ts. j = i + k \<and> target = t_Target (ts ! k) \<and>
    (\<exists>trg. t_Trigger (ts ! k) = Some trg \<and> P trg) \<and>
    (\<forall>l < k. \<exists>trg. t_Trigger (ts ! l) = Some trg \<and> \<not> P trg)"
  using assms
proof (induction ts arbitrary: i)
  case (Cons t ts)
  then obtain trg where trg: "t_Trigger t = Some trg" by (auto split: option.splits)
  show ?case
  proof (cases "P trg")
    case True
    with Cons.prems trg show ?thesis by (auto intro: exI [of _ "0"])
  next
    case False
    with Cons.prems trg Cons.IH [of "Suc i"] obtain k where "k < length ts" "j = Suc i + k"
      "target = t_Target (ts ! k)" "\<exists>trg. t_Trigger (ts ! k) = Some trg \<and> P trg"
      "\<forall>l < k. \<exists>trg. t_Trigger (ts ! l) = Some trg \<and> \<not> P trg"
      by auto
    with trg False show ?thesis
      by (intro exI [of _ "Suc k"]) (auto simp: nth_Cons split: nat.split)
  qed
qed simp

lemma firstEnabled_None:
  "firstEnabled P i ts = None \<Longrightarrow> \<forall>t \<in> set ts. t_Trigger t \<noteq> None \<Longrightarrow> t \<in> set ts \<Longrightarrow>
   t_Trigger t = Some trg \<Longrightarrow> \<not> P trg"
  by (induction ts arbitrary: i) (auto split: option.splits if_splits)

context pure_search
begin

lemma firstTrigger_pure:
  assumes "\<forall>t \<in> set ts. t_Trigger t \<noteq> None"
  shows "firstTrigger test i ts m =
    Inr (map_option (\<lambda>(j, target). (j, target, [])) (firstEnabled (\<lambda>trg. enabled trg (m_Memory m)) i ts), m)"
  using assms by (induction ts arbitrary: i) (auto simp: test_pure)

lemma search_first:
  assumes "wf_machine m"
  shows "searchTransition test m = Inr (firstFound (\<lambda>trg. enabled trg (m_Memory m)) m, m)"
proof -
  from assms obtain st where st: "CurrentState m = Some st" by (rule wf_machine_stateOf)
  with wf_machine_transition(1) [OF assms] have "\<forall>t \<in> set (s_Transitions st). t_Trigger t \<noteq> None"
    by (auto simp: CurrentState_def)
  then show ?thesis
    using st by (simp add: searchTransition_def firstFound_def firstTrigger_pure withNewTarget_def
        option.map_comp comp_def split_def)
qed

end

subsection \<open>The searches of the code\<close>

definition statusTest :: "env \<Rightarrow> ProtocolStatus option \<Rightarrow> Event \<Rightarrow> Machine \<Rightarrow> ((bool \<times> string) \<times> Machine) go" where
  "statusTest env status trg m =
     bindG (statusTypeID status) (\<lambda>ty.
     if e_ProtocolType trg = ty then Event_Triggers env trg status m else Inr ((False, []), m))"

definition backendTest :: "env \<Rightarrow> BackendData option \<Rightarrow> Event \<Rightarrow> Machine \<Rightarrow> ((bool \<times> string) \<times> Machine) go" where
  "backendTest env dat trg m =
     (if e_ProtocolType trg = BackendProtocol then Inr (Event_TriggersByBackendData env trg dat m)
      else Inr ((False, []), m))"

definition questionTest :: "env \<Rightarrow> Question \<Rightarrow> Event \<Rightarrow> Machine \<Rightarrow> ((bool \<times> string) \<times> Machine) go" where
  "questionTest env q trg m =
     (if e_ProtocolType trg = n_ProtocolType (as_Notification (q_Status q)) then
        bindG (Event_Answers env trg q m) (\<lambda>(ok, m'). Inr ((ok, []), m'))
      else Inr ((False, []), m))"

definition hookTest :: "Event \<Rightarrow> Machine \<Rightarrow> ((bool \<times> string) \<times> Machine) go" where
  "hookTest trg m = Inr ((e_ProtocolType trg = HookProtocol \<and> Event_TriggersByHook trg, []), m)"

definition stepTest :: "Event \<Rightarrow> Machine \<Rightarrow> ((bool \<times> string) \<times> Machine) go" where
  "stepTest trg m = Inr ((e_ProtocolType trg = TransientProtocol, []), m)"

lemma Triggers_search: "Triggers env status m = searchTransition (statusTest env status) m"
  by (simp add: Triggers_def statusTest_def [abs_def])

lemma TriggersByBackendData_search:
  "TriggersByBackendData env dat m = searchTransition (backendTest env dat) m"
  by (simp add: TriggersByBackendData_def backendTest_def [abs_def])

lemma Answers_search: "Answers env q m = searchTransition (questionTest env q) m"
  by (simp add: Answers_def questionTest_def [abs_def])

lemma TriggersByHook_search: "TriggersByHook m = searchTransition hookTest m"
  by (simp add: TriggersByHook_def hookTest_def [abs_def])

lemma TriggersByStep_search: "TriggersByStep m = searchTransition stepTest m"
  by (simp add: TriggersByStep_def stepTest_def [abs_def])

interpretation by_status: trigger_search "statusTest env status" for env status
  by unfold_locales (auto simp: statusTest_def split: if_split_asm dest: Event_Triggers_grows)

interpretation by_backend: trigger_search "backendTest env dat" for env dat
proof
  fix trg m r m'
  assume "backendTest env dat trg m = Inr (r, m')"
  then show "memory_grows m m'"
    using Event_TriggersByBackendData_grows [of m env trg dat]
    by (auto simp: backendTest_def split: if_split_asm)
qed

interpretation by_question: trigger_search "questionTest env q" for env q
  by unfold_locales (auto simp: questionTest_def split: if_split_asm dest: Event_Answers_grows)

interpretation by_hook: pure_search hookTest "\<lambda>trg mem. e_ProtocolType trg = HookProtocol"
  by unfold_locales (simp add: hookTest_def Event_TriggersByHook_def)

interpretation by_step: pure_search stepTest "\<lambda>trg mem. e_ProtocolType trg = TransientProtocol"
  by unfold_locales (simp add: stepTest_def)

end
