(* ===== verification/Fsm_Step.thy ===== *)
theory Fsm_Step
  imports Fsm_Search
begin

text \<open>
  \<open>Step\<close>: what it does to the current state, to the memory and to the termination signal, and that
  it keeps a machine well-formed; that the searches return on well-formed machines; and the Lua
  rule, whose target and outcome are read from registers.
\<close>

subsection \<open>Step\<close>

text \<open>The memory after a step into the state \<open>target\<close>.\<close>

definition clearsMemory :: "Machine \<Rightarrow> string \<Rightarrow> bool" where
  "clearsMemory m target \<longleftrightarrow>
     (case m_Initial m of None \<Rightarrow> False | Some t0 \<Rightarrow> target = t_Target t0) \<and>
     \<not> m_KeepMemory m \<and> \<not> m_KeepMemoryReported m"

text \<open>The machine after a step that returns.\<close>

definition stepped :: "found \<Rightarrow> Machine \<Rightarrow> Machine" where
  "stepped f m = m\<lparr>m_Current := f_Target f,
     m_Memory := (if clearsMemory m (f_Target f) then Map.empty else m_Memory m),
     m_KeepMemoryReported := (m_KeepMemoryReported m \<or>
       (case m_Initial m of None \<Rightarrow> False | Some t0 \<Rightarrow> f_Target f = t_Target t0))\<rparr>"

lemma Step_eq:
  "Step f m =
     (case m_Initial m of None \<Rightarrow> Inl NilDeref
      | Some t0 \<Rightarrow> (case stateOf m (f_Target f) of None \<Rightarrow> Inl NilDeref
          | Some st \<Rightarrow> Inr (stepped f m, s_Terminate st \<and> m_termChan m)))"
proof (cases "m_Initial m")
  case None
  then show ?thesis by (simp add: Step_def Let_def)
next
  case (Some t0)
  then show ?thesis
    by (cases "map_of (m_States m) (f_Target f)"; cases "f_Target f = t_Target t0")
      (simp_all add: Step_def Let_def checkTerm_def CurrentState_def stateOf_def stepped_def
        clearsMemory_def)
qed

lemma stepped_fields [simp]:
  "m_States (stepped f m) = m_States m" "m_Initial (stepped f m) = m_Initial m"
  "m_Current (stepped f m) = f_Target f" "m_Type (stepped f m) = m_Type m"
  "m_ConnID (stepped f m) = m_ConnID m" "m_termChan (stepped f m) = m_termChan m"
  "m_KeepMemory (stepped f m) = m_KeepMemory m" "m_luaState (stepped f m) = m_luaState m"
  "m_Memory (stepped f m) = (if clearsMemory m (f_Target f) then Map.empty else m_Memory m)"
  by (simp_all add: stepped_def)

lemma wf_machine_initial: "wf_machine m \<Longrightarrow> \<exists>t0. m_Initial m = Some t0"
  by (auto simp: wf_machine_def split: option.splits)

lemma wf_machine_stepped:
  "wf_machine m \<Longrightarrow> f_Target f \<in> set (map fst (m_States m)) \<Longrightarrow> wf_machine (stepped f m)"
  by (cases "m_Initial m") (simp_all add: wf_machine_def)

lemma stateOf_key: "s \<in> set (map fst (m_States m)) \<longleftrightarrow> (\<exists>st. stateOf m s = Some st)"
  by (metis map_of_eq_None_iff not_None_eq set_map stateOf_def)

lemma Step_wf:
  assumes "wf_machine m" "f_Target f \<in> set (map fst (m_States m))"
  shows "\<exists>st. stateOf m (f_Target f) = Some st \<and>
    Step f m = Inr (stepped f m, s_Terminate st \<and> m_termChan m)"
proof -
  from assms(2) obtain st where "stateOf m (f_Target f) = Some st" unfolding stateOf_key by blast
  with wf_machine_initial [OF assms(1)] show ?thesis by (auto simp: Step_eq)
qed

lemma Step_Inr:
  "Step f m = Inr (m', sig) \<Longrightarrow> m' = stepped f m \<and> f_Target f \<in> set (map fst (m_States m)) \<and>
     (\<exists>st. stateOf m (f_Target f) = Some st \<and> sig = (s_Terminate st \<and> m_termChan m))"
  unfolding stateOf_key by (auto simp: Step_eq split: option.splits)

lemma Step_no_target:
  "f_Target f \<notin> set (map fst (m_States m)) \<Longrightarrow> Step f m = Inl NilDeref"
  unfolding stateOf_key by (auto simp: Step_eq split: option.split)

subsection \<open>Searches return\<close>

text \<open>A status as the agency sends it: its header is there, and a basic message has its content.\<close>

definition status_ok :: "ProtocolStatus \<Rightarrow> bool" where
  "status_ok s \<longleftrightarrow>
     (case ps_State s of None \<Rightarrow> False
      | Some st \<Rightarrow> (case st_ProtocolID st of None \<Rightarrow> False
          | Some p \<Rightarrow> pid_TypeID p = Protocol_BASIC_MESSAGE \<longrightarrow> ps_BasicMessage s \<noteq> None))"

lemma status_ok_type:
  assumes "status_ok s"
  shows "\<exists>ty. statusTypeID (Some s) = Inr ty \<and>
    (ty = Protocol_BASIC_MESSAGE \<longrightarrow> (\<exists>c. GetBasicMessage (Some s) = Some c))"
proof -
  from assms obtain st p where "ps_State s = Some st" "st_ProtocolID st = Some p"
    "pid_TypeID p = Protocol_BASIC_MESSAGE \<longrightarrow> ps_BasicMessage s \<noteq> None"
    by (auto simp: status_ok_def split: option.splits)
  then show ?thesis by (auto simp: statusTypeID_def GetState_def GetBasicMessage_def)
qed

lemma statusTest_returns:
  assumes "status_ok s"
  shows "returns (statusTest env (Some s) trg m)"
proof -
  from assms obtain ty where ty: "statusTypeID (Some s) = Inr ty"
    "ty = Protocol_BASIC_MESSAGE \<Longrightarrow> \<exists>c. GetBasicMessage (Some s) = Some c"
    using status_ok_type by blast
  show ?thesis
  proof (cases "ty = Protocol_BASIC_MESSAGE")
    case True
    with ty obtain c where "GetBasicMessage (Some s) = Some c" by auto
    with True ty(1) show ?thesis by (simp add: statusTest_def Event_Triggers_def)
  next
    case False
    with ty(1) show ?thesis by (simp add: statusTest_def Event_Triggers_def)
  qed
qed

lemma Triggers_returns: "wf_machine m \<Longrightarrow> status_ok s \<Longrightarrow> returns (Triggers env (Some s) m)"
  unfolding Triggers_search by (rule by_status.search_returns) (auto intro: statusTest_returns)

lemma TriggersByBackendData_returns: "wf_machine m \<Longrightarrow> returns (TriggersByBackendData env d m)"
  unfolding TriggersByBackendData_search
  by (rule by_backend.search_returns) (simp_all add: backendTest_def)

text \<open>
  A question is answered without a panic when it carries the attributes of a presented proof and
  every trigger for it is a proof trigger whose data parses.
\<close>

definition question_ok :: "env \<Rightarrow> Question \<Rightarrow> Event \<Rightarrow> bool" where
  "question_ok env q trg \<longleftrightarrow>
     (q_TypeID q = Question_PROOF_VERIFY_WAITS \<and>
      e_ProtocolType trg = n_ProtocolType (as_Notification (q_Status q)) \<longrightarrow>
      e_ProtocolType trg = Protocol_PRESENT_PROOF \<and> unmarshalProofAttrs env (e_Data trg) \<noteq> None \<and>
      q_ProofVerify q \<noteq> None)"

lemma questionTest_returns:
  assumes "question_ok env q trg"
  shows "returns (questionTest env q trg m)"
proof (cases "q_TypeID q = Question_PROOF_VERIFY_WAITS \<and>
    e_ProtocolType trg = n_ProtocolType (as_Notification (q_Status q))")
  case False
  then show ?thesis by (auto simp: questionTest_def Event_Answers_def)
next
  case True
  with assms obtain vs attrs where "unmarshalProofAttrs env (e_Data trg) = Some vs"
    "q_ProofVerify q = Some attrs" "e_ProtocolType trg = Protocol_PRESENT_PROOF"
    by (auto simp: question_ok_def)
  with True show ?thesis
    by (simp add: questionTest_def Event_Answers_def Let_def split_def)
qed

subsection \<open>The Lua rule\<close>

text \<open>Only a Lua trigger names a target.\<close>

lemma statusTest_target:
  "statusTest env status trg m = Inr ((ok, tgt), m') \<Longrightarrow> tgt = [] \<or> e_Rule trg = TriggerTypeLua"
  by (auto simp: statusTest_def Event_Triggers_def Let_def split_def split: if_split_asm)

lemma backendTest_target:
  "backendTest env d trg m = Inr ((ok, tgt), m') \<Longrightarrow> tgt = [] \<or> e_Rule trg = TriggerTypeLua"
  by (auto simp: backendTest_def Event_TriggersByBackendData_def Let_def split_def
      split: if_split_asm option.splits)

lemma questionTest_target: "questionTest env q trg m = Inr ((ok, tgt), m') \<Longrightarrow> tgt = []"
  by (auto simp: questionTest_def split: if_split_asm)

text \<open>
  The searches whose test names a target only for a Lua trigger. In a machine without such triggers
  they find transitions into states of the machine.
\<close>

definition lua_free :: "Machine \<Rightarrow> bool" where
  "lua_free m \<longleftrightarrow> list_all (\<lambda>(k, s). list_all (\<lambda>t.
     case t_Trigger t of None \<Rightarrow> True | Some trg \<Rightarrow> e_Rule trg \<noteq> TriggerTypeLua) (s_Transitions s))
     (m_States m)"

lemma lua_freeD:
  assumes "lua_free m" "CurrentState m = Some st" "t \<in> set (s_Transitions st)" "t_Trigger t = Some trg"
  shows "e_Rule trg \<noteq> TriggerTypeLua"
proof -
  have "(m_Current m, st) \<in> set (m_States m)"
    using assms(2) by (auto simp: CurrentState_def stateOf_def dest: map_of_SomeD)
  with assms show ?thesis by (fastforce simp: lua_free_def list_all_iff)
qed

lemma lua_free_skeleton: "lua_free (skeleton m) = lua_free m"
  by (simp add: lua_free_def skeleton_def list_all_iff split_def)

lemma lua_free_cong: "skeleton m' = skeleton m \<Longrightarrow> lua_free m' = lua_free m"
  by (metis lua_free_skeleton)

lemma lua_free_stepped [simp]: "lua_free (stepped f m) = lua_free m"
  by (simp add: lua_free_def)

locale target_search = trigger_search +
  assumes names_target: "test trg m = Inr ((ok, tgt), m') \<Longrightarrow> tgt = [] \<or> e_Rule trg = TriggerTypeLua"
begin

lemma lua_free_target:
  assumes "wf_machine m" "lua_free m" "searchTransition test m = Inr (Some f, m')"
  shows "f_Target f \<in> set (map fst (m_States m))"
proof -
  obtain st i trg m1 tgt where st: "CurrentState m = Some st" "i < length (s_Transitions st)"
    and f: "f = withNewTarget (StatePlace (m_Current m) i) (t_Target (s_Transitions st ! i)) tgt"
    and trg: "t_Trigger (s_Transitions st ! i) = Some trg"
    and t: "test trg m1 = Inr ((True, tgt), m')"
    using search_test [OF assms(3)] by blast
  from lua_freeD [OF assms(2) st(1) nth_mem [OF st(2)] trg] names_target [OF t] have "tgt = []" by blast
  moreover from st have "t_Target (s_Transitions st ! i) \<in> set (map fst (m_States m))"
    by (intro wf_machine_transition(2) [OF assms(1)]) (auto simp: CurrentState_def)
  ultimately show ?thesis by (simp add: f withNewTarget_def)
qed

end

interpretation status_target: target_search "statusTest env status" for env status
  by unfold_locales (rule statusTest_target)

interpretation backend_target: target_search "backendTest env dat" for env dat
  by unfold_locales (rule backendTest_target)

interpretation question_target: target_search "questionTest env q" for env q
  by unfold_locales (auto dest: questionTest_target)

interpretation hook_target: target_search hookTest
  by unfold_locales (simp add: hookTest_def)

interpretation step_target: target_search stepTest
  by unfold_locales (simp add: stepTest_def)

end
