(* ===== verification/Fsm_Init.thy ===== *)
theory Fsm_Init
  imports Fsm_Step
begin

text \<open>
  \<open>Initialize\<close>: what a machine that comes from a file looks like after it, which machines it refuses
  and that a closed machine becomes a well-formed one.
\<close>

subsection \<open>Sequences that may fail\<close>

lemma bindE_simps [simp]:
  "bindE (Inl p) f = Inl p" "bindE (Inr (Inl e)) f = Inr (Inl e)" "bindE (Inr (Inr x)) f = f x"
  by (simp_all add: bindE_def)

lemma bindE_ok: "bindE m f = Inr (Inr y) \<longleftrightarrow> (\<exists>x. m = Inr (Inr x) \<and> f x = Inr (Inr y))"
  by (auto simp: bindE_def bindG_def split: sum.splits)

lemma bindE_err: "bindE m f = Inr (Inl e) \<longleftrightarrow> m = Inr (Inl e) \<or> (\<exists>x. m = Inr (Inr x) \<and> f x = Inr (Inl e))"
  by (auto simp: bindE_def bindG_def split: sum.splits)

lemma mapE_ok: "mapE f xs = Inr (Inr ys) \<longleftrightarrow> list_all2 (\<lambda>x y. f x = Inr (Inr y)) xs ys"
proof (induction xs arbitrary: ys)
  case (Cons x xs)
  then show ?case by (cases ys) (auto simp: bindE_ok)
qed (auto simp: eq_commute)

lemma mapE_err: "mapE f xs = Inr (Inl e) \<Longrightarrow> \<exists>x \<in> set xs. f x = Inr (Inl e)"
  by (induction xs) (auto simp: bindE_err)

lemma mapE_total: "(\<And>x. x \<in> set xs \<Longrightarrow> \<exists>y. f x = Inr (Inr y)) \<Longrightarrow> \<exists>ys. mapE f xs = Inr (Inr ys)"
proof (induction xs)
  case (Cons x xs)
  then obtain y ys where "f x = Inr (Inr y)" "mapE f xs = Inr (Inr ys)" by fastforce
  then show ?case by simp
qed simp

subsection \<open>Resolved events\<close>

text \<open>What \<open>Initialize\<close> computes for every event of a state.\<close>

definition resolved :: "Event \<Rightarrow> Event \<Rightarrow> bool" where
  "resolved e e' \<longleftrightarrow> e_Protocol e' = e_Protocol e \<and> e_TypeID e' = e_TypeID e \<and> e_Rule e' = e_Rule e \<and>
     e_NoEcho e' = e_NoEcho e \<and>
     e_ProtocolType e' = ProtocolType (e_Protocol e) \<and>
     e_NotificationType e' = NotificationTypeID (e_TypeID e)"

definition wantsStatus :: "Event \<Rightarrow> bool" where
  "wantsStatus e \<longleftrightarrow> e_ProtocolType e \<in> {Protocol_ISSUE_CREDENTIAL, Protocol_PRESENT_PROOF}"

lemma Event_filterEnvs_frame:
  assumes "Event_filterEnvs env e = Inr e'"
  shows "\<exists>d x. e' = e\<lparr>e_EventData := d, e_Data := x\<rparr>"
proof -
  have self: "\<exists>d x. e = e\<lparr>e_EventData := d, e_Data := x\<rparr>"
    by (intro exI [of _ "e_EventData e"] exI [of _ "e_Data e"]) simp
  show ?thesis
    using assms self unfolding Event_filterEnvs_def
    by (cases "e_ProtocolType e = Protocol_ISSUE_CREDENTIAL";
        cases "e_ProtocolType e = Protocol_PRESENT_PROOF") auto
qed

lemma resolveEvent_filter:
  assumes "Event_filterEnvs env (resolveEvent e) = Inr e'"
  shows "resolved e e'"
proof -
  from Event_filterEnvs_frame [OF assms] obtain d x where
    "e' = (resolveEvent e)\<lparr>e_EventData := d, e_Data := x\<rparr>" by blast
  then show ?thesis by (simp add: resolved_def resolveEvent_def)
qed

lemma initSend_ok:
  assumes "initSend env s = Inr (Inr s')"
  shows "resolved s s' \<and> e_WantStatus s' = wantsStatus s'"
proof -
  from assms obtain s1 where "Event_filterEnvs env (resolveEvent s) = Inr s1" "s' = setSendDefs s1"
    by (auto simp: initSend_def split: if_split_asm)
  with resolveEvent_filter [of env s s1] show ?thesis
    by (simp add: setSendDefs_def resolved_def wantsStatus_def)
qed

lemma initSend_err: "initSend env s = Inr (Inl e) \<Longrightarrow> e = BadFormat (e_Data s) \<and> e_Protocol s = MessageIssueCred"
  by (auto simp: initSend_def split: if_split_asm)

definition initialised :: "Transition \<Rightarrow> Transition \<Rightarrow> bool" where
  "initialised t t' \<longleftrightarrow> t_Target t' = t_Target t \<and>
     (\<exists>trg trg'. t_Trigger t = Some trg \<and> t_Trigger t' = Some trg' \<and> resolved trg trg') \<and>
     list_all2 (\<lambda>s s'. resolved s s' \<and> e_WantStatus s' = wantsStatus s') (t_Sends t) (t_Sends t')"

lemma initTransition_ok:
  assumes "initTransition env t = Inr (Inr t')"
  shows "initialised t t'"
proof -
  from assms obtain trg trg' ss where t: "t_Trigger t = Some trg"
    "Event_filterEnvs env (resolveEvent trg) = Inr trg'"
    "list_all2 (\<lambda>x y. initSend env x = Inr (Inr y)) (t_Sends t) ss"
    "t' = t\<lparr>t_Trigger := Some trg', t_Sends := ss\<rparr>"
    by (auto simp: initTransition_def bindE_ok mapE_ok)
  from t(3) have "list_all2 (\<lambda>s s'. resolved s s' \<and> e_WantStatus s' = wantsStatus s') (t_Sends t) ss"
    by (rule list_all2_mono) (blast dest: initSend_ok)
  with t resolveEvent_filter [OF t(2)] show ?thesis by (simp add: initialised_def)
qed

lemma initTransition_err:
  "initTransition env t = Inr (Inl e) \<Longrightarrow>
   \<exists>s \<in> set (t_Sends t). e = BadFormat (e_Data s) \<and> e_Protocol s = MessageIssueCred"
  by (auto simp: initTransition_def bindE_err dest!: mapE_err initSend_err)

subsection \<open>The loop over the states\<close>

definition initialisedState :: "string \<times> State \<Rightarrow> string \<times> State \<Rightarrow> bool" where
  "initialisedState ks ks' \<longleftrightarrow> fst ks' = fst ks \<and> s_Terminate (snd ks') = s_Terminate (snd ks) \<and>
     list_all2 initialised (s_Transitions (snd ks)) (s_Transitions (snd ks'))"

lemma initStates_ok:
  assumes "initStates env initial sts cur b = Inr (Inr (sts', cur'))"
  shows "list_all2 initialisedState sts sts' \<and> (sts \<noteq> [] \<longrightarrow> initial \<noteq> None) \<and>
    cur' = (case initial of None \<Rightarrow> cur
            | Some t0 \<Rightarrow> if t_Target t0 \<in> set (map fst sts) then t_Target t0 else cur)"
  using assms
proof (induction env initial sts cur b arbitrary: sts' cur' rule: initStates.induct)
  case (1 env initial cur b)
  then show ?case by (auto split: option.split)
next
  case (2 env initial sid st rest cur b)
  from "2.prems" obtain ts where ts: "mapE (initTransition env) (s_Transitions st) = Inr (Inr ts)"
    by (auto simp: bindE_ok)
  then have tr: "list_all2 initialised (s_Transitions st) ts"
    by (auto simp: mapE_ok intro: list_all2_mono dest: initTransition_ok)
  from "2.prems" ts obtain t0 where t0: "initial = Some t0" by (cases initial) auto
  show ?case
  proof (cases "sid = t_Target t0")
    case True
    with "2.prems" ts t0 obtain sts1 where
      "initStates env initial rest (t_Target t0) True = Inr (Inr (sts1, cur'))"
      "sts' = (sid, st\<lparr>s_Transitions := ts\<rparr>) # sts1" "\<not> b"
      by (auto simp: bindE_ok split: if_split_asm)
    with "2.IH"(1) [OF t0 _ True] True t0 tr show ?thesis
      by (auto simp: initialisedState_def)
  next
    case False
    with "2.prems" ts t0 obtain sts1 where
      "initStates env initial rest cur b = Inr (Inr (sts1, cur'))"
      "sts' = (sid, st\<lparr>s_Transitions := ts\<rparr>) # sts1"
      by (auto simp: bindE_ok split: if_split_asm)
    with "2.IH"(2) [OF t0 _ False] False t0 tr show ?thesis
      by (auto simp: initialisedState_def)
  qed
qed

text \<open>The keys of a Go map are distinct, so the error about several initial states cannot arise.\<close>

lemma initStates_not_multiple:
  "distinct (map fst sts) \<Longrightarrow>
   (b \<longrightarrow> (case initial of None \<Rightarrow> True | Some t0 \<Rightarrow> t_Target t0 \<notin> set (map fst sts))) \<Longrightarrow>
   initStates env initial sts cur b \<noteq> Inr (Inl MultipleInitialStates)"
proof (induction env initial sts cur b rule: initStates.induct)
  case (2 env initial sid st rest cur b)
  have nt: "mapE (initTransition env) (s_Transitions st) \<noteq> Inr (Inl MultipleInitialStates)"
    by (auto dest!: mapE_err initTransition_err)
  show ?case
  proof (cases initial)
    case None
    with nt show ?thesis by (auto simp: bindE_err)
  next
    case (Some t0)
    show ?thesis
    proof (cases "sid = t_Target t0")
      case True
      with "2.prems" Some have "\<not> b" by auto
      with True "2.prems" Some nt "2.IH"(1) [OF Some] show ?thesis by (auto simp: bindE_err)
    next
      case False
      with "2.prems" Some nt "2.IH"(2) [OF Some] show ?thesis by (auto simp: bindE_err)
    qed
  qed
qed simp

subsection \<open>The whole machine\<close>

definition initialisedMachine :: "Machine \<Rightarrow> Machine \<Rightarrow> bool" where
  "initialisedMachine m m' \<longleftrightarrow>
     m_Initialized m' \<and> m_Memory m' = Map.empty \<and> m_luaState m' = m_luaState m \<and>
     m_Type m' = (if m_Type m = MachineTypeNone then MachineTypeConversation else m_Type m) \<and>
     (\<exists>t0 t0'. m_Initial m = Some t0 \<and> m_Initial m' = Some t0' \<and> t_Target t0' = t_Target t0 \<and>
        t_Sends t0' = map initInitialSend (t_Sends t0) \<and>
        m_Current m' = (if t_Target t0 \<in> set (map fst (m_States m)) then t_Target t0 else m_Current m)) \<and>
     list_all2 initialisedState (m_States m) (m_States m')"

lemma Initialize_initialised:
  assumes "Initialize env m = Inr (Inr m')"
  shows "initialisedMachine m m'"
proof -
  from assms obtain sts cur t0 where
    st: "initStates env (m_Initial m) (m_States m) (m_Current m) False = Inr (Inr (sts, cur))" and
    t0: "m_Initial m = Some t0" and
    m': "m' = m\<lparr>m_Type := (if m_Type m = MachineTypeNone then MachineTypeConversation else m_Type m),
        m_Memory := Map.empty, m_States := sts, m_Current := cur,
        m_Initial := Some (t0\<lparr>t_Sends := map initInitialSend (t_Sends t0)\<rparr>), m_Initialized := True\<rparr>"
    by (auto simp: Initialize_def Let_def bindE_ok)
  from initStates_ok [OF st] t0 show ?thesis by (simp add: initialisedMachine_def m')
qed

lemma list_all2_initialisedState_keys:
  "list_all2 initialisedState sts sts' \<Longrightarrow> map fst sts' = map fst sts"
  by (induction rule: list_all2_induct) (auto simp: initialisedState_def)

lemma initialisedMachine_keys: "initialisedMachine m m' \<Longrightarrow> map fst (m_States m') = map fst (m_States m)"
  by (simp add: initialisedMachine_def list_all2_initialisedState_keys)

text \<open>A machine of a file is closed when its targets name states.\<close>

definition closed_machine :: "Machine \<Rightarrow> bool" where
  "closed_machine m \<longleftrightarrow>
     (case m_Initial m of None \<Rightarrow> False | Some t0 \<Rightarrow> t_Target t0 \<in> set (map fst (m_States m))) \<and>
     distinct (map fst (m_States m)) \<and>
     list_all (\<lambda>(k, s). list_all (\<lambda>t. t_Trigger t \<noteq> None \<and>
        t_Target t \<in> set (map fst (m_States m))) (s_Transitions s)) (m_States m)"

lemma initialised_targets:
  assumes "list_all2 initialisedState sts sts'"
    "list_all (\<lambda>(k, s). list_all (\<lambda>t. t_Trigger t \<noteq> None \<and> t_Target t \<in> K) (s_Transitions s)) sts"
  shows "list_all (\<lambda>(k, s). list_all (\<lambda>t. t_Trigger t \<noteq> None \<and> t_Target t \<in> K) (s_Transitions s)) sts'"
  using assms
proof (induction rule: list_all2_induct)
  case (Cons x xs y ys)
  have "list_all2 initialised ts ts' \<Longrightarrow> list_all (\<lambda>t. t_Target t \<in> K) ts \<Longrightarrow>
      list_all (\<lambda>t. t_Trigger t \<noteq> None \<and> t_Target t \<in> K) ts'" for ts ts'
    by (induction rule: list_all2_induct) (auto simp: initialised_def)
  moreover from Cons have "list_all2 initialised (s_Transitions (snd x)) (s_Transitions (snd y))"
    by (simp add: initialisedState_def)
  moreover from Cons.prems have "list_all (\<lambda>t. t_Target t \<in> K) (s_Transitions (snd x))"
    by (auto simp: list_all_iff)
  ultimately show ?case using Cons by (simp add: split_def)
qed simp

lemma Initialize_wf:
  assumes "closed_machine m" "Initialize env m = Inr (Inr m')"
  shows "wf_machine m'"
proof -
  note i = Initialize_initialised [OF assms(2)]
  note k = initialisedMachine_keys [OF i]
  from i obtain t0 t0' where t: "m_Initial m = Some t0" "m_Initial m' = Some t0'"
    "t_Target t0' = t_Target t0"
    "m_Current m' = (if t_Target t0 \<in> set (map fst (m_States m)) then t_Target t0 else m_Current m)"
    by (auto simp: initialisedMachine_def)
  have l: "list_all (\<lambda>(k, s). list_all (\<lambda>t. t_Trigger t \<noteq> None \<and>
      t_Target t \<in> set (map fst (m_States m))) (s_Transitions s)) (m_States m')"
    by (rule initialised_targets [of "m_States m"]) (use i assms in \<open>simp_all add: initialisedMachine_def closed_machine_def\<close>)
  from assms(1) t have "t_Target t0 \<in> set (map fst (m_States m))" "distinct (map fst (m_States m))"
    by (simp_all add: closed_machine_def)
  with t k l show ?thesis by (simp add: wf_machine_def)
qed

lemma Initialize_not_multiple:
  assumes "distinct (map fst (m_States m))"
  shows "Initialize env m \<noteq> Inr (Inl MultipleInitialStates)"
proof
  assume "Initialize env m = Inr (Inl MultipleInitialStates)"
  then have "initStates env (m_Initial m) (m_States m) (m_Current m) False = Inr (Inl MultipleInitialStates)"
    by (auto simp: Initialize_def Let_def bindE_err)
  with initStates_not_multiple [OF assms] show False by blast
qed

subsection \<open>Machines that initialise\<close>

text \<open>No text of the machine holds a link and every \<open>issue_cred\<close> event has its credential.\<close>

definition noLink :: "Event \<Rightarrow> bool" where
  "noLink e \<longleftrightarrow> \<not> contains (e_Data e) ''${'' \<and>
     (case e_EventData e of None \<Rightarrow> True
      | Some d \<Rightarrow> (case ed_Issuing d of None \<Rightarrow> True | Some i \<Rightarrow> \<not> contains (is_CredDefID i) ''${'') \<and>
          (case ed_Proof d of None \<Rightarrow> True | Some p \<Rightarrow> \<not> contains p ''${''))"

definition plainSend :: "Event \<Rightarrow> bool" where
  "plainSend e \<longleftrightarrow> noLink e \<and> (e_Protocol e = MessageIssueCred \<longrightarrow>
     (case e_EventData e of None \<Rightarrow> False | Some d \<Rightarrow> ed_Issuing d \<noteq> None))"

definition plainTransition :: "Transition \<Rightarrow> bool" where
  "plainTransition t \<longleftrightarrow>
     (case t_Trigger t of None \<Rightarrow> False | Some trg \<Rightarrow> noLink trg) \<and> list_all plainSend (t_Sends t)"

definition plain_machine :: "Machine \<Rightarrow> bool" where
  "plain_machine m \<longleftrightarrow> list_all (\<lambda>(k, s). list_all plainTransition (s_Transitions s)) (m_States m)"

lemma filterEnvs_id: "\<not> contains s ''${'' \<Longrightarrow> filterEnvs env s = Inr s"
  using filterLink_no_link [of s "''$''"] by (simp add: filterEnvs_def)

lemma Event_filterEnvs_id:
  assumes "noLink e"
  shows "Event_filterEnvs env e = Inr e"
proof (cases "e_EventData e")
  case None
  with assms show ?thesis by (simp add: Event_filterEnvs_def noLink_def filterEnvs_id)
next
  case (Some d)
  with assms show ?thesis
    by (cases "ed_Issuing d"; cases "ed_Proof d")
      (simp_all add: Event_filterEnvs_def noLink_def filterEnvs_id)
qed

lemma noLink_resolveEvent [simp]: "noLink (resolveEvent e) = noLink e"
  by (simp add: noLink_def resolveEvent_def)

lemma initSend_plain: "plainSend e \<Longrightarrow> initSend env e = Inr (Inr (setSendDefs (resolveEvent e)))"
  by (auto simp: initSend_def plainSend_def Event_filterEnvs_id split: option.splits)

lemma initTransition_plain:
  assumes "plainTransition t"
  shows "\<exists>t'. initTransition env t = Inr (Inr t')"
proof -
  from assms obtain trg where "t_Trigger t = Some trg" "noLink trg"
    by (auto simp: plainTransition_def split: option.splits)
  moreover have "\<exists>ss. mapE (initSend env) (t_Sends t) = Inr (Inr ss)"
    by (rule mapE_total) (use assms in \<open>auto simp: plainTransition_def list_all_iff initSend_plain\<close>)
  ultimately show ?thesis by (auto simp: initTransition_def Event_filterEnvs_id)
qed

lemma initStates_plain:
  "list_all (\<lambda>(k, s). list_all plainTransition (s_Transitions s)) sts \<Longrightarrow> distinct (map fst sts) \<Longrightarrow>
   (b \<longrightarrow> t_Target t0 \<notin> set (map fst sts)) \<Longrightarrow>
   \<exists>r. initStates env (Some t0) sts cur b = Inr (Inr r)"
proof (induction env "Some t0" sts cur b rule: initStates.induct)
  case (2 env sid st rest cur b)
  have "\<exists>ts. mapE (initTransition env) (s_Transitions st) = Inr (Inr ts)"
    by (rule mapE_total) (use "2.prems" in \<open>auto simp: list_all_iff intro: initTransition_plain\<close>)
  then obtain ts where ts: "mapE (initTransition env) (s_Transitions st) = Inr (Inr ts)" by blast
  show ?case
  proof (cases "sid = t_Target t0")
    case True
    with "2.hyps"(1) [OF refl _ True] "2.prems" ts show ?thesis by auto
  next
    case False
    with "2.hyps"(2) [OF refl _ False] "2.prems" ts show ?thesis by auto
  qed
qed simp

lemma Initialize_plain:
  assumes "closed_machine m" "plain_machine m"
  shows "\<exists>m'. Initialize env m = Inr (Inr m')"
proof -
  from assms(1) obtain t0 where t0: "m_Initial m = Some t0"
    by (auto simp: closed_machine_def split: option.splits)
  have "\<exists>r. initStates env (Some t0) (m_States m) (m_Current m) False = Inr (Inr r)"
    by (rule initStates_plain) (use assms in \<open>simp_all add: closed_machine_def plain_machine_def\<close>)
  with t0 show ?thesis by (auto simp: Initialize_def Let_def)
qed

end
