(* ===== verification/Fsm_Rules.thy ===== *)
theory Fsm_Rules
  imports Fsm_Init
begin

text \<open>
  What the rules of the file format mean: the two rules for a presented proof, the PIN rule, the
  Lua rule and its registers, and the rules for a basic message as a predicate that the search
  for a transition applies in order.
\<close>

subsection \<open>Presented proofs\<close>

definition presented :: "Attribute list \<Rightarrow> ProofAttr \<Rightarrow> bool" where
  "presented attrs v \<longleftrightarrow> (\<exists>a \<in> set attrs. at_Name a = pa_Name v \<and> at_CredDefID a = pa_CredDefID v)"

lemma markFound_Cons:
  "markFound (a # attrs) vals = markFound attrs
     (map (\<lambda>v. if pa_Name v = at_Name a \<and> pa_CredDefID v = at_CredDefID a
        then v\<lparr>pa_found := True\<rparr> else v) vals)"
  by (simp add: markFound_def)

lemma markFound_map:
  "markFound attrs vals = map (\<lambda>v. if presented attrs v then v\<lparr>pa_found := True\<rparr> else v) vals"
proof (induction attrs arbitrary: vals)
  case Nil
  then show ?case by (simp add: markFound_def presented_def)
next
  case (Cons a attrs)
  show ?case
    by (auto simp: markFound_Cons Cons.IH presented_def)
qed

lemma not_found_ex:
  "list_ex (\<lambda>v. \<not> pa_found v) (markFound attrs (map (\<lambda>v. v\<lparr>pa_found := False\<rparr>) vals)) \<longleftrightarrow>
   (\<exists>v \<in> set vals. \<not> presented attrs v)"
  unfolding markFound_map map_map comp_def list_ex_iff
  by (auto simp: presented_def) force

text \<open>The count of \<open>ACCEPT_AND_INPUT_VALUES\<close> and the registers it writes.\<close>

definition nameCount :: "ProofAttr list \<Rightarrow> Attribute \<Rightarrow> nat" where
  "nameCount vals a = length (filter (\<lambda>v. pa_Name v = at_Name a) vals)"

lemma acceptAttr_fst: "fst (acceptAttr a vals cm) = fst cm + nameCount vals a"
proof (induction a vals cm rule: acceptAttr.induct)
  case (2 a v vs c mem)
  then show ?case by (simp add: nameCount_def)
qed (simp add: nameCount_def)

lemma acceptAttrs_fst: "fst (acceptAttrs attrs vals cm) = fst cm + (\<Sum>a\<leftarrow>attrs. nameCount vals a)"
  by (induction attrs vals cm rule: acceptAttrs.induct) (simp_all add: acceptAttr_fst)

lemma acceptAttr_snd:
  "snd (acceptAttr a vals cm) =
     (if at_Name a \<in> pa_Name ` set vals then (snd cm)(at_Name a \<mapsto> at_Value a) else snd cm)"
  by (induction a vals cm rule: acceptAttr.induct) auto

definition acceptedValues :: "Attribute list \<Rightarrow> ProofAttr list \<Rightarrow> memory \<Rightarrow> memory" where
  "acceptedValues attrs vals mem =
     foldl (\<lambda>m a. if at_Name a \<in> pa_Name ` set vals then m(at_Name a \<mapsto> at_Value a) else m) mem attrs"

lemma acceptAttrs_snd: "snd (acceptAttrs attrs vals cm) = acceptedValues attrs vals (snd cm)"
  by (induction attrs vals cm rule: acceptAttrs.induct) (simp_all add: acceptAttr_snd acceptedValues_def)

lemma nameCount_found [simp]: "nameCount (map (\<lambda>v. v\<lparr>pa_found := b\<rparr>) vals) a = nameCount vals a"
  by (simp add: nameCount_def filter_map comp_def)

lemma acceptedValues_found [simp]:
  "acceptedValues attrs (map (\<lambda>v. v\<lparr>pa_found := b\<rparr>) vals) mem = acceptedValues attrs vals mem"
  by (simp add: acceptedValues_def image_image)

lemma Answers_not_accept:
  assumes "q_TypeID q = Question_PROOF_VERIFY_WAITS" "e_ProtocolType e = Protocol_PRESENT_PROOF"
    and "unmarshalProofAttrs env (e_Data e) = Some vals" "q_ProofVerify q = Some attrs"
    and "e_Rule e = TriggerTypeNotAcceptValues"
  shows "Event_Answers env e q m =
    Inr (length vals \<noteq> length attrs \<or> (\<exists>v \<in> set vals. \<not> presented attrs v), m)"
  using assms by (simp add: Event_Answers_def Let_def not_found_ex)

lemma Answers_accept:
  assumes "q_TypeID q = Question_PROOF_VERIFY_WAITS" "e_ProtocolType e = Protocol_PRESENT_PROOF"
    and "unmarshalProofAttrs env (e_Data e) = Some vals" "q_ProofVerify q = Some attrs"
    and "e_Rule e = TriggerTypeAcceptAndInputValues"
  shows "Event_Answers env e q m =
    Inr ((\<Sum>a\<leftarrow>attrs. nameCount vals a) = length attrs,
         m\<lparr>m_Memory := acceptedValues attrs vals (m_Memory m)\<rparr>)"
proof -
  have "TriggerTypeAcceptAndInputValues \<noteq> TriggerTypeNotAcceptValues" by (simp add: go_consts)
  then show ?thesis
    using assms acceptAttrs_fst [of attrs "map (\<lambda>v. v\<lparr>pa_found := False\<rparr>) vals" "(0, m_Memory m)"]
      acceptAttrs_snd [of attrs "map (\<lambda>v. v\<lparr>pa_found := False\<rparr>) vals" "(0, m_Memory m)"]
    by (simp add: Event_Answers_def Let_def split_def)
qed

text \<open>With distinct names in the trigger, the count is reached when every name was asked for.\<close>

lemma nameCount_distinct:
  assumes "distinct (map pa_Name vals)"
  shows "nameCount vals a = (if at_Name a \<in> pa_Name ` set vals then 1 else 0)"
  using assms unfolding nameCount_def
proof (induction vals)
  case (Cons v vs)
  then show ?case by auto
qed simp

lemma accept_sum_distinct:
  assumes "distinct (map pa_Name vals)"
  shows "(\<Sum>a\<leftarrow>attrs. nameCount vals a) = length attrs \<longleftrightarrow> at_Name ` set attrs \<subseteq> pa_Name ` set vals"
proof -
  have le: "(\<Sum>a\<leftarrow>as. nameCount vals a) \<le> length as" for as
    by (induction as) (auto simp: nameCount_distinct [OF assms])
  have "(\<Sum>a\<leftarrow>as. nameCount vals a) = length as \<longleftrightarrow> at_Name ` set as \<subseteq> pa_Name ` set vals" for as
  proof (induction as)
    case (Cons a as)
    with le [of as] show ?case by (auto simp: nameCount_distinct [OF assms])
  qed simp
  then show ?thesis .
qed

text \<open>Only the asked registers change, and the last value presented under a name wins.\<close>

lemma acceptedValues_other:
  "k \<notin> at_Name ` set attrs \<or> k \<notin> pa_Name ` set vals \<Longrightarrow> acceptedValues attrs vals mem k = mem k"
  unfolding acceptedValues_def by (induction attrs arbitrary: mem) auto

lemma acceptedValues_last:
  "k \<in> pa_Name ` set vals \<Longrightarrow> a \<in> set attrs \<Longrightarrow> at_Name a = k \<Longrightarrow> distinct (map at_Name attrs) \<Longrightarrow>
   acceptedValues attrs vals mem k = Some (at_Value a)"
proof (induction attrs arbitrary: mem)
  case (Cons b attrs)
  show ?case
  proof (cases "a = b")
    case True
    with Cons.prems have "k \<notin> at_Name ` set attrs" by auto
    with acceptedValues_other [of k attrs vals] True Cons.prems show ?thesis
      by (simp add: acceptedValues_def)
  next
    case False
    with Cons.prems Cons.IH show ?thesis by (simp add: acceptedValues_def)
  qed
qed simp

subsection \<open>The PIN\<close>

text \<open>\<open>rand.Intn\<close> draws below its argument, as the package documents.\<close>

definition draws_below :: "env \<Rightarrow> bool" where
  "draws_below env \<longleftrightarrow> (\<forall>i n. 0 < n \<longrightarrow> 0 \<le> randIntn env i n \<and> randIntn env i n < n)"

lemma pin_bounds:
  assumes "draws_below env"
  shows "10 ^ k \<le> pin env draw (Suc k) \<and> pin env draw (Suc k) < 10 ^ Suc k"
proof -
  have "(0::int) < 10 ^ Suc k - 10 ^ k" by simp
  with assms have "0 \<le> randIntn env draw (10 ^ Suc k - 10 ^ k)"
    "randIntn env draw (10 ^ Suc k - 10 ^ k) < 10 ^ Suc k - 10 ^ k"
    unfolding draws_below_def by blast+
  then show ?thesis by (simp add: pin_def Let_def)
qed

lemma pin_digits: "draws_below env \<Longrightarrow> length (decimal (pin env draw (Suc k))) = Suc k"
  using pin_bounds length_decimal by blast

subsection \<open>Lua\<close>

text \<open>
  A trigger script answers through two registers, which the program never clears. A script that
  runs and sets neither answers with what an earlier script left there.
\<close>

lemma ExecLua_silent:
  assumes "m_luaState m = Some h" "filterFilelink env (e_Data e) = Inr script"
    and "luaDo env h script ((m_Memory m)(LUA_INPUT \<mapsto> content)) = ([], True)"
    and "m_Memory m LUA_OUTPUT = Some out"
  shows "fst (ExecLua env e content [] m) =
    (out, mget (m_Memory m) LUA_TARGET, out = LUA_OK)"
proof -
  have ne: "LUA_OUTPUT \<noteq> LUA_INPUT" "LUA_TARGET \<noteq> LUA_INPUT" "LUA_OK \<noteq> LUA_ALL_OK"
    by (simp_all add: go_consts)
  then have "mget ((m_Memory m)(LUA_INPUT \<mapsto> content)) LUA_OUTPUT = out"
    "mget ((m_Memory m)(LUA_INPUT \<mapsto> content)) LUA_TARGET = mget (m_Memory m) LUA_TARGET"
    using assms(4) by (simp_all add: mget_def)
  with ne assms show ?thesis
    by (auto simp: ExecLua_def Let_def DoString_def)
qed

text \<open>A script that fails, or a machine without an interpreter, never triggers.\<close>

lemma ExecLua_fails:
  assumes "m_luaState m = None \<or> (\<exists>h script. m_luaState m = Some h \<and>
    filterFilelink env (e_Data e) = Inr script \<and>
    \<not> snd (luaDo env h script ((m_Memory m)(LUA_INPUT \<mapsto> content))))"
  shows "fst (ExecLua env e content a m) = ([], [], False)"
  using assms
  by (cases "filterFilelink env (e_Data e)") (auto simp: ExecLua_def Let_def DoString_def split_def)

subsection \<open>Basic messages\<close>

text \<open>The rules for a basic message that do not run a script.\<close>

definition messageEnabled :: "string \<Rightarrow> Event \<Rightarrow> memory \<Rightarrow> bool" where
  "messageEnabled content e mem \<longleftrightarrow>
     (if e_Rule e = TriggerTypeValidateInputNotEqual then mget mem (e_Data e) \<noteq> content
      else if e_Rule e = TriggerTypeValidateInputEqual then mget mem (e_Data e) = content
      else if e_Rule e = TriggerTypeInputEqual then content = e_Data e
      else e_Rule e \<in> {TriggerTypeData, TriggerTypeUseInput, TriggerTypeUseInputSave,
             TriggerTypeTransient, TriggerTypeUseInputSaveConnID, TriggerTypeUseInputSaveSessionID})"

definition statusEnabled :: "ProtocolStatus \<Rightarrow> Event \<Rightarrow> memory \<Rightarrow> bool" where
  "statusEnabled s e mem \<longleftrightarrow>
     (case statusTypeID (Some s) of
        Inl _ \<Rightarrow> False
      | Inr ty \<Rightarrow> e_ProtocolType e = ty \<and>
          (ty \<in> {Protocol_ISSUE_CREDENTIAL, Protocol_DIDEXCHANGE, Protocol_PRESENT_PROOF} \<or>
           (ty = Protocol_BASIC_MESSAGE \<and>
            (case ps_BasicMessage s of None \<Rightarrow> False | Some c \<Rightarrow> messageEnabled c e mem))))"

lemma statusTest_pure:
  assumes "status_ok s" "e_Rule trg \<noteq> TriggerTypeLua"
  shows "statusTest env (Some s) trg m = Inr ((statusEnabled s trg (m_Memory m), []), m)"
proof -
  obtain ty where ty: "statusTypeID (Some s) = Inr ty"
    "ty = Protocol_BASIC_MESSAGE \<longrightarrow> (\<exists>c. GetBasicMessage (Some s) = Some c)"
    using status_ok_type [OF assms(1)] by blast
  have d: "Protocol_BASIC_MESSAGE \<notin> {Protocol_ISSUE_CREDENTIAL, Protocol_DIDEXCHANGE, Protocol_PRESENT_PROOF}"
    by (simp add: go_consts)
  show ?thesis
  proof (cases "ty = Protocol_BASIC_MESSAGE")
    case True
    with ty obtain c where c: "ps_BasicMessage s = Some c" by (auto simp: GetBasicMessage_def)
    with True d ty assms(2) show ?thesis
      by (simp add: statusTest_def statusEnabled_def Event_Triggers_def GetBasicMessage_def
          messageEnabled_def)
  next
    case False
    with ty show ?thesis by (simp add: statusTest_def statusEnabled_def Event_Triggers_def)
  qed
qed

lemma firstTrigger_pure_on:
  assumes "\<forall>t \<in> set ts. \<exists>trg. t_Trigger t = Some trg \<and>
    test trg m = Inr ((enabled trg (m_Memory m), []), m)"
  shows "firstTrigger test i ts m =
    Inr (map_option (\<lambda>(j, target). (j, target, [])) (firstEnabled (\<lambda>trg. enabled trg (m_Memory m)) i ts), m)"
  using assms by (induction ts arbitrary: i) fastforce+

lemma Triggers_first:
  assumes "wf_machine m" "status_ok s" "CurrentState m = Some st"
    and "\<And>t trg. t \<in> set (s_Transitions st) \<Longrightarrow> t_Trigger t = Some trg \<Longrightarrow> e_Rule trg \<noteq> TriggerTypeLua"
  shows "Triggers env (Some s) m = Inr (firstFound (\<lambda>trg. statusEnabled s trg (m_Memory m)) m, m)"
proof -
  have "\<forall>t \<in> set (s_Transitions st). \<exists>trg. t_Trigger t = Some trg \<and>
      statusTest env (Some s) trg m = Inr ((statusEnabled s trg (m_Memory m), []), m)"
  proof
    fix t
    assume t: "t \<in> set (s_Transitions st)"
    with wf_machine_transition(1) [OF assms(1)] assms(3) obtain trg where "t_Trigger t = Some trg"
      by (fastforce simp: CurrentState_def)
    with assms(4) [OF t] statusTest_pure [OF assms(2)]
    show "\<exists>trg. t_Trigger t = Some trg \<and>
      statusTest env (Some s) trg m = Inr ((statusEnabled s trg (m_Memory m), []), m)" by blast
  qed
  from firstTrigger_pure_on [where enabled = "statusEnabled s" and test = "statusTest env (Some s)" and m = m, OF this] assms(3) show ?thesis
    by (simp add: Triggers_search searchTransition_def firstFound_def withNewTarget_def
        option.map_comp comp_def split_def)
qed

end
