(* ===== verification/Chat_Conversation.thy ===== *)
theory Chat_Conversation
  imports Fsm_Rules
begin

text \<open>
  One conversation of the chat bot (\<open>agency/client/chat/chat/chat.go\<close>): what it does with a status,
  a question, a message of the backend machine, a hook call and a transient step. A handler runs in
  two parts: it finds and builds what to send, which is computed here in one go since only the
  conversation's goroutine touches its machine, and then it sends event by event and steps the
  machine. Sends may block on a channel, so they are single steps of \<open>Chat_System\<close>.
\<close>

subsection \<open>State\<close>

text \<open>
  Where a conversation's goroutine is: not started, at the \<open>select\<close> of its loop, in \<open>send\<close> with the
  events still to send, the status they answer and the transition to step (none for the events of
  \<open>Start\<close>), or at the send on the termination channel.
\<close>

datatype conv_pc =
    CStart
  | CIdle
  | CSending "Event list" "AgentStatus option" "found option"
  | CSignal

text \<open>
  \<open>c_machine\<close> is nil until the goroutine runs. Backend messages are pointers into the heap. The two
  buffered channels are the lists of their elements.
\<close>

record Conversation =
  c_id :: string
  c_machine :: "Machine option"
  c_lastProtocolID :: "string set"
  c_BackendChan :: "nat option list"
  c_TransientChan :: "string list"
  c_pc :: conv_pc

definition newConversation :: "string \<Rightarrow> Conversation" where
  "newConversation connID = \<lparr>c_id = connID, c_machine = None, c_lastProtocolID = {},
     c_BackendChan = [], c_TransientChan = [], c_pc = CStart\<rparr>"

definition SetLastProtocolID :: "string \<Rightarrow> Conversation \<Rightarrow> Conversation" where
  "SetLastProtocolID pid c = c\<lparr>c_lastProtocolID := insert pid (c_lastProtocolID c)\<rparr>"

definition isOursAndRm :: "string \<Rightarrow> Conversation \<Rightarrow> bool \<times> Conversation" where
  "isOursAndRm pid c =
     (if pid \<in> c_lastProtocolID c
      then (True, c\<lparr>c_lastProtocolID := c_lastProtocolID c - {pid}\<rparr>)
      else (False, c))"

subsection \<open>Sending\<close>

text \<open>
  What an event makes a conversation send. The three requests to the agency carry whether the
  conversation wants their status; \<open>OReply\<close> has the id and client of the notification it answers.
\<close>

datatype outmsg =
    ONothing
  | OBasicMessage string bool
  | OIssue string string bool
  | OReqProof string bool
  | OBackend nat
  | OEmail Email
  | OReply string string bool
  | OHook hook_map
  | OTransient string

definition outputOf :: "AgentStatus option \<Rightarrow> Event \<Rightarrow> outmsg go" where
  "outputOf status e =
     (if e_ProtocolType e = Protocol_DIDEXCHANGE then Inr ONothing
      else if e_ProtocolType e = Protocol_BASIC_MESSAGE then
        (case e_EventData e of
           None \<Rightarrow> Inl AssertFailed
         | Some d \<Rightarrow> (case ed_BasicMessage d of
             None \<Rightarrow> Inl AssertFailed
           | Some content \<Rightarrow> Inr (OBasicMessage content (e_WantStatus e))))
      else if e_ProtocolType e = Protocol_ISSUE_CREDENTIAL then
        bindG (deref (e_EventData e)) (\<lambda>d. bindG (deref (ed_Issuing d)) (\<lambda>i.
        Inr (OIssue (is_CredDefID i) (is_AttrsJSON i) (e_WantStatus e))))
      else if e_ProtocolType e = Protocol_PRESENT_PROOF then
        bindG (deref (e_EventData e)) (\<lambda>d. bindG (deref (ed_Proof d)) (\<lambda>p.
        Inr (OReqProof p (e_WantStatus e))))
      else if e_ProtocolType e = BackendProtocol then
        bindG (deref (e_EventData e)) (\<lambda>d. bindG (deref (ed_Backend d)) (\<lambda>p. Inr (OBackend p)))
      else if e_ProtocolType e = EmailProtocol then
        bindG (deref (e_EventData e)) (\<lambda>d. bindG (deref (ed_Email d)) (\<lambda>m. Inr (OEmail m)))
      else if e_ProtocolType e = QAProtocol then
        (case status of
           None \<Rightarrow> Inl AssertFailed
         | Some s \<Rightarrow> Inr (OReply (n_ID (as_Notification s)) (as_ClientID s) (e_Data e = ''ACK'')))
      else if e_ProtocolType e = HookProtocol then
        bindG (deref (e_EventData e)) (\<lambda>d. bindG (deref (ed_Hook d)) (\<lambda>h. Inr (OHook h)))
      else if e_ProtocolType e = TransientProtocol then
        bindG (deref (e_EventData e)) (\<lambda>d. bindG (deref (ed_BasicMessage d)) (\<lambda>s.
        Inr (OTransient s)))
      else Inr ONothing)"

text \<open>The agency answers a request with the id of the protocol it started, \<open>r\<close>.\<close>

definition sendRequest :: "bool \<Rightarrow> string \<Rightarrow> Conversation \<Rightarrow> Conversation" where
  "sendRequest wantStatus r c = (if \<not> wantStatus then SetLastProtocolID r c else c)"

definition outputSets :: "outmsg \<Rightarrow> string \<Rightarrow> Conversation \<Rightarrow> Conversation" where
  "outputSets out r c =
     (case out of
        OBasicMessage _ w \<Rightarrow> sendRequest w r c
      | OIssue _ _ w \<Rightarrow> sendRequest w r c
      | OReqProof _ w \<Rightarrow> sendRequest w r c
      | _ \<Rightarrow> c)"

text \<open>\<open>sendBackend\<close> fills in a missing connection before it hands over the pointer.\<close>

definition fixConnID :: "string \<Rightarrow> nat \<Rightarrow> bheap \<Rightarrow> bheap" where
  "fixConnID cid p h = (if bd_ConnID (cells h p) = [] then hmod p (\<lambda>b. b\<lparr>bd_ConnID := cid\<rparr>) h else h)"

subsection \<open>Handlers up to the first send\<close>

type_synonym handled = "(Conversation \<times> bheap) go"

text \<open>The conversation goes back to its loop, or it starts to send what a build returned.\<close>

definition ignored :: "Conversation \<Rightarrow> Machine \<Rightarrow> bheap \<Rightarrow> handled" where
  "ignored c m h = Inr (c\<lparr>c_machine := Some m, c_pc := CIdle\<rparr>, h)"

definition reacting ::
  "Conversation \<Rightarrow> AgentStatus option \<Rightarrow> found option \<Rightarrow> built \<Rightarrow> handled" where
  "reacting c status f b =
     bindG b (\<lambda>(outs, m, h).
     Inr (c\<lparr>c_machine := Some m,
       c_pc := CSending (case outs of None \<Rightarrow> [] | Some es \<Rightarrow> es) status f\<rparr>, h))"

definition stepReceived :: "env \<Rightarrow> string \<Rightarrow> Conversation \<Rightarrow> bheap \<Rightarrow> handled" where
  "stepReceived env dat c h =
     bindG (deref (c_machine c)) (\<lambda>m.
     bindG (TriggersByStep m) (\<lambda>(r, m1).
     case r of
       None \<Rightarrow> ignored c m1 h
     | Some f \<Rightarrow> reacting c None (Some f) (BuildSendEventsFromStep env (f_place f) dat m1 h)))"

definition hookReceived :: "env \<Rightarrow> hook_map \<Rightarrow> Conversation \<Rightarrow> bheap \<Rightarrow> handled" where
  "hookReceived env dat c h =
     bindG (deref (c_machine c)) (\<lambda>m.
     bindG (TriggersByHook m) (\<lambda>(r, m1).
     case r of
       None \<Rightarrow> ignored c m1 h
     | Some f \<Rightarrow> reacting c None (Some f) (BuildSendEventsFromHook env (f_place f) dat m1 h)))"

definition conv_backendReceived :: "env \<Rightarrow> nat option \<Rightarrow> Conversation \<Rightarrow> bheap \<Rightarrow> handled" where
  "conv_backendReceived env dat c h0 =
     bindG (deref (c_machine c)) (\<lambda>m.
     bindG (deref dat) (\<lambda>p.
     let h = fixConnID (c_id c) p h0;
         d = cells h p;
         sessionID = m_Memory m LUA_SESSION_ID
     in if sessionID \<noteq> None \<and> sessionID \<noteq> Some (bd_SessionID d) then ignored c m h
        else if bd_NoEcho d \<and> c_id c = bd_ConnID d then ignored c m h
        else
          bindG (assertG (m_Type m = MachineTypeConversation)) (\<lambda>_.
          bindG (TriggersByBackendData env (Some d) m) (\<lambda>(r, m1).
          case r of
            None \<Rightarrow> ignored c m1 h
          | Some f \<Rightarrow>
              reacting c None (Some f) (BuildSendEventsFromBackendData env (f_place f) dat m1 h)))))"

definition questionReceived :: "env \<Rightarrow> Question \<Rightarrow> Conversation \<Rightarrow> bheap \<Rightarrow> handled" where
  "questionReceived env q c h =
     bindG (deref (c_machine c)) (\<lambda>m.
     if q_TypeID q = Question_PROOF_VERIFY_WAITS then
       bindG (Answers env q m) (\<lambda>(r, m1).
       case r of
         None \<Rightarrow> ignored c m1 h
       | Some f \<Rightarrow>
           reacting c (Some (q_Status q)) (Some f) (BuildSendAnswers env (f_place f) (q_Status q) m1 h))
     else ignored c m h)"

text \<open>\<open>status\<close> is what the agency returns for the notification, and \<open>None\<close> the error that
  \<open>getStatus\<close> throws; it is only asked for when the notification is not about an own message.\<close>

definition statusReceived ::
  "env \<Rightarrow> AgentStatus \<Rightarrow> ProtocolStatus option \<Rightarrow> Conversation \<Rightarrow> bheap \<Rightarrow> handled" where
  "statusReceived env as status c0 h =
     bindG (deref (c_machine c0)) (\<lambda>m.
     if n_TypeID (as_Notification as) = Notification_STATUS_UPDATE then
       (let (ours, c) = isOursAndRm (n_ProtocolID (as_Notification as)) c0 in
        if ours then ignored c m h
        else
          (case status of
             None \<Rightarrow> Inl ErrThrown
           | Some s \<Rightarrow>
               bindG (Triggers env (Some s) m) (\<lambda>(r, m1).
               case r of
                 None \<Rightarrow> ignored c m1 h
               | Some f \<Rightarrow>
                   bindG (deref (GetState (Some s))) (\<lambda>st.
                   if st_State st \<noteq> ProtocolState_OK then ignored c m1 h
                   else reacting c (Some as) (Some f)
                     (BuildSendEvents env (f_place f) (Some s) m1 h)))))
     else ignored c0 m h)"

text \<open>The beginning of \<open>Run\<close>, up to its loop. Both \<open>NewMachine\<close> and \<open>Initialize\<close> throw their error.\<close>

definition Run_start :: "env \<Rightarrow> codec \<Rightarrow> MachineData \<Rightarrow> Conversation \<Rightarrow> bheap \<Rightarrow> handled" where
  "Run_start env cd dat c h =
     bindG (NewMachine cd dat) (\<lambda>m0.
     bindG (Initialize env m0) (\<lambda>r.
     case r of
       Inl _ \<Rightarrow> Inl ErrThrown
     | Inr m1 \<Rightarrow>
         reacting c None None (Start env True (InitLua (m1\<lparr>m_ConnID := c_id c\<rparr>)) h)))"

text \<open>\<open>Step\<close> after the last event; events of \<open>Start\<close> are not followed by a step.\<close>

definition finishSend :: "found option \<Rightarrow> Conversation \<Rightarrow> Conversation go" where
  "finishSend f c =
     (case f of
        None \<Rightarrow> Inr (c\<lparr>c_pc := CIdle\<rparr>)
      | Some t \<Rightarrow>
          bindG (deref (c_machine c)) (\<lambda>m.
          bindG (Step t m) (\<lambda>(m', sig).
          Inr (c\<lparr>c_machine := Some m', c_pc := (if sig then CSignal else CIdle)\<rparr>))))"

subsection \<open>What every handler keeps\<close>

text \<open>
  The contract of a handler: it leaves the channels alone, it keeps the machine's skeleton and
  registers, it forgets at most own protocol ids, and it goes back to the loop or starts to send.
  In a well-formed machine without Lua triggers the step that follows has a state to go to.
\<close>

definition handled_frame :: "Conversation \<Rightarrow> Conversation \<Rightarrow> bool" where
  "handled_frame c c' \<longleftrightarrow> c_id c' = c_id c \<and> c_BackendChan c' = c_BackendChan c \<and>
     c_TransientChan c' = c_TransientChan c \<and> c_lastProtocolID c' \<subseteq> c_lastProtocolID c \<and>
     (\<exists>m m'. c_machine c = Some m \<and> c_machine c' = Some m' \<and> skeleton m' = skeleton m \<and>
        dom (m_Memory m) \<subseteq> dom (m_Memory m')) \<and>
     (c_pc c' = CIdle \<or> (\<exists>es st f. c_pc c' = CSending es st (Some f)))"

definition has_target :: "Conversation \<Rightarrow> bool" where
  "has_target c \<longleftrightarrow>
     (case c_pc c of
        CSending es st (Some f) \<Rightarrow>
          (case c_machine c of None \<Rightarrow> False | Some m \<Rightarrow> f_Target f \<in> set (map fst (m_States m)))
      | _ \<Rightarrow> True)"

locale conv_handler =
  fixes handle :: "Conversation \<Rightarrow> bheap \<Rightarrow> handled"
  assumes frame: "handle c h = Inr (c', h') \<Longrightarrow> handled_frame c c'"
    and target: "handle c h = Inr (c', h') \<Longrightarrow> c_machine c = Some m \<Longrightarrow> wf_machine m \<Longrightarrow>
      lua_free m \<Longrightarrow> has_target c'"

lemma ignored_frame:
  assumes "c_machine c0 = Some m0" "c_id c = c_id c0" "c_BackendChan c = c_BackendChan c0"
    "c_TransientChan c = c_TransientChan c0" "c_lastProtocolID c \<subseteq> c_lastProtocolID c0"
    "skeleton m = skeleton m0" "dom (m_Memory m0) \<subseteq> dom (m_Memory m)"
    "ignored c m h = Inr (c', h')"
  shows "handled_frame c0 c' \<and> has_target c' \<and> c_pc c' = CIdle \<and> h' = h"
  using assms by (auto simp: ignored_def handled_frame_def has_target_def)

lemma reacting_frame:
  assumes "c_machine c0 = Some m0" "c_id c = c_id c0" "c_BackendChan c = c_BackendChan c0"
    "c_TransientChan c = c_TransientChan c0" "c_lastProtocolID c \<subseteq> c_lastProtocolID c0"
    "skeleton m = skeleton m0" "dom (m_Memory m0) \<subseteq> dom (m_Memory m)"
    "build_keeps m b" "reacting c status (Some f) b = Inr (c', h')"
  shows "handled_frame c0 c' \<and> (f_Target f \<in> set (map fst (m_States m0)) \<longrightarrow> has_target c')"
proof -
  from assms(9) obtain outs m' where b: "b = Inr (outs, m', h')"
    and c': "c' = c\<lparr>c_machine := Some m',
       c_pc := CSending (case outs of None \<Rightarrow> [] | Some es \<Rightarrow> es) status (Some f)\<rparr>"
    by (auto simp: reacting_def)
  from build_keepsD [OF assms(8) b] assms(6,7)
  have k: "skeleton m' = skeleton m0" "dom (m_Memory m0) \<subseteq> dom (m_Memory m')" by auto
  with skeleton_eqD(9) [OF k(1)] assms show ?thesis
    by (simp add: c' handled_frame_def has_target_def)
qed

text \<open>A search followed by a build, for any of the searches and builds.\<close>

context target_search
begin

lemma search_handles:
  assumes m0: "c_machine c0 = Some m0" and same: "c_id c = c_id c0" "c_BackendChan c = c_BackendChan c0"
    "c_TransientChan c = c_TransientChan c0" "c_lastProtocolID c \<subseteq> c_lastProtocolID c0"
    and keeps: "\<And>f m1. build_keeps m1 (build f m1)"
    and run: "bindG (searchTransition test m0) (\<lambda>(r, m1). case r of None \<Rightarrow> ignored c m1 h
      | Some f \<Rightarrow> reacting c status (Some f) (build f m1)) = Inr (c', h')"
  shows "handled_frame c0 c' \<and> (wf_machine m0 \<longrightarrow> lua_free m0 \<longrightarrow> has_target c')"
proof -
  from run obtain r m1 where r: "searchTransition test m0 = Inr (r, m1)"
    and c: "(case r of None \<Rightarrow> ignored c m1 h
      | Some f \<Rightarrow> reacting c status (Some f) (build f m1)) = Inr (c', h')" by auto
  from search_grows [OF r] have g: "skeleton m1 = skeleton m0" "dom (m_Memory m0) \<subseteq> dom (m_Memory m1)"
    by (simp_all add: memory_grows_skeleton memory_grows_def)
  show ?thesis
  proof (cases r)
    case None
    with c have "ignored c m1 h = Inr (c', h')" by simp
    from ignored_frame [OF m0 same g this] show ?thesis by blast
  next
    case (Some f)
    with c have "reacting c status (Some f) (build f m1) = Inr (c', h')" by simp
    from reacting_frame [OF m0 same g keeps this] lua_free_target [of m0 f m1] r Some
    show ?thesis by blast
  qed
qed

end

lemma stepReceived_handles:
  assumes "stepReceived env dat c h = Inr (c', h')"
  shows "\<exists>m. c_machine c = Some m \<and> handled_frame c c' \<and> (wf_machine m \<longrightarrow> lua_free m \<longrightarrow> has_target c')"
proof -
  from assms obtain m where m: "c_machine c = Some m" by (auto simp: stepReceived_def)
  note step_target.search_handles [where build = "\<lambda>f m1. BuildSendEventsFromStep env (f_place f) dat m1 h",
      OF m refl refl refl order_refl BuildSendEventsFromStep_keeps]
  with assms m show ?thesis by (simp add: stepReceived_def TriggersByStep_search)
qed

lemma hookReceived_handles:
  assumes "hookReceived env dat c h = Inr (c', h')"
  shows "\<exists>m. c_machine c = Some m \<and> handled_frame c c' \<and> (wf_machine m \<longrightarrow> lua_free m \<longrightarrow> has_target c')"
proof -
  from assms obtain m where m: "c_machine c = Some m" by (auto simp: hookReceived_def)
  note hook_target.search_handles [where build = "\<lambda>f m1. BuildSendEventsFromHook env (f_place f) dat m1 h",
      OF m refl refl refl order_refl BuildSendEventsFromHook_keeps]
  with assms m show ?thesis by (simp add: hookReceived_def TriggersByHook_search)
qed

end
