(* ===== verification/Chat_Handlers.thy ===== *)
theory Chat_Handlers
  imports Chat_Conversation
begin

text \<open>
  The handlers of a conversation keep their contract (the interpretations of \<open>conv_handler\<close>), and
  what they ignore: messages of another session, their own echo, notifications about their own
  protocols and protocol steps that are not complete.
\<close>

subsection \<open>The contract\<close>

lemma backendReceived_handles:
  assumes "conv_backendReceived env dat c h = Inr (c', h')"
  shows "\<exists>m. c_machine c = Some m \<and> handled_frame c c' \<and> (wf_machine m \<longrightarrow> lua_free m \<longrightarrow> has_target c')"
proof -
  from assms obtain m p where m: "c_machine c = Some m" and p: "dat = Some p"
    by (auto simp: conv_backendReceived_def)
  let ?h = "fixConnID (c_id c) p h"
  let ?d = "cells ?h p"
  note run = assms [unfolded conv_backendReceived_def, simplified m p, simplified, unfolded Let_def]
  show ?thesis
  proof (cases "m_Memory m LUA_SESSION_ID \<noteq> None \<and> m_Memory m LUA_SESSION_ID \<noteq> Some (bd_SessionID ?d) \<or>
      bd_NoEcho ?d \<and> c_id c = bd_ConnID ?d")
    case True
    with run have "ignored c m ?h = Inr (c', h')" by (auto split: if_split_asm)
    from ignored_frame [OF m refl refl refl order_refl refl order_refl this] m show ?thesis by blast
  next
    case False
    with run have "bindG (searchTransition (backendTest env (Some ?d)) m) (\<lambda>(r, m1). case r of
        None \<Rightarrow> ignored c m1 ?h
      | Some f \<Rightarrow> reacting c None (Some f)
          (BuildSendEventsFromBackendData env (f_place f) (Some p) m1 ?h)) = Inr (c', h')"
      by (auto simp: TriggersByBackendData_search split: if_split_asm)
    from backend_target.search_handles [where
        build = "\<lambda>f m1. BuildSendEventsFromBackendData env (f_place f) (Some p) m1 ?h",
        OF m refl refl refl order_refl BuildSendEventsFromBackendData_keeps this] m
    show ?thesis by blast
  qed
qed

lemma questionReceived_handles:
  assumes "questionReceived env q c h = Inr (c', h')"
  shows "\<exists>m. c_machine c = Some m \<and> handled_frame c c' \<and> (wf_machine m \<longrightarrow> lua_free m \<longrightarrow> has_target c')"
proof -
  from assms obtain m where m: "c_machine c = Some m" by (auto simp: questionReceived_def)
  show ?thesis
  proof (cases "q_TypeID q = Question_PROOF_VERIFY_WAITS")
    case True
    note question_target.search_handles [where
        build = "\<lambda>f m1. BuildSendAnswers env (f_place f) (q_Status q) m1 h",
        OF m refl refl refl order_refl BuildSendAnswers_keeps]
    with True assms m show ?thesis by (simp add: questionReceived_def Answers_search)
  next
    case False
    with assms m have "ignored c m h = Inr (c', h')" by (simp add: questionReceived_def)
    from ignored_frame [OF m refl refl refl order_refl refl order_refl this] m show ?thesis by blast
  qed
qed

lemma isOursAndRm_fields:
  assumes "isOursAndRm pid c0 = (ours, c)"
  shows "c_id c = c_id c0" "c_BackendChan c = c_BackendChan c0" "c_TransientChan c = c_TransientChan c0"
    "c_lastProtocolID c \<subseteq> c_lastProtocolID c0" "c_machine c = c_machine c0" "c_pc c = c_pc c0"
  using assms by (auto simp: isOursAndRm_def split: if_split_asm)

lemma statusReceived_handles:
  assumes "statusReceived env as status c h = Inr (c', h')"
  shows "\<exists>m. c_machine c = Some m \<and> handled_frame c c' \<and> (wf_machine m \<longrightarrow> lua_free m \<longrightarrow> has_target c')"
proof -
  from assms obtain m where m: "c_machine c = Some m" by (auto simp: statusReceived_def)
  note same0 = refl [of "c_id c"] refl [of "c_BackendChan c"] refl [of "c_TransientChan c"]
    order_refl [of "c_lastProtocolID c"]
  show ?thesis
  proof (cases "n_TypeID (as_Notification as) = Notification_STATUS_UPDATE")
    case False
    with assms m have "ignored c m h = Inr (c', h')" by (simp add: statusReceived_def)
    from ignored_frame [OF m same0 refl order_refl this] m show ?thesis by blast
  next
    case upd: True
    obtain ours c1 where o: "isOursAndRm (n_ProtocolID (as_Notification as)) c = (ours, c1)"
      by fastforce
    note same = isOursAndRm_fields(1-4) [OF o]
    show ?thesis
    proof (cases ours)
      case True
      with assms m o upd have "ignored c1 m h = Inr (c', h')" by (simp add: statusReceived_def)
      from ignored_frame [OF m same refl order_refl this] m show ?thesis by blast
    next
      case False
      with assms m o upd obtain s where s: "status = Some s"
        by (cases status) (auto simp: statusReceived_def)
      from assms m o upd False s obtain r m1 where
        t: "searchTransition (statusTest env (Some s)) m = Inr (r, m1)" and
        run: "(case r of None \<Rightarrow> ignored c1 m1 h
          | Some f \<Rightarrow> bindG (deref (GetState (Some s))) (\<lambda>st.
              if st_State st \<noteq> ProtocolState_OK then ignored c1 m1 h
              else reacting c1 (Some as) (Some f) (BuildSendEvents env (f_place f) (Some s) m1 h)))
          = Inr (c', h')"
        by (auto simp: statusReceived_def Triggers_search)
      from by_status.search_grows [OF t] have g: "skeleton m1 = skeleton m"
        "dom (m_Memory m) \<subseteq> dom (m_Memory m1)"
        by (simp_all add: memory_grows_skeleton memory_grows_def)
      show ?thesis
      proof (cases "\<exists>f. r = Some f \<and> reacting c1 (Some as) (Some f)
          (BuildSendEvents env (f_place f) (Some s) m1 h) = Inr (c', h')")
        case True
        then obtain f where f: "r = Some f" and
          re: "reacting c1 (Some as) (Some f) (BuildSendEvents env (f_place f) (Some s) m1 h) = Inr (c', h')"
          by blast
        from reacting_frame [OF m same g BuildSendEvents_keeps re] m t f
          status_target.lua_free_target [of m env "Some s" f m1]
        show ?thesis by blast
      next
        case False
        with run have "ignored c1 m1 h = Inr (c', h')"
          by (auto split: option.splits if_split_asm)
        from ignored_frame [OF m same g this] m show ?thesis by blast
      qed
    qed
  qed
qed

interpretation step_handler: conv_handler "stepReceived env dat" for env dat
  by unfold_locales (use stepReceived_handles in fastforce)+

interpretation hook_handler: conv_handler "hookReceived env dat" for env dat
  by unfold_locales (use hookReceived_handles in fastforce)+

interpretation backend_handler: conv_handler "conv_backendReceived env dat" for env dat
  by unfold_locales (use backendReceived_handles in fastforce)+

interpretation question_handler: conv_handler "questionReceived env q" for env q
  by unfold_locales (use questionReceived_handles in fastforce)+

interpretation status_handler: conv_handler "statusReceived env as status" for env as status
  by unfold_locales (use statusReceived_handles in fastforce)+

subsection \<open>What a conversation ignores\<close>

text \<open>The conversation when a handler has nothing to do.\<close>

definition unchanged :: "Conversation \<Rightarrow> Conversation" where
  "unchanged c = c\<lparr>c_pc := CIdle\<rparr>"

lemma ignored_unchanged: "c_machine c = Some m \<Longrightarrow> ignored c m h = Inr (unchanged c, h)"
  by (simp add: ignored_def unchanged_def)

text \<open>A message of another session, and the echo of an own message.\<close>

lemma other_session_ignored:
  assumes "c_machine c = Some m" "m_Memory m LUA_SESSION_ID = Some sid" "bd_SessionID (cells h p) \<noteq> sid"
  shows "conv_backendReceived env (Some p) c h = Inr (unchanged c, fixConnID (c_id c) p h)"
proof -
  have "bd_SessionID (cells (fixConnID (c_id c) p h) p) = bd_SessionID (cells h p)"
    by (simp add: fixConnID_def)
  with assms show ?thesis
    by (simp add: conv_backendReceived_def Let_def ignored_unchanged)
qed

lemma own_echo_ignored:
  assumes "c_machine c = Some m" "bd_NoEcho (cells h p)" "bd_ConnID (cells h p) \<in> {c_id c, []}"
  shows "conv_backendReceived env (Some p) c h = Inr (unchanged c, fixConnID (c_id c) p h)"
proof -
  have "bd_NoEcho (cells (fixConnID (c_id c) p h) p)" "bd_ConnID (cells (fixConnID (c_id c) p h) p) = c_id c"
    using assms by (auto simp: fixConnID_def)
  with assms(1) show ?thesis
    by (simp add: conv_backendReceived_def Let_def ignored_unchanged)
qed

text \<open>Notifications about a protocol that the conversation itself started are dropped, once.\<close>

lemma own_protocol_ignored:
  assumes "c_machine c = Some m" "n_TypeID (as_Notification as) = Notification_STATUS_UPDATE"
    and "n_ProtocolID (as_Notification as) \<in> c_lastProtocolID c"
  shows "statusReceived env as status c h =
    Inr (unchanged (c\<lparr>c_lastProtocolID := c_lastProtocolID c - {n_ProtocolID (as_Notification as)}\<rparr>), h)"
  using assms by (simp add: statusReceived_def isOursAndRm_def Let_def ignored_unchanged)

text \<open>Which requests a conversation remembers as its own: those whose status it does not want.\<close>

lemma outputSets_last:
  "c_lastProtocolID (outputSets out r c) =
     (case out of
        OBasicMessage _ w \<Rightarrow> (if w then c_lastProtocolID c else insert r (c_lastProtocolID c))
      | OIssue _ _ w \<Rightarrow> (if w then c_lastProtocolID c else insert r (c_lastProtocolID c))
      | OReqProof _ w \<Rightarrow> (if w then c_lastProtocolID c else insert r (c_lastProtocolID c))
      | _ \<Rightarrow> c_lastProtocolID c)"
  by (simp add: outputSets_def sendRequest_def SetLastProtocolID_def split: outmsg.split)

lemma outputSets_fields [simp]:
  "c_id (outputSets out r c) = c_id c" "c_machine (outputSets out r c) = c_machine c"
  "c_BackendChan (outputSets out r c) = c_BackendChan c"
  "c_TransientChan (outputSets out r c) = c_TransientChan c" "c_pc (outputSets out r c) = c_pc c"
  by (simp_all add: outputSets_def sendRequest_def SetLastProtocolID_def split: outmsg.split)

text \<open>A protocol step that is not complete moves nothing, whatever it triggers.\<close>

lemma incomplete_ignored:
  assumes "c_machine c = Some m" "ps_State s = Some st" "st_State st \<noteq> ProtocolState_OK"
    and "n_ProtocolID (as_Notification as) \<notin> c_lastProtocolID c"
    and "statusReceived env as (Some s) c h = Inr (c', h')"
  shows "c_pc c' = CIdle \<and> h' = h \<and> (\<exists>m'. c_machine c' = Some m' \<and> m_Current m' = m_Current m)"
proof (cases "n_TypeID (as_Notification as) = Notification_STATUS_UPDATE")
  case False
  with assms show ?thesis by (auto simp: statusReceived_def ignored_def)
next
  case True
  with assms obtain r m1 where t: "searchTransition (statusTest env (Some s)) m = Inr (r, m1)"
    and "ignored c m1 h = Inr (c', h')"
    by (auto simp: statusReceived_def isOursAndRm_def Triggers_search GetState_def Let_def
        split: option.splits)
  moreover from by_status.search_grows [OF t] have "m_Current m1 = m_Current m"
    by (simp add: memory_grows_def memory_stepD)
  ultimately show ?thesis by (auto simp: ignored_def)
qed

end
