(* ===== verification/Chat_System.thy ===== *)
theory Chat_System
  imports Chat_Handlers
begin

text \<open>
  The chat bot as a whole: the multiplexer, the optional backend machine it serves and the
  conversations, each a goroutine of its own. A state holds where each goroutine is and what the
  buffered channels hold. One step of one goroutine, up to its next channel operation or request to
  the agency, is one labelled step; a step is a function of its label, so that runs compute. A send
  on a full channel, or a receive from an empty one, is a step that is not enabled. A panic of any
  goroutine ends the process.
\<close>

subsection \<open>State\<close>

text \<open>
  Where the multiplexer is: at its \<open>select\<close>; in \<open>Backend.send\<close> with the events still to send and the
  transition to step; in the loop of \<open>sendBackendData\<close>, with the message and the conversations it
  has not reached; at the send of a status, a question or a message to one conversation; at the
  send on the channel of the backend machine, which nobody reads; or at the send of the signal.
\<close>

datatype mux_pc =
    MIdle
  | MSending "Event list" "found option"
  | MBroadcast "nat option" "string list" "Event list" "found option"
  | MStatus string AgentStatus
  | MQuestion string Question
  | MForward string "nat option"
  | MBlocked
  | MInterrupt

record Backend =
  b_machine :: Machine
  b_BackendChan :: "nat option list"

record MultiplexerInfo =
  mi_ConversationMachine :: MachineData
  mi_BackendMachine :: "MachineData option"

text \<open>\<open>s_termChan\<close> is the number of signals in the channel of capacity 1, \<open>s_interrupts\<close> the number of
  signals sent to the user of the bot, and \<open>s_panic\<close> the panic that ended the process.\<close>

record sys =
  s_conversations :: "(string \<times> Conversation) list"
  s_backend :: "Backend option"
  s_ConversationBackendChan :: "nat option list"
  s_termChan :: nat
  s_interrupts :: nat
  s_mux :: mux_pc
  s_heap :: bheap
  s_panic :: "panic option"

definition conv :: "sys \<Rightarrow> string \<Rightarrow> Conversation option" where
  "conv s cid = map_of (s_conversations s) cid"

definition setConv :: "Conversation \<Rightarrow> sys \<Rightarrow> sys" where
  "setConv c s = s\<lparr>s_conversations := alist_update (c_id c) (\<lambda>_. c) (s_conversations s)\<rparr>"

text \<open>The effect of a computation of a goroutine; a panic ends the process.\<close>

definition crashOr :: "'a go \<Rightarrow> sys \<Rightarrow> ('a \<Rightarrow> sys) \<Rightarrow> sys" where
  "crashOr r s f = (case r of Inl p \<Rightarrow> s\<lparr>s_panic := Some p\<rparr> | Inr x \<Rightarrow> f x)"

definition handleConv :: "handled \<Rightarrow> sys \<Rightarrow> sys" where
  "handleConv r s = crashOr r s (\<lambda>(c, h). setConv c (s\<lparr>s_heap := h\<rparr>))"

subsection \<open>The multiplexer\<close>

text \<open>The channels of the backend machine; its termination channel is the state \<open>MBlocked\<close> of its only sender.\<close>

definition newBackendService :: "Machine \<Rightarrow> Backend" where
  [simp]: "newBackendService machine = \<lparr>b_machine = machine, b_BackendChan = []\<rparr>"

definition mux_init :: "env \<Rightarrow> codec \<Rightarrow> MultiplexerInfo \<Rightarrow> bheap \<Rightarrow> sys go" where
  "mux_init env cd info h0 =
     (let s0 = \<lparr>s_conversations = [], s_backend = None, s_ConversationBackendChan = [],
        s_termChan = 0, s_interrupts = 0, s_mux = MIdle, s_heap = h0, s_panic = None\<rparr> in
      if \<not> MachineData_IsValid (mi_BackendMachine info) then Inr s0
      else
        bindG (deref (mi_BackendMachine info)) (\<lambda>bd.
        bindG (NewBackendMachine cd bd) (\<lambda>m0.
        bindG (Initialize env m0) (\<lambda>r.
        case r of
          Inl _ \<Rightarrow> Inl ErrThrown
        | Inr m1 \<Rightarrow>
            bindG (Start env True (InitLua m1) h0) (\<lambda>(outs, m2, h).
            Inr (s0\<lparr>s_backend := Some (newBackendService m2), s_heap := h,
              s_mux := MSending (case outs of None \<Rightarrow> [] | Some es \<Rightarrow> es) None\<rparr>))))))"

definition Backend_backendReceived ::
  "env \<Rightarrow> nat option \<Rightarrow> Machine \<Rightarrow> bheap \<Rightarrow> (mux_pc \<times> Machine \<times> bheap) go" where
  "Backend_backendReceived env dat m h =
     bindG (assertG (m_Type m = MachineTypeBackend)) (\<lambda>_.
     bindG (TriggersByBackendData env (map_option (cells h) dat) m) (\<lambda>(r, m1).
     case r of
       None \<Rightarrow> Inr (MIdle, m1, h)
     | Some f \<Rightarrow>
         bindG (BuildSendEventsFromBackendData env (f_place f) dat m1 h) (\<lambda>(outs, m2, h').
         Inr (MSending (case outs of None \<Rightarrow> [] | Some es \<Rightarrow> es) (Some f), m2, h'))))"

definition mux_backend :: "env \<Rightarrow> sys \<Rightarrow> sys option" where
  "mux_backend env s =
     (case (s_mux s, s_backend s) of
        (MIdle, Some b) \<Rightarrow>
          (case b_BackendChan b of
             [] \<Rightarrow> None
           | d # ds \<Rightarrow> Some (crashOr (Backend_backendReceived env d (b_machine b) (s_heap s)) s
               (\<lambda>(pc, m, h). s\<lparr>s_mux := pc, s_heap := h,
                  s_backend := Some \<lparr>b_machine = m, b_BackendChan = ds\<rparr>\<rparr>)))
      | _ \<Rightarrow> None)"

text \<open>The loop of \<open>sendBackendData\<close> over the conversations, in any order.\<close>

definition broadcasting :: "nat option \<Rightarrow> string list \<Rightarrow> Event list \<Rightarrow> found option \<Rightarrow> mux_pc" where
  "broadcasting d ids es f = (if ids = [] then MSending es f else MBroadcast d ids es f)"

definition mux_send :: "sys \<Rightarrow> sys option" where
  "mux_send s =
     (case (s_mux s, s_backend s) of
        (MSending (e # es) f, Some b) \<Rightarrow>
          Some (if e_ProtocolType e = BackendProtocol then
                  crashOr (deref (e_EventData e)) s (\<lambda>d.
                    s\<lparr>s_mux := broadcasting (ed_Backend d) (map fst (s_conversations s)) es f\<rparr>)
                else s\<lparr>s_mux := MSending es f\<rparr>)
      | (MSending [] None, Some b) \<Rightarrow> Some (s\<lparr>s_mux := MIdle\<rparr>)
      | (MSending [] (Some t), Some b) \<Rightarrow>
          Some (crashOr (Step t (b_machine b)) s (\<lambda>(m, sig).
            s\<lparr>s_mux := (if sig then MBlocked else MIdle), s_backend := Some (b\<lparr>b_machine := m\<rparr>)\<rparr>))
      | _ \<Rightarrow> None)"

definition mux_broadcast :: "string \<Rightarrow> sys \<Rightarrow> sys option" where
  "mux_broadcast cid s =
     (case (s_mux s, conv s cid) of
        (MBroadcast d ids es f, Some c) \<Rightarrow>
          (if cid \<in> set ids \<and> length (c_BackendChan c) < 1 then
             Some (setConv (c\<lparr>c_BackendChan := c_BackendChan c @ [d]\<rparr>)
               (s\<lparr>s_mux := broadcasting d (remove1 cid ids) es f\<rparr>))
           else None)
      | _ \<Rightarrow> None)"

text \<open>A status or a question of an unknown connection starts a conversation.\<close>

definition ensureConv :: "string \<Rightarrow> sys \<Rightarrow> sys" where
  "ensureConv cid s =
     (if conv s cid = None
      then s\<lparr>s_conversations := s_conversations s @ [(cid, newConversation cid)]\<rparr>
      else s)"

definition mux_status :: "AgentStatus \<Rightarrow> sys \<Rightarrow> sys option" where
  "mux_status as s =
     (case s_mux s of
        MIdle \<Rightarrow> (let cid = n_ConnectionID (as_Notification as)
                  in Some ((ensureConv cid s)\<lparr>s_mux := MStatus cid as\<rparr>))
      | _ \<Rightarrow> None)"

definition mux_question :: "Question \<Rightarrow> sys \<Rightarrow> sys option" where
  "mux_question q s =
     (case s_mux s of
        MIdle \<Rightarrow> (let cid = n_ConnectionID (as_Notification (q_Status q))
                  in Some ((ensureConv cid s)\<lparr>s_mux := MQuestion cid q\<rparr>))
      | _ \<Rightarrow> None)"

text \<open>The channels for statuses and questions have no buffer: the multiplexer and a conversation at
  its \<open>select\<close> meet. \<open>status\<close> is the agency's answer to the conversation's request.\<close>

definition mux_deliver :: "env \<Rightarrow> ProtocolStatus option \<Rightarrow> sys \<Rightarrow> sys option" where
  "mux_deliver env status s =
     (case s_mux s of
        MStatus cid as \<Rightarrow>
          (case conv s cid of
             None \<Rightarrow> None
           | Some c \<Rightarrow> (if c_pc c = CIdle
               then Some (handleConv (statusReceived env as status c (s_heap s)) (s\<lparr>s_mux := MIdle\<rparr>))
               else None))
      | MQuestion cid q \<Rightarrow>
          (case conv s cid of
             None \<Rightarrow> None
           | Some c \<Rightarrow> (if c_pc c = CIdle
               then Some (handleConv (questionReceived env q c (s_heap s)) (s\<lparr>s_mux := MIdle\<rparr>))
               else None))
      | _ \<Rightarrow> None)"

definition mux_forward :: "sys \<Rightarrow> sys option" where
  "mux_forward s =
     (case (s_mux s, s_ConversationBackendChan s) of
        (MIdle, d # ds) \<Rightarrow>
          Some (crashOr
            (bindG (deref d) (\<lambda>p. let cid = bd_ConnID (cells (s_heap s) p) in
             bindG (assertG (conv s cid \<noteq> None)) (\<lambda>_. Inr cid))) s
            (\<lambda>cid. s\<lparr>s_ConversationBackendChan := ds, s_mux := MForward cid d\<rparr>))
      | (MForward cid d, _) \<Rightarrow>
          (case conv s cid of
             None \<Rightarrow> None
           | Some c \<Rightarrow> (if length (c_BackendChan c) < 1
               then Some (setConv (c\<lparr>c_BackendChan := c_BackendChan c @ [d]\<rparr>) (s\<lparr>s_mux := MIdle\<rparr>))
               else None))
      | _ \<Rightarrow> None)"

definition mux_term :: "sys \<Rightarrow> sys option" where
  "mux_term s =
     (if s_mux s = MIdle \<and> 0 < s_termChan s
      then Some (s\<lparr>s_termChan := s_termChan s - 1, s_mux := MInterrupt\<rparr>)
      else if s_mux s = MInterrupt
      then Some (s\<lparr>s_interrupts := Suc (s_interrupts s), s_mux := MIdle\<rparr>)
      else None)"

text \<open>A user of the package puts a message for a conversation on \<open>ConversationBackendChan\<close>.\<close>

definition outside :: "BackendData \<Rightarrow> sys \<Rightarrow> sys option" where
  "outside bd s =
     (if length (s_ConversationBackendChan s) < 1
      then (let (p, h) = hnew bd (s_heap s)
            in Some (s\<lparr>s_heap := h,
                 s_ConversationBackendChan := s_ConversationBackendChan s @ [Some p]\<rparr>))
      else None)"

subsection \<open>The goroutine of a conversation\<close>

definition conv_start :: "env \<Rightarrow> codec \<Rightarrow> MultiplexerInfo \<Rightarrow> Conversation \<Rightarrow> sys \<Rightarrow> sys option" where
  "conv_start env cd info c s =
     (if c_pc c = CStart
      then Some (handleConv (Run_start env cd (mi_ConversationMachine info) c (s_heap s)) s)
      else None)"

text \<open>
  One event of \<open>send\<close>: \<open>r\<close> is the agency's answer to a request, \<open>None\<close> its error, which is thrown. The
  write of a missing connection id and the send of the message are one step; \<open>buildBackendSend\<close> asserts that the id is
  there, so a built message is not written.
\<close>

definition isRequest :: "outmsg \<Rightarrow> bool" where
  "isRequest out = (case out of OBasicMessage _ _ \<Rightarrow> True | OIssue _ _ _ \<Rightarrow> True
     | OReqProof _ _ \<Rightarrow> True | OReply _ _ _ \<Rightarrow> True | _ \<Rightarrow> False)"

definition conv_output :: "outmsg \<Rightarrow> string option \<Rightarrow> Conversation \<Rightarrow> sys \<Rightarrow> sys option" where
  "conv_output out r c s =
     (case out of
        OTransient msg \<Rightarrow>
          (if length (c_TransientChan c) < 1
           then Some (setConv (c\<lparr>c_TransientChan := c_TransientChan c @ [msg]\<rparr>) s) else None)
      | OBackend p \<Rightarrow>
          (case s_backend s of
             None \<Rightarrow> Some (setConv c (s\<lparr>s_heap := fixConnID (c_id c) p (s_heap s)\<rparr>))
           | Some b \<Rightarrow>
               (if length (b_BackendChan b) < 1
                then Some (setConv c (s\<lparr>s_heap := fixConnID (c_id c) p (s_heap s),
                  s_backend := Some (b\<lparr>b_BackendChan := b_BackendChan b @ [Some p]\<rparr>)\<rparr>))
                else None))
      | _ \<Rightarrow>
          (if isRequest out then
             (case r of
                None \<Rightarrow> Some (s\<lparr>s_panic := Some ErrThrown\<rparr>)
              | Some pid \<Rightarrow> Some (setConv (outputSets out pid c) s))
           else Some (setConv c s)))"

definition conv_send :: "string option \<Rightarrow> Conversation \<Rightarrow> sys \<Rightarrow> sys option" where
  "conv_send r c s =
     (case c_pc c of
        CSending (e # es) status f \<Rightarrow>
          (case outputOf status e of
             Inl p \<Rightarrow> Some (s\<lparr>s_panic := Some p\<rparr>)
           | Inr out \<Rightarrow> conv_output out r (c\<lparr>c_pc := CSending es status f\<rparr>) s)
      | CSending [] status f \<Rightarrow> Some (crashOr (finishSend f c) s (\<lambda>c'. setConv c' s))
      | CSignal \<Rightarrow>
          (if s_termChan s < 1
           then Some (setConv (c\<lparr>c_pc := CIdle\<rparr>) (s\<lparr>s_termChan := Suc (s_termChan s)\<rparr>))
           else None)
      | _ \<Rightarrow> None)"

definition conv_backend :: "env \<Rightarrow> Conversation \<Rightarrow> sys \<Rightarrow> sys option" where
  "conv_backend env c s =
     (case (c_pc c, c_BackendChan c) of
        (CIdle, d # ds) \<Rightarrow>
          Some (handleConv (conv_backendReceived env d (c\<lparr>c_BackendChan := ds\<rparr>) (s_heap s)) s)
      | _ \<Rightarrow> None)"

definition conv_transient :: "env \<Rightarrow> Conversation \<Rightarrow> sys \<Rightarrow> sys option" where
  "conv_transient env c s =
     (case (c_pc c, c_TransientChan c) of
        (CIdle, d # ds) \<Rightarrow>
          Some (handleConv (stepReceived env d (c\<lparr>c_TransientChan := ds\<rparr>) (s_heap s)) s)
      | _ \<Rightarrow> None)"

subsection \<open>Steps and runs\<close>

datatype label =
    LStatus AgentStatus
  | LQuestion Question
  | LOutside BackendData
  | LDeliver "ProtocolStatus option"
  | LBackend
  | LSend
  | LBroadcast string
  | LForward
  | LTerm
  | LConvStart string
  | LConvSend string "string option"
  | LConvBackend string
  | LConvTransient string

definition withConv :: "string \<Rightarrow> (Conversation \<Rightarrow> sys \<Rightarrow> sys option) \<Rightarrow> sys \<Rightarrow> sys option" where
  "withConv cid f s = (case conv s cid of None \<Rightarrow> None | Some c \<Rightarrow> f c s)"

definition exec :: "env \<Rightarrow> codec \<Rightarrow> MultiplexerInfo \<Rightarrow> label \<Rightarrow> sys \<Rightarrow> sys option" where
  "exec env cd info l s =
     (if s_panic s \<noteq> None then None
      else
        (case l of
           LStatus as \<Rightarrow> mux_status as s
         | LQuestion q \<Rightarrow> mux_question q s
         | LOutside bd \<Rightarrow> outside bd s
         | LDeliver status \<Rightarrow> mux_deliver env status s
         | LBackend \<Rightarrow> mux_backend env s
         | LSend \<Rightarrow> mux_send s
         | LBroadcast cid \<Rightarrow> mux_broadcast cid s
         | LForward \<Rightarrow> mux_forward s
         | LTerm \<Rightarrow> mux_term s
         | LConvStart cid \<Rightarrow> withConv cid (conv_start env cd info) s
         | LConvSend cid r \<Rightarrow> withConv cid (conv_send r) s
         | LConvBackend cid \<Rightarrow> withConv cid (conv_backend env) s
         | LConvTransient cid \<Rightarrow> withConv cid (conv_transient env) s))"

fun execs :: "env \<Rightarrow> codec \<Rightarrow> MultiplexerInfo \<Rightarrow> label list \<Rightarrow> sys \<Rightarrow> sys option" where
  "execs env cd info [] s = Some s"
| "execs env cd info (l # ls) s =
     (case exec env cd info l s of None \<Rightarrow> None | Some s' \<Rightarrow> execs env cd info ls s')"

inductive reachable :: "env \<Rightarrow> codec \<Rightarrow> MultiplexerInfo \<Rightarrow> sys \<Rightarrow> bool"
  for env cd info where
  init: "mux_init env cd info h0 = Inr s \<Longrightarrow> reachable env cd info s"
| step: "reachable env cd info s \<Longrightarrow> exec env cd info l s = Some s' \<Longrightarrow> reachable env cd info s'"

subsection \<open>Code equations\<close>

text \<open>The steps compute: these equations avoid comparing conversations, whose memory is a function.\<close>

lemma ensureConv_code [code]:
  "ensureConv cid s = (case conv s cid of
     None \<Rightarrow> s\<lparr>s_conversations := s_conversations s @ [(cid, newConversation cid)]\<rparr> | Some _ \<Rightarrow> s)"
  by (simp add: ensureConv_def split: option.split)

lemma mux_forward_code [code]:
  "mux_forward s =
     (case (s_mux s, s_ConversationBackendChan s) of
        (MIdle, d # ds) \<Rightarrow>
          Some (crashOr
            (bindG (deref d) (\<lambda>p. let cid = bd_ConnID (cells (s_heap s) p) in
             case conv s cid of None \<Rightarrow> Inl AssertFailed | Some _ \<Rightarrow> Inr cid)) s
            (\<lambda>cid. s\<lparr>s_ConversationBackendChan := ds, s_mux := MForward cid d\<rparr>))
      | (MForward cid d, _) \<Rightarrow>
          (case conv s cid of
             None \<Rightarrow> None
           | Some c \<Rightarrow> (if length (c_BackendChan c) < 1
               then Some (setConv (c\<lparr>c_BackendChan := c_BackendChan c @ [d]\<rparr>) (s\<lparr>s_mux := MIdle\<rparr>))
               else None))
      | _ \<Rightarrow> None)"
proof -
  have "(case conv s cid of None \<Rightarrow> Inl AssertFailed | Some _ \<Rightarrow> Inr cid) =
      bindG (assertG (conv s cid \<noteq> None)) (\<lambda>_. Inr cid)" for cid
    by (simp split: option.split)
  then show ?thesis unfolding mux_forward_def by (simp only: Let_def)
qed

end
