(* ===== verification/Chat_Invariant.thy ===== *)
theory Chat_Invariant
  imports Chat_System
begin

text \<open>
  The invariant of the chat bot: channels within their capacity, every conversation under its own
  id with a well-formed conversation machine, a well-formed backend machine, and a multiplexer that
  only waits for conversations that exist. Every step keeps it, so it holds in every reachable
  state, for every file whose machines are closed.
\<close>

subsection \<open>Conversations\<close>

definition conv_machine_ok :: "string \<Rightarrow> Machine \<Rightarrow> bool" where
  "conv_machine_ok cid m \<longleftrightarrow> wf_machine m \<and> m_Type m = MachineTypeConversation \<and> m_ConnID m = cid \<and>
     m_termChan m"

definition conv_wf :: "Conversation \<Rightarrow> bool" where
  "conv_wf c \<longleftrightarrow> length (c_BackendChan c) \<le> 1 \<and> length (c_TransientChan c) \<le> 1 \<and>
     (case c_machine c of None \<Rightarrow> c_pc c = CStart
      | Some m \<Rightarrow> c_pc c \<noteq> CStart \<and> conv_machine_ok (c_id c) m)"

lemma conv_machine_ok_cong:
  assumes "skeleton m' = skeleton m"
  shows "conv_machine_ok cid m' = conv_machine_ok cid m"
  using wf_machine_cong [OF assms] skeleton_eqD(1,3,4) [OF assms] by (simp add: conv_machine_ok_def)

lemma conv_machine_ok_stepped:
  "conv_machine_ok cid m \<Longrightarrow> f_Target f \<in> set (map fst (m_States m)) \<Longrightarrow> conv_machine_ok cid (stepped f m)"
  by (simp add: conv_machine_ok_def wf_machine_stepped)

lemma handled_frame_wf:
  assumes "handled_frame c c'" "length (c_BackendChan c) \<le> 1" "length (c_TransientChan c) \<le> 1"
    and "c_machine c = Some m" "conv_machine_ok (c_id c) m"
  shows "conv_wf c'"
proof -
  from assms(1,4) obtain m' where m': "c_machine c' = Some m'" "skeleton m' = skeleton m"
    by (auto simp: handled_frame_def)
  from conv_machine_ok_cong [OF m'(2)] assms(5) have "conv_machine_ok (c_id c) m'" by simp
  with m'(1) assms(1-3) show ?thesis by (auto simp: handled_frame_def conv_wf_def)
qed

context conv_handler
begin

lemma handles_wf:
  assumes "handle c h = Inr (c', h')" "conv_wf c"
  shows "conv_wf c' \<and> c_id c' = c_id c"
proof -
  from frame [OF assms(1)] have f: "handled_frame c c'" .
  then obtain m where "c_machine c = Some m" by (auto simp: handled_frame_def)
  with handled_frame_wf [OF f] assms(2) f show ?thesis by (auto simp: conv_wf_def handled_frame_def)
qed

end

lemma finishSend_wf:
  assumes "finishSend f c = Inr c'" "conv_wf c" "c_pc c \<noteq> CStart"
  shows "conv_wf c' \<and> c_id c' = c_id c"
proof (cases f)
  case None
  with assms show ?thesis by (auto simp: finishSend_def conv_wf_def split: option.splits)
next
  case (Some t)
  with assms obtain m m' sig where m: "c_machine c = Some m" "Step t m = Inr (m', sig)"
    "c' = c\<lparr>c_machine := Some m', c_pc := (if sig then CSignal else CIdle)\<rparr>"
    by (auto simp: finishSend_def)
  from Step_Inr [OF m(2)] have "m' = stepped t m" "f_Target t \<in> set (map fst (m_States m))" by auto
  with m assms(2) show ?thesis by (simp add: conv_wf_def conv_machine_ok_stepped)
qed

definition files_ok :: "codec \<Rightarrow> MultiplexerInfo \<Rightarrow> bool" where
  "files_ok cd info \<longleftrightarrow>
     (case NewMachine cd (mi_ConversationMachine info) of Inl _ \<Rightarrow> True
      | Inr m \<Rightarrow> closed_machine m \<and> m_Type m \<in> {MachineTypeNone, MachineTypeConversation}) \<and>
     (case mi_BackendMachine info of None \<Rightarrow> True
      | Some bd \<Rightarrow> (case NewBackendMachine cd bd of Inl _ \<Rightarrow> True | Inr m \<Rightarrow> closed_machine m))"

lemma Start_keeps:
  assumes "Start env b m h = Inr (outs, m', h')"
  shows "skeleton m' = skeleton (m\<lparr>m_termChan := b\<rparr>)"
proof -
  have "build_keeps (m\<lparr>m_termChan := b\<rparr>) (Start env b m h)"
    unfolding Start_def Let_def
    by (rule build_keeps_bind) (auto simp: BuildSendEvents_keeps, simp add: build_keeps_def)
  from build_keepsD [OF this assms] show ?thesis by blast
qed

lemma wf_machine_upd [simp]:
  "wf_machine (m\<lparr>m_termChan := b\<rparr>) = wf_machine m" "wf_machine (m\<lparr>m_ConnID := i\<rparr>) = wf_machine m"
  "wf_machine (m\<lparr>m_luaState := h\<rparr>) = wf_machine m"
  by (cases "m_Initial m"; simp add: wf_machine_def)+

lemma Run_start_wf:
  assumes "files_ok cd info" "Run_start env cd (mi_ConversationMachine info) c h = Inr (c', h')"
    "conv_wf c"
  shows "conv_wf c' \<and> c_id c' = c_id c"
proof -
  from assms(2) obtain m0 m1 where m0: "NewMachine cd (mi_ConversationMachine info) = Inr m0"
    and m1: "Initialize env m0 = Inr (Inr m1)"
    and r: "reacting c None None (Start env True (InitLua (m1\<lparr>m_ConnID := c_id c\<rparr>)) h) = Inr (c', h')"
    unfolding Run_start_def bindG_eq_Inr by (elim exE conjE) (auto split: sum.split_asm)
  from m0 assms(1) have cl: "closed_machine m0" "m_Type m0 \<in> {MachineTypeNone, MachineTypeConversation}"
    by (simp_all add: files_ok_def)
  from r obtain outs m2 where st: "Start env True (InitLua (m1\<lparr>m_ConnID := c_id c\<rparr>)) h = Inr (outs, m2, h')"
    and c': "c' = c\<lparr>c_machine := Some m2,
      c_pc := CSending (case outs of None \<Rightarrow> [] | Some es \<Rightarrow> es) None None\<rparr>"
    by (auto simp: reacting_def)
  have "m_Type m1 = MachineTypeConversation"
    using Initialize_initialised [OF m1] cl(2) by (auto simp: initialisedMachine_def)
  then have "conv_machine_ok (c_id c) ((InitLua (m1\<lparr>m_ConnID := c_id c\<rparr>))\<lparr>m_termChan := True\<rparr>)"
    using Initialize_wf [OF cl(1) m1] by (simp add: conv_machine_ok_def InitLua_def)
  with conv_machine_ok_cong [OF Start_keeps [OF st]] have "conv_machine_ok (c_id c) m2" by blast
  with assms(3) show ?thesis by (simp add: conv_wf_def c')
qed

subsection \<open>The system\<close>

definition mux_ok :: "sys \<Rightarrow> bool" where
  "mux_ok s \<longleftrightarrow>
     (case s_mux s of
        MIdle \<Rightarrow> True
      | MSending _ _ \<Rightarrow> s_backend s \<noteq> None
      | MBroadcast _ ids _ _ \<Rightarrow> s_backend s \<noteq> None \<and> ids \<noteq> [] \<and> distinct ids \<and>
          set ids \<subseteq> set (map fst (s_conversations s))
      | MStatus cid _ \<Rightarrow> cid \<in> set (map fst (s_conversations s))
      | MQuestion cid _ \<Rightarrow> cid \<in> set (map fst (s_conversations s))
      | MForward cid _ \<Rightarrow> cid \<in> set (map fst (s_conversations s))
      | MBlocked \<Rightarrow> s_backend s \<noteq> None
      | MInterrupt \<Rightarrow> True)"

definition backend_ok :: "Backend \<Rightarrow> bool" where
  "backend_ok b \<longleftrightarrow> length (b_BackendChan b) \<le> 1 \<and> wf_machine (b_machine b) \<and>
     m_Type (b_machine b) = MachineTypeBackend \<and> m_termChan (b_machine b)"

definition sys_wf :: "sys \<Rightarrow> bool" where
  "sys_wf s \<longleftrightarrow> distinct (map fst (s_conversations s)) \<and>
     list_all (\<lambda>(k, c). c_id c = k \<and> conv_wf c) (s_conversations s) \<and>
     s_termChan s \<le> 1 \<and> length (s_ConversationBackendChan s) \<le> 1 \<and>
     (case s_backend s of None \<Rightarrow> True | Some b \<Rightarrow> backend_ok b) \<and> mux_ok s"

lemma sys_wf_conv:
  assumes "sys_wf s" "conv s cid = Some c"
  shows "c_id c = cid" "conv_wf c" "cid \<in> set (map fst (s_conversations s))"
proof -
  have "(cid, c) \<in> set (s_conversations s)" using assms(2) by (simp add: conv_def map_of_SomeD)
  with assms(1) show "c_id c = cid" "conv_wf c" "cid \<in> set (map fst (s_conversations s))"
    by (auto simp: sys_wf_def list_all_iff intro: rev_image_eqI)
qed

lemma list_all_alist_update:
  "distinct (map fst xs) \<Longrightarrow> list_all (\<lambda>(k, v). P k v) xs \<Longrightarrow> P k v' \<Longrightarrow>
   list_all (\<lambda>(k, v). P k v) (alist_update k (\<lambda>_. v') xs)"
  by (induction xs) auto

lemma setConv_fields [simp]:
  "s_backend (setConv c s) = s_backend s" "s_mux (setConv c s) = s_mux s"
  "s_termChan (setConv c s) = s_termChan s" "s_heap (setConv c s) = s_heap s"
  "s_ConversationBackendChan (setConv c s) = s_ConversationBackendChan s"
  "s_interrupts (setConv c s) = s_interrupts s" "s_panic (setConv c s) = s_panic s"
  "map fst (s_conversations (setConv c s)) = map fst (s_conversations s)"
  by (simp_all add: setConv_def)

lemma conv_setConv:
  "conv (setConv c s) cid = (if cid = c_id c then map_option (\<lambda>_. c) (conv s cid) else conv s cid)"
  by (simp add: conv_def setConv_def map_of_alist_update)

lemma mux_ok_setConv [simp]: "mux_ok (setConv c s) = mux_ok s"
  by (simp add: mux_ok_def split: mux_pc.split)

lemma sys_wf_setConv:
  assumes "sys_wf s" "conv_wf c"
  shows "sys_wf (setConv c s)"
proof -
  have "list_all (\<lambda>(k, c). c_id c = k \<and> conv_wf c) (s_conversations (setConv c s))"
    unfolding setConv_def using assms by (simp add: sys_wf_def list_all_alist_update)
  with assms(1) show ?thesis by (simp add: sys_wf_def)
qed

lemma sys_wf_panic [simp]: "sys_wf (s\<lparr>s_panic := p\<rparr>) = sys_wf s"
  by (simp add: sys_wf_def mux_ok_def split: mux_pc.split)

lemma sys_wf_heap [simp]: "sys_wf (s\<lparr>s_heap := h\<rparr>) = sys_wf s"
  by (simp add: sys_wf_def mux_ok_def split: mux_pc.split)

lemma sys_wf_idle: "sys_wf s \<Longrightarrow> sys_wf (s\<lparr>s_mux := MIdle\<rparr>)"
  by (simp add: sys_wf_def mux_ok_def)

lemma crashOr_wf:
  assumes "sys_wf s" "\<And>x. r = Inr x \<Longrightarrow> sys_wf (f x)"
  shows "sys_wf (crashOr r s f)"
  using assms by (cases r) (simp_all add: crashOr_def)

lemma handleConv_wf:
  assumes "sys_wf s" "\<And>c h. r = Inr (c, h) \<Longrightarrow> conv_wf c"
  shows "sys_wf (handleConv r s)"
  unfolding handleConv_def using assms by (intro crashOr_wf) (auto intro: sys_wf_setConv)

subsection \<open>Every step keeps the invariant\<close>

lemma ensureConv_wf: "sys_wf s \<Longrightarrow> sys_wf (ensureConv cid s)"
proof (cases "conv s cid")
  case None
  assume wf: "sys_wf s"
  from None have new: "cid \<notin> set (map fst (s_conversations s))"
    by (auto simp: conv_def map_of_eq_None_iff)
  have "mux_ok (s\<lparr>s_conversations := s_conversations s @ [(cid, newConversation cid)]\<rparr>)"
    using wf unfolding sys_wf_def mux_ok_def by (auto split: mux_pc.splits)
  with wf new None show ?thesis
    by (simp add: ensureConv_def sys_wf_def conv_wf_def newConversation_def)
qed (simp add: ensureConv_def)

lemma ensureConv_key: "cid \<in> set (map fst (s_conversations (ensureConv cid s)))"
  unfolding ensureConv_def conv_def by (auto simp: map_of_eq_None_iff intro: rev_image_eqI)

lemma sys_wf_mux:
  "sys_wf s \<Longrightarrow> mux_ok (s\<lparr>s_mux := pc\<rparr>) \<Longrightarrow> sys_wf (s\<lparr>s_mux := pc\<rparr>)"
  by (simp add: sys_wf_def)

lemma mux_status_wf:
  assumes "mux_status as s = Some s'" "sys_wf s"
  shows "sys_wf s'"
proof -
  let ?cid = "n_ConnectionID (as_Notification as)"
  from assms(1) have s': "s' = (ensureConv ?cid s)\<lparr>s_mux := MStatus ?cid as\<rparr>"
    by (simp add: mux_status_def Let_def split: mux_pc.split_asm)
  show ?thesis unfolding s'
    by (rule sys_wf_mux [OF ensureConv_wf [OF assms(2)]]) (simp add: mux_ok_def ensureConv_key [simplified])
qed

lemma mux_question_wf:
  assumes "mux_question q s = Some s'" "sys_wf s"
  shows "sys_wf s'"
proof -
  let ?cid = "n_ConnectionID (as_Notification (q_Status q))"
  from assms(1) have s': "s' = (ensureConv ?cid s)\<lparr>s_mux := MQuestion ?cid q\<rparr>"
    by (simp add: mux_question_def Let_def split: mux_pc.split_asm)
  show ?thesis unfolding s'
    by (rule sys_wf_mux [OF ensureConv_wf [OF assms(2)]]) (simp add: mux_ok_def ensureConv_key [simplified])
qed

lemma outside_wf:
  assumes "outside bd s = Some s'" "sys_wf s"
  shows "sys_wf s'"
proof -
  from assms(1) have s': "s' = s\<lparr>s_heap := snd (hnew bd (s_heap s)),
      s_ConversationBackendChan := s_ConversationBackendChan s @ [Some (fst (hnew bd (s_heap s)))]\<rparr>"
    "length (s_ConversationBackendChan s) < 1"
    by (simp_all add: outside_def split_def split: if_split_asm)
  have "mux_ok s' = mux_ok s" unfolding s'(1) by (cases "s_mux s") (simp_all add: mux_ok_def)
  with assms(2) s' show ?thesis by (simp add: sys_wf_def)
qed

lemma mux_deliver_wf:
  assumes "mux_deliver env status s = Some s'" "sys_wf s"
  shows "sys_wf s'"
proof -
  have "\<exists>cid c r. conv s cid = Some c \<and> s' = handleConv r (s\<lparr>s_mux := MIdle\<rparr>) \<and>
      ((\<exists>as. r = statusReceived env as status c (s_heap s)) \<or>
       (\<exists>q. r = questionReceived env q c (s_heap s)))"
    using assms(1) unfolding mux_deliver_def
    by (auto split: mux_pc.split_asm option.split_asm if_split_asm intro!: exI)
  then obtain cid c r where c: "conv s cid = Some c" and s': "s' = handleConv r (s\<lparr>s_mux := MIdle\<rparr>)"
    and r: "(\<exists>as. r = statusReceived env as status c (s_heap s)) \<or>
      (\<exists>q. r = questionReceived env q c (s_heap s))"
    by blast
  have "conv_wf c'" if "r = Inr (c', h)" for c' h
    using r that status_handler.handles_wf question_handler.handles_wf sys_wf_conv(2) [OF assms(2) c]
    by blast
  then show ?thesis unfolding s' by (intro handleConv_wf sys_wf_idle [OF assms(2)]) blast
qed

lemma mux_term_wf: "mux_term s = Some s' \<Longrightarrow> sys_wf s \<Longrightarrow> sys_wf s'"
  by (auto simp: mux_term_def sys_wf_def mux_ok_def split: if_split_asm)

lemma mux_ok_broadcasting:
  "s_backend s \<noteq> None \<Longrightarrow> distinct ids \<Longrightarrow> set ids \<subseteq> set (map fst (s_conversations s)) \<Longrightarrow>
   mux_ok (s\<lparr>s_mux := broadcasting d ids es f\<rparr>)"
  by (simp add: mux_ok_def broadcasting_def)

lemma mux_broadcast_wf:
  assumes "mux_broadcast cid s = Some s'" "sys_wf s"
  shows "sys_wf s'"
proof -
  from assms(1) obtain d ids es f c where pc: "s_mux s = MBroadcast d ids es f" "conv s cid = Some c"
    "length (c_BackendChan c) < 1"
    and s': "s' = setConv (c\<lparr>c_BackendChan := c_BackendChan c @ [d]\<rparr>)
      (s\<lparr>s_mux := broadcasting d (remove1 cid ids) es f\<rparr>)"
    by (auto simp: mux_broadcast_def split: mux_pc.splits option.splits if_split_asm)
  from assms(2) pc(1) have m: "s_backend s \<noteq> None" "distinct ids"
    "set ids \<subseteq> set (map fst (s_conversations s))"
    by (auto simp: sys_wf_def mux_ok_def)
  then have "sys_wf (s\<lparr>s_mux := broadcasting d (remove1 cid ids) es f\<rparr>)"
    using set_remove1_subset [of cid ids] by (intro sys_wf_mux [OF assms(2)] mux_ok_broadcasting) auto
  moreover have "conv_wf (c\<lparr>c_BackendChan := c_BackendChan c @ [d]\<rparr>)"
    using sys_wf_conv(2) [OF assms(2) pc(2)] pc(3) by (simp add: conv_wf_def split: option.splits)
  ultimately show ?thesis unfolding s' by (rule sys_wf_setConv)
qed

lemma mux_forward_wf:
  assumes "mux_forward s = Some s'" "sys_wf s"
  shows "sys_wf s'"
proof (cases "s_mux s")
  case MIdle
  with assms(1) obtain d ds where q: "s_ConversationBackendChan s = d # ds"
    by (auto simp: mux_forward_def split: list.splits)
  have "sys_wf (s\<lparr>s_ConversationBackendChan := ds, s_mux := MForward cid d\<rparr>)"
    if "conv s cid = Some c" for cid c
    using sys_wf_conv(3) [OF assms(2) that] assms(2) q by (simp add: sys_wf_def mux_ok_def)
  with MIdle q assms show ?thesis
    by (auto simp: mux_forward_def Let_def intro!: crashOr_wf)
next
  case (MForward cid d)
  with assms(1) obtain c where c: "conv s cid = Some c" "length (c_BackendChan c) < 1"
    and s': "s' = setConv (c\<lparr>c_BackendChan := c_BackendChan c @ [d]\<rparr>) (s\<lparr>s_mux := MIdle\<rparr>)"
    by (auto simp: mux_forward_def split: option.splits if_split_asm)
  have "conv_wf (c\<lparr>c_BackendChan := c_BackendChan c @ [d]\<rparr>)"
    using sys_wf_conv(2) [OF assms(2) c(1)] c(2) by (simp add: conv_wf_def split: option.splits)
  then show ?thesis unfolding s' by (rule sys_wf_setConv [OF sys_wf_idle [OF assms(2)]])
qed (use assms in \<open>simp_all add: mux_forward_def\<close>)

lemma Backend_backendReceived_keeps:
  assumes "Backend_backendReceived env d m h = Inr (pc, m', h')"
  shows "skeleton m' = skeleton m \<and> (pc = MIdle \<or> (\<exists>es f. pc = MSending es (Some f)))"
proof -
  from assms obtain r m1 where t: "searchTransition (backendTest env (map_option (cells h) d)) m = Inr (r, m1)"
    and c: "(case r of None \<Rightarrow> Inr (MIdle, m1, h) | Some f \<Rightarrow>
       bindG (BuildSendEventsFromBackendData env (f_place f) d m1 h) (\<lambda>(outs, m2, h').
       Inr (MSending (case outs of None \<Rightarrow> [] | Some es \<Rightarrow> es) (Some f), m2, h'))) = Inr (pc, m', h')"
    by (auto simp: Backend_backendReceived_def TriggersByBackendData_search)
  from by_backend.search_skeleton [OF t] have k1: "skeleton m1 = skeleton m" .
  show ?thesis
  proof (cases r)
    case None
    with c k1 show ?thesis by auto
  next
    case (Some f)
    with c obtain outs where b: "BuildSendEventsFromBackendData env (f_place f) d m1 h = Inr (outs, m', h')"
      and "pc = MSending (case outs of None \<Rightarrow> [] | Some es \<Rightarrow> es) (Some f)"
      by auto
    with build_keepsD [OF BuildSendEventsFromBackendData_keeps b] k1 show ?thesis by auto
  qed
qed

lemma backend_ok_cong:
  assumes "skeleton m = skeleton (b_machine b)" "length ds \<le> 1" "backend_ok b"
  shows "backend_ok \<lparr>b_machine = m, b_BackendChan = ds\<rparr>"
  using assms(2,3) wf_machine_cong [OF assms(1)] skeleton_eqD(1,4) [OF assms(1)]
  by (simp add: backend_ok_def)

lemma mux_backend_wf:
  assumes "mux_backend env s = Some s'" "sys_wf s"
  shows "sys_wf s'"
proof -
  from assms(1) obtain b d ds where b: "s_backend s = Some b" "b_BackendChan b = d # ds"
    and s': "s' = crashOr (Backend_backendReceived env d (b_machine b) (s_heap s)) s
      (\<lambda>(pc, m, h). s\<lparr>s_mux := pc, s_heap := h,
         s_backend := Some \<lparr>b_machine = m, b_BackendChan = ds\<rparr>\<rparr>)"
    by (auto simp: mux_backend_def split: mux_pc.split_asm option.split_asm list.split_asm)
  from assms(2) b(1) have ok: "backend_ok b" by (simp add: sys_wf_def)
  show ?thesis unfolding s'
  proof (rule crashOr_wf [OF assms(2)], clarsimp)
    fix pc m h
    assume r: "Backend_backendReceived env d (b_machine b) (s_heap s) = Inr (pc, m, h)"
    from Backend_backendReceived_keeps [OF r] have k: "skeleton m = skeleton (b_machine b)"
      "pc = MIdle \<or> (\<exists>es f. pc = MSending es (Some f))" by auto
    from ok b(2) have "length ds \<le> 1" by (simp add: backend_ok_def)
    from backend_ok_cong [OF k(1) this ok] k(2) assms(2)
    show "sys_wf (s\<lparr>s_mux := pc, s_heap := h, s_backend := Some \<lparr>b_machine = m, b_BackendChan = ds\<rparr>\<rparr>)"
      by (auto simp: sys_wf_def mux_ok_def)
  qed
qed

lemma mux_send_wf:
  assumes "mux_send s = Some s'" "sys_wf s"
  shows "sys_wf s'"
proof -
  from assms(1) obtain es f where pc0: "s_mux s = MSending es f"
    by (auto simp: mux_send_def split: mux_pc.split_asm)
  with assms(2) obtain b where "s_backend s = Some b" by (auto simp: sys_wf_def mux_ok_def)
  note pc = pc0 this
  from assms(2) have ok: "backend_ok b" "distinct (map fst (s_conversations s))"
    using pc(2) by (simp_all add: sys_wf_def)
  show ?thesis
  proof (cases es)
    case Nil
    show ?thesis
    proof (cases f)
      case None
      with pc Nil assms show ?thesis by (auto simp: mux_send_def intro: sys_wf_idle)
    next
      case (Some t)
      have "sys_wf (s\<lparr>s_mux := (if sig then MBlocked else MIdle), s_backend := Some (b\<lparr>b_machine := m\<rparr>)\<rparr>)"
        if "Step t (b_machine b) = Inr (m, sig)" for m sig
      proof -
        from Step_Inr [OF that] have m: "m = stepped t (b_machine b)"
          "f_Target t \<in> set (map fst (m_States (b_machine b)))" by auto
        with ok(1) have "backend_ok (b\<lparr>b_machine := m\<rparr>)"
          by (simp add: backend_ok_def wf_machine_stepped)
        with assms(2) show ?thesis by (simp add: sys_wf_def mux_ok_def)
      qed
      with pc Nil Some assms show ?thesis
        by (auto simp: mux_send_def intro!: crashOr_wf)
    qed
  next
    case (Cons e es')
    have "sys_wf (s\<lparr>s_mux := broadcasting d (map fst (s_conversations s)) es' f\<rparr>)" for d
      using ok(2) pc(2) by (intro sys_wf_mux [OF assms(2)] mux_ok_broadcasting) auto
    moreover have "sys_wf (s\<lparr>s_mux := MSending es' f\<rparr>)"
      using pc(2) by (intro sys_wf_mux [OF assms(2)]) (simp add: mux_ok_def)
    ultimately show ?thesis
      using pc Cons assms by (auto simp: mux_send_def intro!: crashOr_wf split: if_split_asm)
  qed
qed

lemma conv_start_wf:
  assumes "files_ok cd info" "conv_start env cd info c s = Some s'" "sys_wf s" "conv_wf c"
  shows "sys_wf s'"
  using assms(2) Run_start_wf [OF assms(1) _ assms(4)] assms(3)
  by (auto simp: conv_start_def intro!: handleConv_wf split: if_split_asm)

lemma conv_wf_upd:
  "conv_wf c \<Longrightarrow> c_pc c \<noteq> CStart \<Longrightarrow> pc \<noteq> CStart \<Longrightarrow> conv_wf (c\<lparr>c_pc := pc\<rparr>)"
  by (simp add: conv_wf_def split: option.splits)

lemma conv_wf_transient:
  "conv_wf c \<Longrightarrow> conv_wf (c\<lparr>c_TransientChan := [x]\<rparr>)"
  by (simp add: conv_wf_def split: option.splits)

lemma conv_wf_outputSets [simp]: "conv_wf (outputSets out r c) = conv_wf c"
  by (simp add: conv_wf_def split: option.split)

lemma sys_wf_backend_push:
  "sys_wf s \<Longrightarrow> s_backend s = Some b \<Longrightarrow>
   sys_wf (s\<lparr>s_heap := h, s_backend := Some (b\<lparr>b_BackendChan := [d]\<rparr>)\<rparr>)"
  by (cases "s_mux s") (simp_all add: sys_wf_def mux_ok_def backend_ok_def)

lemma conv_output_wf:
  assumes "conv_output out r c s = Some s'" "sys_wf s" "conv_wf c"
  shows "sys_wf s'"
proof (cases out)
  case (OTransient msg)
  with assms show ?thesis
    by (auto simp: conv_output_def intro!: sys_wf_setConv conv_wf_transient split: if_split_asm)
next
  case (OBackend p)
  with assms show ?thesis
    by (auto simp: conv_output_def intro!: sys_wf_setConv sys_wf_backend_push
        split: if_split_asm option.split_asm)
qed (use assms in \<open>auto simp: conv_output_def isRequest_def intro!: sys_wf_setConv
      split: option.split_asm if_split_asm\<close>)

lemma conv_send_wf:
  assumes "conv_send r c s = Some s'" "sys_wf s" "conv_wf c"
  shows "sys_wf s'"
proof (cases "c_pc c")
  case (CSending es status f)
  show ?thesis
  proof (cases es)
    case Nil
    have "sys_wf (setConv c' s)" if "finishSend f c = Inr c'" for c'
      using finishSend_wf [OF that assms(3)] CSending by (intro sys_wf_setConv [OF assms(2)]) auto
    with CSending Nil assms show ?thesis by (auto simp: conv_send_def intro!: crashOr_wf)
  next
    case (Cons e es')
    have "conv_wf (c\<lparr>c_pc := CSending es' status f\<rparr>)"
      using CSending by (intro conv_wf_upd [OF assms(3)]) auto
    with CSending Cons assms show ?thesis
      by (auto simp: conv_send_def split: sum.split_asm intro: conv_output_wf)
  qed
next
  case CSignal
  with assms have "s' = setConv (c\<lparr>c_pc := CIdle\<rparr>) (s\<lparr>s_termChan := Suc (s_termChan s)\<rparr>)"
    "s_termChan s < 1" by (auto simp: conv_send_def split: if_split_asm)
  moreover have "sys_wf (s\<lparr>s_termChan := Suc (s_termChan s)\<rparr>)" if "s_termChan s < 1"
    using assms(2) that by (cases "s_mux s") (simp_all add: sys_wf_def mux_ok_def)
  moreover have "conv_wf (c\<lparr>c_pc := CIdle\<rparr>)" using CSignal by (intro conv_wf_upd [OF assms(3)]) auto
  ultimately show ?thesis by (simp add: sys_wf_setConv)
qed (use assms in \<open>simp_all add: conv_send_def\<close>)

lemma conv_wf_take:
  "conv_wf c \<Longrightarrow> c_BackendChan c = d # ds \<Longrightarrow> conv_wf (c\<lparr>c_BackendChan := ds\<rparr>)"
  "conv_wf c \<Longrightarrow> c_TransientChan c = x # xs \<Longrightarrow> conv_wf (c\<lparr>c_TransientChan := xs\<rparr>)"
  by (simp_all add: conv_wf_def split: option.splits)

lemma conv_backend_wf:
  assumes "conv_backend env c s = Some s'" "sys_wf s" "conv_wf c"
  shows "sys_wf s'"
proof -
  from assms(1) obtain d ds where q: "c_BackendChan c = d # ds"
    and s': "s' = handleConv (conv_backendReceived env d (c\<lparr>c_BackendChan := ds\<rparr>) (s_heap s)) s"
    by (auto simp: conv_backend_def split: conv_pc.split_asm list.split_asm)
  show ?thesis unfolding s'
    using backend_handler.handles_wf conv_wf_take(1) [OF assms(3) q] by (intro handleConv_wf [OF assms(2)]) blast
qed

lemma conv_transient_wf:
  assumes "conv_transient env c s = Some s'" "sys_wf s" "conv_wf c"
  shows "sys_wf s'"
proof -
  from assms(1) obtain d ds where q: "c_TransientChan c = d # ds"
    and s': "s' = handleConv (stepReceived env d (c\<lparr>c_TransientChan := ds\<rparr>) (s_heap s)) s"
    by (auto simp: conv_transient_def split: conv_pc.split_asm list.split_asm)
  show ?thesis unfolding s'
    using step_handler.handles_wf conv_wf_take(2) [OF assms(3) q] by (intro handleConv_wf [OF assms(2)]) blast
qed

lemma withConv_wf:
  assumes "withConv cid f s = Some s'" "sys_wf s"
    "\<And>c. f c s = Some s' \<Longrightarrow> conv_wf c \<Longrightarrow> sys_wf s'"
  shows "sys_wf s'"
proof -
  from assms(1) obtain c where "conv s cid = Some c" "f c s = Some s'"
    by (auto simp: withConv_def split: option.split_asm)
  with assms(3) sys_wf_conv(2) [OF assms(2)] show ?thesis by blast
qed

lemma exec_wf:
  assumes "files_ok cd info" "exec env cd info l s = Some s'" "sys_wf s"
  shows "sys_wf s'"
proof -
  have ex: "s_panic s = None" using assms(2) by (auto simp: exec_def split: if_split_asm)
  note e = assms(2) [unfolded exec_def, simplified ex, simplified]
  show ?thesis
  proof (cases l)
    case (LConvStart cid)
    with e have "withConv cid (conv_start env cd info) s = Some s'" by simp
    then show ?thesis by (rule withConv_wf [OF _ assms(3)]) (rule conv_start_wf [OF assms(1) _ assms(3)])
  next
    case (LConvSend cid r)
    with e have "withConv cid (conv_send r) s = Some s'" by simp
    then show ?thesis by (rule withConv_wf [OF _ assms(3)]) (rule conv_send_wf [OF _ assms(3)])
  next
    case (LConvBackend cid)
    with e have "withConv cid (conv_backend env) s = Some s'" by simp
    then show ?thesis by (rule withConv_wf [OF _ assms(3)]) (rule conv_backend_wf [OF _ assms(3)])
  next
    case (LConvTransient cid)
    with e have "withConv cid (conv_transient env) s = Some s'" by simp
    then show ?thesis by (rule withConv_wf [OF _ assms(3)]) (rule conv_transient_wf [OF _ assms(3)])
  qed (use e assms(3) mux_status_wf mux_question_wf outside_wf mux_deliver_wf mux_backend_wf
      mux_send_wf mux_broadcast_wf mux_forward_wf mux_term_wf in auto)
qed

lemma mux_init_wf:
  assumes "files_ok cd info" "mux_init env cd info h0 = Inr s"
  shows "sys_wf s"
proof (cases "MachineData_IsValid (mi_BackendMachine info)")
  case False
  with assms(2) show ?thesis by (auto simp: mux_init_def sys_wf_def mux_ok_def)
next
  case True
  from assms(2) True obtain bd m0 r where b0: "mi_BackendMachine info = Some bd"
    "NewBackendMachine cd bd = Inr m0" "Initialize env m0 = Inr r"
    by (auto simp: mux_init_def Let_def)
  with assms(2) True obtain m1 where r: "r = Inr m1" by (cases r) (auto simp: mux_init_def Let_def)
  from assms(2) True b0 r obtain outs m2 h where b1: "Start env True (InitLua m1) h0 = Inr (outs, m2, h)"
    and s: "s = \<lparr>s_conversations = [], s_backend = Some \<lparr>b_machine = m2, b_BackendChan = []\<rparr>,
        s_ConversationBackendChan = [], s_termChan = 0, s_interrupts = 0,
        s_mux = MSending (case outs of None \<Rightarrow> [] | Some es \<Rightarrow> es) None, s_heap = h, s_panic = None\<rparr>"
    by (auto simp: mux_init_def Let_def)
  note b = b0(1,2) b0(3) [unfolded r] b1
  have ty: "m_Type m0 = MachineTypeBackend" using b(2) by (auto simp: NewBackendMachine_def)
  from assms(1) b(1,2) have "closed_machine m0" by (simp add: files_ok_def)
  from Initialize_wf [OF this b(3)] Initialize_initialised [OF b(3)] ty
  have "wf_machine ((InitLua m1)\<lparr>m_termChan := True\<rparr>)"
    "m_Type ((InitLua m1)\<lparr>m_termChan := True\<rparr>) = MachineTypeBackend"
    by (simp_all add: InitLua_def initialisedMachine_def go_consts)
  with wf_machine_cong [OF Start_keeps [OF b(4)]] skeleton_eqD(1,4) [OF Start_keeps [OF b(4)]]
  have "backend_ok \<lparr>b_machine = m2, b_BackendChan = []\<rparr>" by (simp add: backend_ok_def)
  then show ?thesis by (simp add: s sys_wf_def mux_ok_def)
qed

lemma reachable_wf:
  assumes "files_ok cd info" "reachable env cd info s"
  shows "sys_wf s"
  using assms(2) by induction (auto intro: mux_init_wf [OF assms(1)] exec_wf [OF assms(1)])

end
