(* ===== verification/Chat_Blocking.thy ===== *)
theory Chat_Blocking
  imports Chat_Invariant
begin

text \<open>
  What one goroutine cannot do to the others, and where the bot stops for good. A property of states
  that every step keeps is a locale; its interpretations are the states in which goroutines wait
  for each other forever.
\<close>

subsection \<open>A conversation leaves the others alone\<close>

definition conv_frame :: "string \<Rightarrow> sys \<Rightarrow> sys \<Rightarrow> bool" where
  "conv_frame cid s s' \<longleftrightarrow> s_mux s' = s_mux s \<and> s_interrupts s' = s_interrupts s \<and>
     s_ConversationBackendChan s' = s_ConversationBackendChan s \<and>
     map fst (s_conversations s') = map fst (s_conversations s) \<and>
     (\<forall>cid'. cid' \<noteq> cid \<longrightarrow> conv s' cid' = conv s cid')"

lemma conv_same: "s_conversations s' = s_conversations s \<Longrightarrow> conv s' cid = conv s cid"
  by (simp add: conv_def)

lemma conv_frame_setConv:
  assumes "c_id c = cid" "s_mux s' = s_mux s" "s_interrupts s' = s_interrupts s"
    "s_ConversationBackendChan s' = s_ConversationBackendChan s" "s_conversations s' = s_conversations s"
  shows "conv_frame cid s (setConv c s')"
  using assms conv_same [of s' s] by (simp add: conv_frame_def conv_setConv)

lemma conv_frame_panic: "conv_frame cid s (s\<lparr>s_panic := p\<rparr>)"
  by (simp add: conv_frame_def conv_def)

lemma conv_frame_handle:
  assumes "\<And>c h. r = Inr (c, h) \<Longrightarrow> c_id c = cid"
  shows "conv_frame cid s (handleConv r s)"
proof (cases r)
  case (Inl p)
  then show ?thesis by (simp add: handleConv_def crashOr_def conv_frame_panic)
next
  case (Inr x)
  obtain c h where "x = (c, h)" by (cases x)
  with Inr assms show ?thesis
    by (simp add: handleConv_def crashOr_def conv_frame_setConv)
qed

lemma conv_output_frame:
  assumes "conv_output out r c s = Some s'" "c_id c = cid"
  shows "conv_frame cid s s'"
  using assms
  by (cases out)
    (auto simp: conv_output_def isRequest_def conv_frame_panic intro!: conv_frame_setConv
      split: if_split_asm option.split_asm)

lemma finishSend_id: "finishSend f c = Inr c' \<Longrightarrow> c_id c' = c_id c"
  by (auto simp: finishSend_def split: option.split_asm)

lemma conv_send_frame:
  assumes "conv_send r c s = Some s'" "c_id c = cid"
  shows "conv_frame cid s s'"
proof (cases "c_pc c")
  case (CSending es status f)
  show ?thesis
  proof (cases es)
    case Nil
    with CSending assms have s': "s' = crashOr (finishSend f c) s (\<lambda>c'. setConv c' s)"
      by (simp add: conv_send_def)
    show ?thesis
    proof (cases "finishSend f c")
      case (Inl p)
      then show ?thesis by (simp add: s' crashOr_def conv_frame_panic)
    next
      case (Inr c')
      with finishSend_id [OF Inr] assms(2) show ?thesis
        by (simp add: s' crashOr_def conv_frame_setConv)
    qed
  next
    case (Cons e es')
    with CSending assms show ?thesis
      by (auto simp: conv_send_def conv_frame_panic split: sum.split_asm intro: conv_output_frame)
  qed
next
  case CSignal
  with assms show ?thesis
    by (auto simp: conv_send_def intro!: conv_frame_setConv split: if_split_asm)
qed (use assms in \<open>simp_all add: conv_send_def\<close>)

text \<open>Which conversation a label is about.\<close>

definition label_conv :: "label \<Rightarrow> string option" where
  "label_conv l = (case l of LConvStart cid \<Rightarrow> Some cid | LConvSend cid _ \<Rightarrow> Some cid
     | LConvBackend cid \<Rightarrow> Some cid | LConvTransient cid \<Rightarrow> Some cid | _ \<Rightarrow> None)"

lemma Run_start_id:
  assumes "Run_start env cd dat c h = Inr (c', h')"
  shows "c_id c' = c_id c"
proof -
  from assms obtain m0 r where r: "NewMachine cd dat = Inr m0" "Initialize env m0 = Inr r"
    by (auto simp: Run_start_def)
  with assms show ?thesis by (cases r) (auto simp: Run_start_def reacting_def)
qed

context conv_handler
begin

lemma keeps_id: "handle c h = Inr (c', h') \<Longrightarrow> c_id c' = c_id c"
  using frame [of c h c' h'] by (simp add: handled_frame_def)

end

lemma exec_conv_frame:
  assumes "sys_wf s" "exec env cd info l s = Some s'" "label_conv l = Some cid"
  shows "conv_frame cid s s'"
proof -
  have ex: "s_panic s = None" using assms(2) by (auto simp: exec_def split: if_split_asm)
  note e = assms(2) [unfolded exec_def, simplified ex, simplified]
  have "\<exists>f c. withConv cid f s = Some s' \<and> conv s cid = Some c \<and> f c s = Some s' \<and>
      (f = conv_start env cd info \<or> (\<exists>r. f = conv_send r) \<or> f = conv_backend env \<or> f = conv_transient env)"
    using e assms(3)
    by (cases l) (auto simp: label_conv_def withConv_def split: option.split_asm)
  then obtain f c where c: "conv s cid = Some c" and f: "f c s = Some s'"
    and k: "f = conv_start env cd info \<or> (\<exists>r. f = conv_send r) \<or> f = conv_backend env \<or> f = conv_transient env"
    by blast
  have cid: "c_id c = cid" using sys_wf_conv(1) [OF assms(1) c] .
  from k show ?thesis
  proof (elim disjE exE)
    assume "f = conv_start env cd info"
    with f cid show ?thesis
      by (auto simp: conv_start_def intro!: conv_frame_handle dest: Run_start_id split: if_split_asm)
  next
    fix r
    assume "f = conv_send r"
    with f have "conv_send r c s = Some s'" by simp
    from conv_send_frame [OF this cid] show ?thesis .
  next
    assume "f = conv_backend env"
    with f obtain d ds where "s' = handleConv (conv_backendReceived env d (c\<lparr>c_BackendChan := ds\<rparr>) (s_heap s)) s"
      by (auto simp: conv_backend_def split: conv_pc.split_asm list.split_asm)
    with cid show ?thesis by (auto intro!: conv_frame_handle dest: backend_handler.keeps_id)
  next
    assume "f = conv_transient env"
    with f obtain d ds where "s' = handleConv (stepReceived env d (c\<lparr>c_TransientChan := ds\<rparr>) (s_heap s)) s"
      by (auto simp: conv_transient_def split: conv_pc.split_asm list.split_asm)
    with cid show ?thesis by (auto intro!: conv_frame_handle dest: step_handler.keeps_id)
  qed
qed

subsection \<open>Properties that stay\<close>

locale stable =
  fixes env :: env and cd :: codec and info :: MultiplexerInfo and P :: "sys \<Rightarrow> bool"
  assumes stays: "files_ok cd info \<Longrightarrow> sys_wf s \<Longrightarrow> P s \<Longrightarrow> exec env cd info l s = Some s' \<Longrightarrow> P s'"
begin

lemma stays_execs:
  "files_ok cd info \<Longrightarrow> sys_wf s \<Longrightarrow> P s \<Longrightarrow> execs env cd info ls s = Some s' \<Longrightarrow> P s' \<and> sys_wf s'"
proof (induction ls arbitrary: s)
  case Nil
  then show ?case by simp
next
  case (Cons l ls)
  then obtain s1 where s1: "exec env cd info l s = Some s1" "execs env cd info ls s1 = Some s'"
    by (auto split: option.split_asm)
  with Cons.prems stays exec_wf Cons.IH show ?case by blast
qed

end

text \<open>
  The multiplexer at the send on the backend machine's termination channel: nobody reads it, so the
  multiplexer stays there, no conversation is ever created again and no interrupt is signalled.
\<close>

definition mux_stuck :: "string list \<Rightarrow> nat \<Rightarrow> sys \<Rightarrow> bool" where
  "mux_stuck ids n s \<longleftrightarrow> s_mux s = MBlocked \<and> map fst (s_conversations s) = ids \<and> s_interrupts s = n"

interpretation stuck_mux: stable env cd info "mux_stuck ids n" for env cd info ids n
proof
  fix s l s'
  assume wf: "sys_wf s" and p: "mux_stuck ids n s" and e: "exec env cd info l s = Some s'"
  show "mux_stuck ids n s'"
  proof (cases "label_conv l")
    case (Some cid)
    from exec_conv_frame [OF wf e Some] p show ?thesis by (simp add: mux_stuck_def conv_frame_def)
  next
    case None
    with p e show ?thesis
      by (cases l) (auto simp: label_conv_def mux_stuck_def exec_def mux_status_def mux_question_def
          outside_def mux_deliver_def mux_backend_def mux_send_def mux_broadcast_def mux_forward_def
          mux_term_def split_def split: if_split_asm)
  qed
qed

text \<open>
  A conversation whose next event is a transient step while one is waiting already: it is the only
  reader of that channel, so it waits for itself.
\<close>

definition self_locked :: "string \<Rightarrow> Event list \<Rightarrow> AgentStatus option \<Rightarrow> found option \<Rightarrow> sys \<Rightarrow> bool" where
  "self_locked cid es status f s \<longleftrightarrow>
     (case conv s cid of
        None \<Rightarrow> False
      | Some c \<Rightarrow> c_pc c = CSending es status f \<and> c_TransientChan c \<noteq> [] \<and>
          (\<exists>e rest msg. es = e # rest \<and> outputOf status e = Inr (OTransient msg)))"

lemma self_locked_conv: "conv s' cid = conv s cid \<Longrightarrow> self_locked cid es status f s \<Longrightarrow> self_locked cid es status f s'"
  by (simp add: self_locked_def)

lemma self_locked_frame:
  "conv_frame cid' s s' \<Longrightarrow> cid' \<noteq> cid \<Longrightarrow> self_locked cid es status f s \<Longrightarrow> self_locked cid es status f s'"
  by (rule self_locked_conv) (auto simp: conv_frame_def)

lemma self_locked_not_enabled:
  assumes "self_locked cid es status f s" "label_conv l = Some cid"
  shows "exec env cd info l s = None"
proof -
  from assms(1) obtain c e rest msg where c: "conv s cid = Some c" "c_pc c = CSending (e # rest) status f"
    "c_TransientChan c \<noteq> []" "outputOf status e = Inr (OTransient msg)"
    by (auto simp: self_locked_def split: option.split_asm)
  with assms(2) show ?thesis
    by (cases l) (auto simp: label_conv_def exec_def withConv_def conv_start_def conv_send_def
        conv_output_def conv_backend_def conv_transient_def)
qed

lemma self_locked_push:
  assumes "self_locked cid es status f s" "conv s cid' = Some c" "c_id c = cid'"
    "s_conversations s1 = s_conversations s"
  shows "self_locked cid es status f (setConv (c\<lparr>c_BackendChan := ds\<rparr>) s1)"
  using assms conv_same [of s1 s]
  by (cases "cid' = cid") (auto simp: self_locked_def conv_setConv split: option.split_asm)

lemma ensureConv_other: "conv s cid = Some c \<Longrightarrow> conv (ensureConv cid' s) cid = Some c"
  by (auto simp: ensureConv_def conv_def map_add_Some_iff)

lemma self_locked_ensure: "self_locked cid es status f s \<Longrightarrow> self_locked cid es status f ((ensureConv cid' s)\<lparr>s_mux := pc\<rparr>)"
proof -
  assume a: "self_locked cid es status f s"
  then obtain c where "conv s cid = Some c" by (auto simp: self_locked_def split: option.split_asm)
  with ensureConv_other [OF this, of cid'] a show ?thesis
    by (simp add: self_locked_def conv_def)
qed

text \<open>The steps of the multiplexer that do not touch a conversation.\<close>

lemma exec_same_conversations:
  assumes "exec env cd info l s = Some s'" "l \<in> {LBackend, LSend, LTerm} \<or> (\<exists>bd. l = LOutside bd)"
  shows "s_conversations s' = s_conversations s"
  using assms
  by (auto simp: exec_def outside_def mux_backend_def mux_send_def mux_term_def crashOr_def split_def
      split: if_split_asm mux_pc.split_asm option.split_asm list.split_asm sum.split_asm)

lemma deliver_frame:
  assumes "sys_wf s" "mux_deliver env status s = Some s'"
  shows "\<exists>cid c. conv s cid = Some c \<and> c_pc c = CIdle \<and> (\<forall>cid'. cid' \<noteq> cid \<longrightarrow> conv s' cid' = conv s cid')"
proof -
  have "\<exists>cid c r. conv s cid = Some c \<and> c_pc c = CIdle \<and> s' = handleConv r (s\<lparr>s_mux := MIdle\<rparr>) \<and>
      ((\<exists>as. r = statusReceived env as status c (s_heap s)) \<or>
       (\<exists>q. r = questionReceived env q c (s_heap s)))"
    using assms(2) unfolding mux_deliver_def
    by (auto split: mux_pc.split_asm option.split_asm if_split_asm intro!: exI)
  then obtain cid c r where c: "conv s cid = Some c" "c_pc c = CIdle"
    and s': "s' = handleConv r (s\<lparr>s_mux := MIdle\<rparr>)"
    and r: "(\<exists>as. r = statusReceived env as status c (s_heap s)) \<or>
      (\<exists>q. r = questionReceived env q c (s_heap s))" by blast
  have "c_id c' = cid" if "r = Inr (c', h)" for c' h
    using r that status_handler.keeps_id question_handler.keeps_id sys_wf_conv(1) [OF assms(1) c(1)]
    by blast
  then have "conv_frame cid (s\<lparr>s_mux := MIdle\<rparr>) s'" unfolding s' by (rule conv_frame_handle)
  with c conv_same [of "s\<lparr>s_mux := MIdle\<rparr>" s] show ?thesis by (auto simp: conv_frame_def)
qed

lemma self_locked_exec:
  assumes wf: "sys_wf s" and p: "self_locked cid es status f s" and e: "exec env cd info l s = Some s'"
  shows "self_locked cid es status f s'"
proof (cases "label_conv l")
  case (Some cid')
  with self_locked_not_enabled [OF p, of l] e have "cid' \<noteq> cid" by fastforce
  with self_locked_frame [OF exec_conv_frame [OF wf e Some]] p show ?thesis by blast
next
  case None
  have ex: "s_panic s = None" using e by (auto simp: exec_def split: if_split_asm)
  note e' = e [unfolded exec_def, simplified ex, simplified]
  show ?thesis
  proof (cases "l \<in> {LBackend, LSend, LTerm} \<or> (\<exists>bd. l = LOutside bd)")
    case True
    from self_locked_conv [OF conv_same [OF exec_same_conversations [OF e True]] p] show ?thesis .
  next
    case False
    show ?thesis
    proof (cases l)
      case (LStatus as)
      with e' p show ?thesis
        by (auto simp: mux_status_def Let_def intro: self_locked_ensure split: mux_pc.split_asm)
    next
      case (LQuestion q)
      with e' p show ?thesis
        by (auto simp: mux_question_def Let_def intro: self_locked_ensure split: mux_pc.split_asm)
    next
      case (LDeliver st)
      with e' have "mux_deliver env st s = Some s'" by simp
      from deliver_frame [OF wf this] obtain cid' c where c: "conv s cid' = Some c" "c_pc c = CIdle"
        "\<forall>cid''. cid'' \<noteq> cid' \<longrightarrow> conv s' cid'' = conv s cid''" by blast
      with p have "cid \<noteq> cid'" by (auto simp: self_locked_def)
      with c(3) self_locked_conv [OF _ p] show ?thesis by blast
    next
      case (LBroadcast cid')
      with e' obtain c d ids es' f' where c: "conv s cid' = Some c"
        "s' = setConv (c\<lparr>c_BackendChan := c_BackendChan c @ [d]\<rparr>)
          (s\<lparr>s_mux := broadcasting d (remove1 cid' ids) es' f'\<rparr>)"
        by (auto simp: mux_broadcast_def split: mux_pc.split_asm option.split_asm if_split_asm)
      from self_locked_push [OF p c(1) sys_wf_conv(1) [OF wf c(1)]] show ?thesis by (simp add: c(2))
    next
      case LForward
      show ?thesis
      proof (cases "\<exists>cid' d. s_mux s = MForward cid' d")
        case True
        then obtain cid' d where m: "s_mux s = MForward cid' d" by blast
        with LForward e' obtain c where c: "conv s cid' = Some c"
          "s' = setConv (c\<lparr>c_BackendChan := c_BackendChan c @ [d]\<rparr>) (s\<lparr>s_mux := MIdle\<rparr>)"
          by (auto simp: mux_forward_def split: option.split_asm if_split_asm list.split_asm)
        from self_locked_push [OF p c(1) sys_wf_conv(1) [OF wf c(1)]] show ?thesis by (simp add: c(2))
      next
        case False
        with LForward e' have "s_conversations s' = s_conversations s"
          by (auto simp: mux_forward_def crashOr_def
              split: mux_pc.split_asm list.split_asm sum.split_asm)
        from self_locked_conv [OF conv_same [OF this] p] show ?thesis .
      qed
    qed (use False None in \<open>auto simp: label_conv_def\<close>)
  qed
qed

interpretation self_lock: stable env cd info "self_locked cid es status f" for env cd info cid es status f
  by unfold_locales (rule self_locked_exec)

text \<open>The multiplexer that has a status for such a conversation waits with it.\<close>

definition all_locked :: "string \<Rightarrow> Event list \<Rightarrow> AgentStatus option \<Rightarrow> found option \<Rightarrow> AgentStatus \<Rightarrow> sys \<Rightarrow> bool" where
  "all_locked cid es status f as s \<longleftrightarrow> self_locked cid es status f s \<and> s_mux s = MStatus cid as"

lemma all_locked_exec:
  assumes wf: "sys_wf s" and p: "all_locked cid es status f as s" and e: "exec env cd info l s = Some s'"
  shows "all_locked cid es status f as s'"
proof -
  from p have sl: "self_locked cid es status f s" and m: "s_mux s = MStatus cid as"
    by (simp_all add: all_locked_def)
  then obtain c where c: "conv s cid = Some c" "c_pc c = CSending es status f"
    by (auto simp: self_locked_def split: option.split_asm)
  have "s_mux s' = MStatus cid as"
  proof (cases "label_conv l")
    case (Some cid')
    from exec_conv_frame [OF wf e Some] m show ?thesis by (simp add: conv_frame_def)
  next
    case None
    with e m c show ?thesis
      by (cases l) (auto simp: label_conv_def exec_def mux_status_def mux_question_def
          outside_def mux_deliver_def mux_backend_def mux_send_def mux_broadcast_def mux_forward_def
          mux_term_def split_def split: if_split_asm)
  qed
  with self_locked_exec [OF wf sl e] show ?thesis by (simp add: all_locked_def)
qed

interpretation all_lock: stable env cd info "all_locked cid es status f as" for env cd info cid es status f as
  by unfold_locales (rule all_locked_exec)

text \<open>
  The multiplexer broadcasts to a conversation whose channel is full while that conversation sends
  to the backend machine, whose channel is full and which only the multiplexer reads.
\<close>

definition cross_locked :: "string \<Rightarrow> sys \<Rightarrow> bool" where
  "cross_locked cid s \<longleftrightarrow>
     (\<exists>d es f. s_mux s = MBroadcast d [cid] es f) \<and>
     (\<exists>b. s_backend s = Some b \<and> b_BackendChan b \<noteq> []) \<and>
     (\<exists>c e rest status f p. conv s cid = Some c \<and> c_BackendChan c \<noteq> [] \<and>
        c_pc c = CSending (e # rest) status f \<and> outputOf status e = Inr (OBackend p))"

lemma backend_chan_keeps:
  assumes "conv_output out r c s = Some s'" "s_backend s = Some b" "b_BackendChan b \<noteq> []"
  shows "s_backend s' = Some b"
  using assms by (cases out) (auto simp: conv_output_def isRequest_def split: if_split_asm option.split_asm)

lemma crashOr_backend:
  "(\<And>x. s_backend (f x) = s_backend s) \<Longrightarrow> s_backend (crashOr r s f) = s_backend s"
  by (simp add: crashOr_def split: sum.split)

lemma handleConv_backend [simp]: "s_backend (handleConv r s) = s_backend s"
  unfolding handleConv_def by (rule crashOr_backend) (simp add: split_def)

lemma conv_label_backend:
  assumes "exec env cd info l s = Some s'" "label_conv l = Some cid" "s_backend s = Some b"
    "b_BackendChan b \<noteq> []"
  shows "s_backend s' = Some b"
  using assms backend_chan_keeps [OF _ assms(3,4)]
  by (cases l) (auto simp: label_conv_def exec_def withConv_def conv_start_def conv_send_def
      conv_backend_def conv_transient_def crashOr_def
      split: if_split_asm option.split_asm conv_pc.split_asm list.split_asm sum.split_asm)

lemma cross_locked_exec:
  assumes wf: "sys_wf s" and p: "cross_locked cid s" and e: "exec env cd info l s = Some s'"
  shows "cross_locked cid s'"
proof -
  from p obtain d es f b c ev rest status f' q where
    m: "s_mux s = MBroadcast d [cid] es f" and b: "s_backend s = Some b" "b_BackendChan b \<noteq> []" and
    c: "conv s cid = Some c" "c_BackendChan c \<noteq> []" "c_pc c = CSending (ev # rest) status f'"
      "outputOf status ev = Inr (OBackend q)"
    unfolding cross_locked_def by blast
  show ?thesis
  proof (cases "label_conv l")
    case (Some cid')
    have "cid' \<noteq> cid"
    proof
      assume "cid' = cid"
      with Some e b c show False
        by (cases l) (auto simp: label_conv_def exec_def withConv_def conv_start_def conv_send_def
            conv_output_def conv_backend_def conv_transient_def split: if_split_asm)
    qed
    with exec_conv_frame [OF wf e Some] conv_label_backend [OF e Some b] m b c show ?thesis
      unfolding conv_frame_def cross_locked_def by metis
  next
    case None
    with e m b c obtain bd where "outside bd s = Some s'"
      by (cases l) (auto simp: label_conv_def exec_def mux_status_def mux_question_def
          mux_deliver_def mux_backend_def mux_send_def mux_broadcast_def mux_forward_def
          mux_term_def split_def split: if_split_asm option.split_asm)
    then have "s_mux s' = s_mux s" "s_backend s' = s_backend s" "s_conversations s' = s_conversations s"
      by (auto simp: outside_def split_def split: if_split_asm)
    with p conv_same [of s' s cid] show ?thesis by (simp add: cross_locked_def)
  qed
qed

interpretation cross_lock: stable env cd info "cross_locked cid" for env cd info cid
  by unfold_locales (rule cross_locked_exec)

subsection \<open>How the bot gets there\<close>

text \<open>The backend machine steps into a terminating state.\<close>

lemma backend_terminates_blocks:
  assumes "s_panic s = None" "s_mux s = MSending [] (Some t)" "s_backend s = Some b"
    and "backend_ok b" "stateOf (b_machine b) (f_Target t) = Some st" "s_Terminate st"
  shows "\<exists>s'. exec env cd info LSend s = Some s' \<and> s_mux s' = MBlocked \<and>
    map fst (s_conversations s') = map fst (s_conversations s) \<and> s_interrupts s' = s_interrupts s"
proof -
  from assms(5) have "f_Target t \<in> set (map fst (m_States (b_machine b)))" unfolding stateOf_key by blast
  with Step_wf [of "b_machine b" t] assms(4-6) have
    "Step t (b_machine b) = Inr (stepped t (b_machine b), True)" by (auto simp: backend_ok_def)
  with assms(1-3) show ?thesis by (simp add: exec_def mux_send_def crashOr_def)
qed

text \<open>One handler that sends two transient steps, or sends one while another waits.\<close>

lemma two_transients_lock:
  assumes "s_panic s = None" "conv s cid = Some c" "c_id c = cid"
    and "c_pc c = CSending (e1 # e2 # es) status f" "c_TransientChan c = []"
    and "outputOf status e1 = Inr (OTransient msg1)" "outputOf status e2 = Inr (OTransient msg2)"
  shows "\<exists>s'. exec env cd info (LConvSend cid r) s = Some s' \<and> self_locked cid (e2 # es) status f s'"
proof -
  let ?c = "c\<lparr>c_pc := CSending (e2 # es) status f, c_TransientChan := [msg1]\<rparr>"
  have "exec env cd info (LConvSend cid r) s = Some (setConv ?c s)"
    using assms by (simp add: exec_def withConv_def conv_send_def conv_output_def)
  moreover have "self_locked cid (e2 # es) status f (setConv ?c s)"
    using assms by (simp add: self_locked_def conv_setConv)
  ultimately show ?thesis by blast
qed

subsection \<open>Termination of a conversation reaches the user\<close>

lemma conv_signal_interrupts:
  assumes "s_panic s = None" "sys_wf s" "conv s cid = Some c" "c_pc c = CSignal" "s_mux s = MIdle"
    and "s_termChan s = 0"
  shows "\<exists>s'. execs env cd info [LConvSend cid r, LTerm, LTerm] s = Some s' \<and>
    s_interrupts s' = Suc (s_interrupts s) \<and> s_mux s' = MIdle \<and>
    conv s' cid = Some (c\<lparr>c_pc := CIdle\<rparr>)"
  using assms sys_wf_conv(1) [OF assms(2,3)]
  by (simp add: exec_def withConv_def conv_send_def mux_term_def conv_setConv)
    (simp add: conv_def setConv_def map_of_alist_update)

end
