(* ===== verification/Chat_Relation.thy ===== *)
theory Chat_Relation
  imports Chat_Machines
begin

text \<open>
  What a step of the bot does to its conversations, once and for all: a relation that holds between a
  conversation and itself after each kind of move it can make holds for every conversation of the
  bot over every step, and a property of conversations that each move keeps holds in every reachable
  state. Both are locales; the interpretations are the programs of the machines and the targets of
  the transitions found.
\<close>

subsection \<open>Moves of a conversation\<close>

locale conv_relation =
  fixes env :: env and cd :: codec and info :: MultiplexerInfo
    and R :: "Conversation \<Rightarrow> Conversation \<Rightarrow> bool"
  assumes same: "c_machine c' = c_machine c \<Longrightarrow> c_pc c' = c_pc c \<Longrightarrow> c_id c' = c_id c \<Longrightarrow> R c c'"
    and sent: "c_pc c = CSending (e # es) st f \<Longrightarrow> c_pc c' = CSending es st f \<Longrightarrow>
      c_machine c' = c_machine c \<Longrightarrow> c_id c' = c_id c \<Longrightarrow> R c c'"
    and finished: "c_pc c = CSending [] st f \<Longrightarrow> finishSend f c = Inr c' \<Longrightarrow> R c c'"
    and signalled: "c_pc c = CSignal \<Longrightarrow> R c (c\<lparr>c_pc := CIdle\<rparr>)"
    and started: "c_pc c = CStart \<Longrightarrow> Run_start env cd (mi_ConversationMachine info) c h = Inr (c', h') \<Longrightarrow> R c c'"
    and handled: "c_pc c = CIdle \<Longrightarrow> c_machine c0 = c_machine c \<Longrightarrow> c_id c0 = c_id c \<Longrightarrow> handled_frame c0 c' \<Longrightarrow>
      (\<And>m. c_machine c = Some m \<Longrightarrow> wf_machine m \<Longrightarrow> lua_free m \<Longrightarrow> has_target c') \<Longrightarrow> R c c'"

text \<open>All conversations of a state, seen from the state before.\<close>

definition all_related :: "(Conversation \<Rightarrow> Conversation \<Rightarrow> bool) \<Rightarrow> sys \<Rightarrow> sys \<Rightarrow> bool" where
  "all_related R s s' \<longleftrightarrow>
     (\<forall>cid c'. conv s' cid = Some c' \<longrightarrow>
        (case conv s cid of None \<Rightarrow> c' = newConversation cid | Some c \<Rightarrow> R c c'))"

context conv_relation
begin

lemma related_same: "s_conversations s' = s_conversations s \<Longrightarrow> all_related R s s'"
  by (auto simp: all_related_def conv_def intro: same split: option.split)

lemma related_panic [simp]: "all_related R s (s\<lparr>s_panic := p\<rparr>)"
  by (simp add: related_same)

lemma related_setConv:
  assumes "s_conversations s' = s_conversations s" "conv s cid = Some c" "c_id c' = cid" "R c c'"
  shows "all_related R s (setConv c' s')"
  using assms conv_same [OF assms(1)]
  by (auto simp: all_related_def conv_setConv intro: same split: option.split)

lemma related_crash:
  assumes "\<And>x. r = Inr x \<Longrightarrow> all_related R s (f x)" "s_conversations s1 = s_conversations s"
  shows "all_related R s (crashOr r s1 f)"
  using assms by (cases r) (simp_all add: crashOr_def related_same)

lemma related_handle:
  assumes "s_conversations s' = s_conversations s" "conv s cid = Some c"
    "\<And>c' h. r = Inr (c', h) \<Longrightarrow> c_id c' = cid \<and> R c c'"
  shows "all_related R s (handleConv r s')"
  unfolding handleConv_def
  by (rule related_crash) (use assms in \<open>auto intro!: related_setConv\<close>)

lemma output_related:
  assumes "conv_output out r (c\<lparr>c_pc := CSending es st f\<rparr>) s = Some s'" "conv s cid = Some c" "c_id c = cid"
    "c_pc c = CSending (e # es) st f"
  shows "all_related R s s'"
  using assms
  by (cases out)
    (auto simp: conv_output_def isRequest_def intro!: related_setConv sent [OF assms(4)]
      split: if_split_asm option.split_asm)

lemma send_related:
  assumes "conv_send r c s = Some s'" "conv s cid = Some c" "c_id c = cid"
  shows "all_related R s s'"
proof (cases "c_pc c")
  case (CSending es status f)
  show ?thesis
  proof (cases es)
    case Nil
    with CSending assms have s': "s' = crashOr (finishSend f c) s (\<lambda>c'. setConv c' s)"
      by (simp add: conv_send_def)
    show ?thesis unfolding s'
      by (rule related_crash)
        (use assms finishSend_id finished CSending Nil in \<open>auto intro!: related_setConv\<close>)
  next
    case (Cons e es')
    with CSending assms show ?thesis
      by (auto simp: conv_send_def split: sum.split_asm intro: output_related)
  qed
next
  case CSignal
  with assms show ?thesis
    by (auto simp: conv_send_def intro!: related_setConv signalled split: if_split_asm)
qed (use assms in \<open>simp_all add: conv_send_def\<close>)

lemma ensureConv_related: "s_conversations s' = s_conversations (ensureConv cid s) \<Longrightarrow> all_related R s s'"
  using conv_same [of s' "ensureConv cid s"]
  by (auto simp: all_related_def ensureConv_def conv_def map_add_def
      intro: same split: option.splits if_split_asm)

text \<open>A handler of the interface \<open>conv_handler\<close> that runs on an idle conversation.\<close>

lemma handler_related:
  assumes "conv_handler handle" "conv s cid = Some c" "c_id c = cid" "c_pc c = CIdle"
    "c_machine c0 = c_machine c" "c_id c0 = cid" "s_conversations s1 = s_conversations s"
  shows "all_related R s (handleConv (handle c0 h) s1)"
proof (rule related_handle [OF assms(7,2)])
  fix c' h'
  assume r: "handle c0 h = Inr (c', h')"
  note fr = conv_handler.frame [OF assms(1) r]
  have "has_target c'" if "c_machine c = Some m" "wf_machine m" "lua_free m" for m
    by (rule conv_handler.target [OF assms(1) r]) (use that assms(5) in simp_all)
  with handled [OF assms(4,5) _ fr] fr assms(3,6) show "c_id c' = cid \<and> R c c'"
    by (simp add: handled_frame_def)
qed

lemma conv_label_related:
  assumes "sys_wf s" "withConv cid f s = Some s'"
    "f = conv_start env cd info \<or> (\<exists>r. f = conv_send r) \<or> f = conv_backend env \<or> f = conv_transient env"
  shows "all_related R s s'"
proof -
  from assms(2) obtain c where c: "conv s cid = Some c" and f: "f c s = Some s'"
    by (auto simp: withConv_def split: option.split_asm)
  note cid = sys_wf_conv(1) [OF assms(1) c]
  from assms(3) show ?thesis
  proof (elim disjE exE)
    assume "f = conv_start env cd info"
    with f cid show ?thesis
      by (auto simp: conv_start_def split: if_split_asm dest: Run_start_id
          intro!: related_handle [OF refl c] started)
  next
    fix r
    assume "f = conv_send r"
    with f have "conv_send r c s = Some s'" by simp
    from send_related [OF this c cid] show ?thesis .
  next
    assume "f = conv_backend env"
    with f obtain d ds where s': "s' = handleConv (conv_backendReceived env d (c\<lparr>c_BackendChan := ds\<rparr>) (s_heap s)) s"
      and pc: "c_pc c = CIdle"
      by (auto simp: conv_backend_def split: conv_pc.split_asm list.split_asm)
    show ?thesis unfolding s'
      by (rule handler_related [OF backend_handler.conv_handler_axioms c cid pc]) (simp_all add: cid)
  next
    assume "f = conv_transient env"
    with f obtain d ds where s': "s' = handleConv (stepReceived env d (c\<lparr>c_TransientChan := ds\<rparr>) (s_heap s)) s"
      and pc: "c_pc c = CIdle"
      by (auto simp: conv_transient_def split: conv_pc.split_asm list.split_asm)
    show ?thesis unfolding s'
      by (rule handler_related [OF step_handler.conv_handler_axioms c cid pc]) (simp_all add: cid)
  qed
qed

lemma deliver_related:
  assumes "sys_wf s" "mux_deliver env status s = Some s'"
  shows "all_related R s s'"
proof -
  have "\<exists>cid c handle. conv s cid = Some c \<and> c_pc c = CIdle \<and> conv_handler handle \<and>
      s' = handleConv (handle c (s_heap s)) (s\<lparr>s_mux := MIdle\<rparr>)"
    using assms(2) status_handler.conv_handler_axioms question_handler.conv_handler_axioms
    unfolding mux_deliver_def
    by (fastforce split: mux_pc.split_asm option.split_asm if_split_asm)
  then obtain cid c handle where c: "conv s cid = Some c" "c_pc c = CIdle" and h: "conv_handler handle"
    and s': "s' = handleConv (handle c (s_heap s)) (s\<lparr>s_mux := MIdle\<rparr>)" by blast
  note cid = sys_wf_conv(1) [OF assms(1) c(1)]
  show ?thesis unfolding s'
    by (rule handler_related [OF h c(1) cid c(2)]) (simp_all add: cid)
qed

lemma push_related:
  assumes "sys_wf s" "conv s cid = Some c" "s_conversations s1 = s_conversations s"
  shows "all_related R s (setConv (c\<lparr>c_BackendChan := ds\<rparr>) s1)"
  using sys_wf_conv(1) [OF assms(1,2)] assms by (auto intro!: related_setConv same)

lemma exec_related:
  assumes "sys_wf s" "exec env cd info l s = Some s'"
  shows "all_related R s s'"
proof -
  have ex: "s_panic s = None" using assms(2) by (auto simp: exec_def split: if_split_asm)
  note e = assms(2) [unfolded exec_def, simplified ex, simplified]
  show ?thesis
  proof (cases "l \<in> {LBackend, LSend, LTerm} \<or> (\<exists>bd. l = LOutside bd)")
    case True
    from exec_same_conversations [OF assms(2) True] show ?thesis by (rule related_same)
  next
    case other: False
    show ?thesis
    proof (cases l)
      case (LStatus as)
      with e show ?thesis by (auto simp: mux_status_def Let_def split: mux_pc.split_asm intro: ensureConv_related)
    next
      case (LQuestion q)
      with e show ?thesis by (auto simp: mux_question_def Let_def split: mux_pc.split_asm intro: ensureConv_related)
    next
      case (LDeliver st)
      with e show ?thesis by (auto intro: deliver_related [OF assms(1)])
    next
      case (LBroadcast cid)
      with e obtain c d ids es f where "conv s cid = Some c"
        "s' = setConv (c\<lparr>c_BackendChan := c_BackendChan c @ [d]\<rparr>)
          (s\<lparr>s_mux := broadcasting d (remove1 cid ids) es f\<rparr>)"
        by (auto simp: mux_broadcast_def split: mux_pc.split_asm option.split_asm if_split_asm)
      with push_related [OF assms(1)] show ?thesis by simp
    next
      case LForward
      show ?thesis
      proof (cases "\<exists>cid d. s_mux s = MForward cid d")
        case True
        with LForward e obtain cid c d where "conv s cid = Some c"
          "s' = setConv (c\<lparr>c_BackendChan := c_BackendChan c @ [d]\<rparr>) (s\<lparr>s_mux := MIdle\<rparr>)"
          by (auto simp: mux_forward_def split: option.split_asm if_split_asm list.split_asm)
        with push_related [OF assms(1)] show ?thesis by simp
      next
        case False
        with LForward e have "s_conversations s' = s_conversations s"
          by (auto simp: mux_forward_def crashOr_def
              split: mux_pc.split_asm list.split_asm sum.split_asm)
        then show ?thesis by (rule related_same)
      qed
    next
      case (LConvStart cid)
      with e show ?thesis by (intro conv_label_related [OF assms(1), of cid]) auto
    next
      case (LConvSend cid r)
      with e show ?thesis by (intro conv_label_related [OF assms(1), of cid]) auto
    next
      case (LConvBackend cid)
      with e show ?thesis by (intro conv_label_related [OF assms(1), of cid]) auto
    next
      case (LConvTransient cid)
      with e show ?thesis by (intro conv_label_related [OF assms(1), of cid]) auto
    qed (use other in auto)
  qed
qed

end

subsection \<open>Invariants of conversations\<close>

lemma mux_init_empty:
  assumes "mux_init env cd info h0 = Inr s"
  shows "s_conversations s = []"
proof (cases "MachineData_IsValid (mi_BackendMachine info)")
  case False
  with assms show ?thesis by (auto simp: mux_init_def)
next
  case True
  with assms obtain bd m0 r where "mi_BackendMachine info = Some bd"
    "NewBackendMachine cd bd = Inr m0" "Initialize env m0 = Inr r"
    by (auto simp: mux_init_def Let_def)
  with assms True show ?thesis by (cases r) (auto simp: mux_init_def Let_def)
qed

locale conv_invariant =
  conv_relation env cd info "\<lambda>c c'. conv_wf c \<longrightarrow> Q c \<longrightarrow> Q c'" for env cd info Q +
  assumes fresh: "Q (newConversation cid)"
begin

lemma reachable_convs:
  assumes "files_ok cd info" "reachable env cd info s" "conv s cid = Some c"
  shows "Q c"
proof -
  have "\<forall>cid c. conv s cid = Some c \<longrightarrow> Q c"
    using assms(2)
  proof induction
    case (init h0 s)
    then have "s_conversations s = []" by (rule mux_init_empty)
    then show ?case by (simp add: conv_def)
  next
    case (step s l s')
    note wf = reachable_wf [OF assms(1) step.hyps(1)]
    show ?case
    proof (intro allI impI)
      fix cid c'
      assume c': "conv s' cid = Some c'"
      with exec_related [OF wf step.hyps(2)] have
        "case conv s cid of None \<Rightarrow> c' = newConversation cid | Some c \<Rightarrow> conv_wf c \<longrightarrow> Q c \<longrightarrow> Q c'"
        by (simp add: all_related_def)
      with step.IH sys_wf_conv(2) [OF wf] fresh show "Q c'" by (auto split: option.split_asm)
    qed
  qed
  with assms(3) show ?thesis by blast
qed

end

end
