(* ===== verification/Chat_Programs.thy ===== *)
theory Chat_Programs
  imports Chat_Relation
begin

text \<open>
  The program of a conversation's machine, that is its states with triggers, events and targets but
  without the data of the events, is what the file says, in every reachable state of the bot; and
  what a conversation sends are the events of the transition it has found. A property of machines
  that survives every step of the bot is a locale; the program is its interpretation.
\<close>

subsection \<open>How the machine of a conversation changes\<close>

definition machine_step :: "Machine \<Rightarrow> Machine \<Rightarrow> bool" where
  "machine_step m m' \<longleftrightarrow> skeleton m' = skeleton m \<or> (\<exists>f. m' = stepped f m)"

definition machine_started :: "env \<Rightarrow> codec \<Rightarrow> MachineData \<Rightarrow> Machine \<Rightarrow> bool" where
  "machine_started env cd dat m' \<longleftrightarrow>
     (\<exists>m0 m1 cid. NewMachine cd dat = Inr m0 \<and> Initialize env m0 = Inr (Inr m1) \<and>
        skeleton m' = skeleton ((InitLua (m1\<lparr>m_ConnID := cid\<rparr>))\<lparr>m_termChan := True\<rparr>))"

text \<open>A property of machines that every step keeps and every start establishes.\<close>

locale machine_invariant =
  fixes env :: env and cd :: codec and info :: MultiplexerInfo and Q :: "Machine \<Rightarrow> bool"
  assumes steps: "Q m \<Longrightarrow> machine_step m m' \<Longrightarrow> Q m'"
    and starts: "machine_started env cd (mi_ConversationMachine info) m \<Longrightarrow> Q m"

lemma finishSend_step:
  assumes "finishSend f c = Inr c'" "c_machine c' = Some m'"
  shows "\<exists>m. c_machine c = Some m \<and> machine_step m m'"
proof (cases f)
  case None
  with assms show ?thesis by (auto simp: finishSend_def machine_step_def)
next
  case (Some t)
  with assms obtain m sig where m: "c_machine c = Some m" "Step t m = Inr (m', sig)"
    by (auto simp: finishSend_def)
  with Step_Inr [OF m(2)] show ?thesis by (auto simp: machine_step_def)
qed

lemma Run_start_started:
  assumes "Run_start env cd dat c h = Inr (c', h')"
  shows "\<exists>m'. c_machine c' = Some m' \<and> machine_started env cd dat m' \<and>
    (\<exists>es. c_pc c' = CSending es None None)"
proof -
  from assms obtain m0 r where r: "NewMachine cd dat = Inr m0" "Initialize env m0 = Inr r"
    by (auto simp: Run_start_def)
  with assms obtain m1 where m1: "r = Inr m1" by (cases r) (auto simp: Run_start_def)
  from assms r m1 obtain outs m2 where st: "Start env True (InitLua (m1\<lparr>m_ConnID := c_id c\<rparr>)) h = Inr (outs, m2, h')"
    and "c_machine c' = Some m2" "\<exists>es. c_pc c' = CSending es None None"
    by (auto simp: Run_start_def reacting_def)
  with Start_keeps [OF st] r m1 show ?thesis
    unfolding machine_started_def by blast
qed

sublocale machine_invariant \<subseteq> conv_invariant env cd info "\<lambda>c. \<forall>m. c_machine c = Some m \<longrightarrow> Q m"
proof
  fix c c' :: Conversation and h h'
  assume "Run_start env cd (mi_ConversationMachine info) c h = Inr (c', h')"
  with Run_start_started starts show "conv_wf c \<longrightarrow> (\<forall>m. c_machine c = Some m \<longrightarrow> Q m) \<longrightarrow>
      (\<forall>m. c_machine c' = Some m \<longrightarrow> Q m)" by fastforce
next
  fix c0 c c' :: Conversation
  assume "c_machine c0 = c_machine c" "handled_frame c0 c'"
  then show "conv_wf c \<longrightarrow> (\<forall>m. c_machine c = Some m \<longrightarrow> Q m) \<longrightarrow> (\<forall>m. c_machine c' = Some m \<longrightarrow> Q m)"
    by (auto simp: handled_frame_def machine_step_def intro: steps)
next
  fix c c' :: Conversation and f
  assume "finishSend f c = Inr c'"
  with finishSend_step steps show "conv_wf c \<longrightarrow> (\<forall>m. c_machine c = Some m \<longrightarrow> Q m) \<longrightarrow>
      (\<forall>m. c_machine c' = Some m \<longrightarrow> Q m)" by blast
qed (simp_all add: newConversation_def)

context machine_invariant
begin

lemma reachable_machines:
  assumes "files_ok cd info" "reachable env cd info s" "conv s cid = Some c" "c_machine c = Some m"
  shows "Q m"
  using reachable_convs [OF assms(1-3)] assms(4) by blast

end

subsection \<open>The target of the transition found\<close>

text \<open>Without Lua triggers, the transition that a conversation is sending for has a state to go to.\<close>

definition target_ok :: "Conversation \<Rightarrow> bool" where
  "target_ok c \<longleftrightarrow> (\<forall>m. c_machine c = Some m \<longrightarrow> lua_free m \<longrightarrow> has_target c)"

lemma target_ok_cong:
  assumes "c_machine c' = c_machine c" "c_pc c' = c_pc c"
  shows "target_ok c' = target_ok c"
  unfolding target_ok_def has_target_def assms ..

interpretation targets: conv_invariant env cd info target_ok for env cd info
proof
  fix c c' :: Conversation
  assume "c_machine c' = c_machine c" "c_pc c' = c_pc c"
  from target_ok_cong [OF this] show "conv_wf c \<longrightarrow> target_ok c \<longrightarrow> target_ok c'" by simp
next
  fix c c' :: Conversation and f
  assume "finishSend f c = Inr c'"
  then have "has_target c'" by (auto simp: finishSend_def has_target_def split: option.split_asm)
  then show "conv_wf c \<longrightarrow> target_ok c \<longrightarrow> target_ok c'" by (simp add: target_ok_def)
next
  fix c c' :: Conversation and h h'
  assume "Run_start env cd (mi_ConversationMachine info) c h = Inr (c', h')"
  then have "has_target c'" using Run_start_started by (fastforce simp: has_target_def)
  then show "conv_wf c \<longrightarrow> target_ok c \<longrightarrow> target_ok c'" by (simp add: target_ok_def)
next
  fix c0 c c' :: Conversation
  assume *: "c_machine c0 = c_machine c" "handled_frame c0 c'"
    "\<And>m. c_machine c = Some m \<Longrightarrow> wf_machine m \<Longrightarrow> lua_free m \<Longrightarrow> has_target c'"
  then obtain m m' where m: "c_machine c = Some m" "c_machine c' = Some m'" "skeleton m' = skeleton m"
    by (auto simp: handled_frame_def)
  from lua_free_cong [OF m(3)] *(3) [OF m(1)] m(1,2)
  show "conv_wf c \<longrightarrow> target_ok c \<longrightarrow> target_ok c'"
    by (simp add: target_ok_def conv_wf_def conv_machine_ok_def)
qed (auto simp: target_ok_def has_target_def newConversation_def split: option.splits)

text \<open>So the step after the last event returns.\<close>

lemma finish_returns:
  assumes "files_ok cd info" "reachable env cd info s" "s_panic s = None" "conv s cid = Some c"
    and "c_pc c = CSending [] st (Some f)" "c_machine c = Some m" "lua_free m"
  shows "\<exists>s' c'. exec env cd info (LConvSend cid r) s = Some s' \<and> s_panic s' = None \<and>
    conv s' cid = Some c' \<and> c_machine c' = Some (stepped f m) \<and> c_pc c' \<in> {CIdle, CSignal}"
proof -
  note wf = reachable_wf [OF assms(1,2)]
  from targets.reachable_convs [OF assms(1,2,4)] assms(5-7)
  have t: "f_Target f \<in> set (map fst (m_States m))" by (simp add: target_ok_def has_target_def)
  from sys_wf_conv(2) [OF wf assms(4)] assms(5,6) have "wf_machine m"
    by (simp add: conv_wf_def conv_machine_ok_def)
  from Step_wf [OF this t] obtain sig where "Step f m = Inr (stepped f m, sig)" by blast
  then show ?thesis
    using assms(3-6) sys_wf_conv(1) [OF wf assms(4)]
    by (auto simp: exec_def withConv_def conv_send_def finishSend_def crashOr_def conv_setConv)
qed

subsection \<open>Programs\<close>

text \<open>The program of a machine.\<close>

definition program :: "Machine \<Rightarrow> (string \<times> State) list" where
  "program m = map (\<lambda>(k, s). (k, skelS s)) (m_States m)"

lemma program_skeleton: "program m = m_States (skeleton m)"
  by (simp add: program_def skeleton_def)

lemma program_cong: "skeleton m' = skeleton m \<Longrightarrow> program m' = program m"
  by (simp add: program_skeleton)

lemma program_upd [simp]:
  "program (stepped f m) = program m" "program (m\<lparr>m_ConnID := i\<rparr>) = program m"
  "program (m\<lparr>m_termChan := b\<rparr>) = program m" "program (InitLua m) = program m"
  by (simp_all add: program_def InitLua_def)

end
