(* ===== verification/Chat_Reactions.thy ===== *)
theory Chat_Reactions
  imports Chat_Programs
begin

text \<open>
  What makes a conversation send: the events it starts to send are those of one transition of its
  current state, with only their data built anew, and the trigger of that transition is enabled by
  what the conversation received.
\<close>

subsection \<open>The events of a build\<close>

definition builds_sends :: "place \<Rightarrow> Machine \<Rightarrow> built \<Rightarrow> bool" where
  "builds_sends p m b \<longleftrightarrow> wlp b (\<lambda>(outs, m', h').
     \<exists>t. transitionAt m p = Some t \<and>
       (\<forall>es. outs = Some es \<longrightarrow> map erase es = map erase (t_Sends t)))"

lemma transitionAt_memory [simp]: "transitionAt (m\<lparr>m_Memory := mem\<rparr>) p = transitionAt m p"
  by (cases p) (simp_all add: transitionAt_def stateOf_def)

lemma builds_sends_do:
  assumes "transitionAt m1 p = transitionAt m p"
  shows "builds_sends p m (doBuildSendEvents env p input m1 h)"
  unfolding builds_sends_def
proof (rule wlpI, clarify)
  fix outs m' h'
  assume "doBuildSendEvents env p input m1 h = Inr (outs, m', h')"
  then obtain t ok sends m2 where t: "transitionAt m1 p = Some t"
    and b: "buildSends env (t_Trigger t) input (t_Sends t) m1 h = Inr (ok, sends, m2, h')"
    and o: "outs = (if ok then Some sends else None)"
    by (auto simp: doBuildSendEvents_def)
  from buildSends_keeps [OF b] t o assms
  show "\<exists>t. transitionAt m p = Some t \<and> (\<forall>es. outs = Some es \<longrightarrow> map erase es = map erase (t_Sends t))"
    by auto
qed

lemma builds_sends_bind:
  "wlp g (\<lambda>x. builds_sends p m (f x)) \<Longrightarrow> builds_sends p m (bindG g f)"
  by (simp add: builds_sends_def)

lemma builds_sends_Inl [simp]: "builds_sends p m (Inl e)"
  by (simp add: builds_sends_def)

lemma buildInputEvent_memory:
  "wlp (buildInputEvent trigger status m) (\<lambda>(e, m1). transitionAt m1 p = transitionAt m p)"
  unfolding buildInputEvent_def statusTypeID_def Let_def
  by (simp split del: if_split) (auto split: if_split)

lemma BuildSendEvents_sends: "builds_sends p m (BuildSendEvents env p status m h)"
  unfolding BuildSendEvents_def
  by (rule builds_sends_bind, rule wlp_mono [OF buildInputEvent_memory [where p = p]])
    (auto intro: builds_sends_do)

lemma BuildSendEventsFromStep_sends: "builds_sends p m (BuildSendEventsFromStep env p dat m h)"
  unfolding BuildSendEventsFromStep_def by (rule builds_sends_do) simp

lemma BuildSendEventsFromHook_sends: "builds_sends p m (BuildSendEventsFromHook env p dat m h)"
  unfolding BuildSendEventsFromHook_def by (rule builds_sends_do) simp

lemma BuildSendAnswers_sends: "builds_sends p m (BuildSendAnswers env p status m h)"
  unfolding BuildSendAnswers_def by (rule builds_sends_do) simp

lemma BuildSendEventsFromBackendData_sends:
  "builds_sends p m (BuildSendEventsFromBackendData env p dat m h)"
  unfolding BuildSendEventsFromBackendData_def Let_def
  by (intro builds_sends_bind) (auto intro!: builds_sends_bind builds_sends_do)

subsection \<open>Search and build\<close>

text \<open>The events \<open>es\<close> are those of transition \<open>i\<close> of the machine's current state.\<close>

definition sends_of :: "Machine \<Rightarrow> nat \<Rightarrow> Event list \<Rightarrow> bool" where
  "sends_of m i es \<longleftrightarrow> (\<exists>st. CurrentState m = Some st \<and> i < length (s_Transitions st) \<and>
     (es = [] \<or> map erase es = map erase (t_Sends (s_Transitions st ! i))))"

definition triggerOf :: "Machine \<Rightarrow> nat \<Rightarrow> Event option" where
  "triggerOf m i = triggerAt m (StatePlace (m_Current m) i)"

lemma triggerOf_Some:
  "CurrentState m = Some st \<Longrightarrow> i < length (s_Transitions st) \<Longrightarrow> triggerOf m i = t_Trigger (s_Transitions st ! i)"
  by (simp add: triggerOf_def triggerAt_def transitionAt_def CurrentState_def)

lemma reacting_sends:
  assumes "reacting c status (Some f) b = Inr (c', h')" "builds_sends (f_place f) m b"
    "CurrentState m = Some st" "i < length (s_Transitions st)" "f_place f = StatePlace (m_Current m) i"
  shows "\<exists>es. c_pc c' = CSending es status (Some f) \<and> sends_of m i es"
proof -
  from assms(1) obtain outs m' where b: "b = Inr (outs, m', h')"
    and c': "c_pc c' = CSending (case outs of None \<Rightarrow> [] | Some es \<Rightarrow> es) status (Some f)"
    by (auto simp: reacting_def)
  have t: "transitionAt m (f_place f) = Some (s_Transitions st ! i)"
    using assms(3-5) by (simp add: transitionAt_def CurrentState_def)
  from assms(2) b t have "\<forall>es. outs = Some es \<longrightarrow> map erase es = map erase (t_Sends (s_Transitions st ! i))"
    by (auto simp: builds_sends_def)
  with assms(3,4) c' show ?thesis by (cases outs) (auto simp: sends_of_def)
qed

context trigger_search
begin

lemma search_sends:
  assumes run: "bindG (searchTransition test m0) (\<lambda>(r, m1). case r of None \<Rightarrow> ignored c m1 h
      | Some f \<Rightarrow> reacting c status (Some f) (build f m1)) = Inr (c', h')"
    and builds: "\<And>f m1. builds_sends (f_place f) m1 (build f m1)"
    and sending: "c_pc c' = CSending es status' fo"
  shows "\<exists>i trg m1 m2 tgt. sends_of m0 i es \<and> triggerOf m0 i = Some trg \<and> memory_grows m0 m1 \<and>
    test trg m1 = Inr ((True, tgt), m2)"
proof -
  from run obtain r m1 where r: "searchTransition test m0 = Inr (r, m1)"
    and c: "(case r of None \<Rightarrow> ignored c m1 h
      | Some f \<Rightarrow> reacting c status (Some f) (build f m1)) = Inr (c', h')" by auto
  from c sending obtain f where f: "r = Some f" by (cases r) (auto simp: ignored_def)
  from r f have s: "searchTransition test m0 = Inr (Some f, m1)" by simp
  from search_test [OF s] obtain st i trg m2 tgt where t: "CurrentState m0 = Some st"
    "i < length (s_Transitions st)"
    "f = withNewTarget (StatePlace (m_Current m0) i) (t_Target (s_Transitions st ! i)) tgt"
    "t_Trigger (s_Transitions st ! i) = Some trg" "memory_grows m0 m2"
    "test trg m2 = Inr ((True, tgt), m1)" by blast
  from search_grows [OF s] have st: "m_States m1 = m_States m0" "m_Current m1 = m_Current m0"
    by (simp_all add: memory_grows_def memory_stepD)
  then have cur: "CurrentState m1 = Some st" using t(1) by (simp add: CurrentState_def stateOf_def)
  from c f have "reacting c status (Some f) (build f m1) = Inr (c', h')" by simp
  from reacting_sends [OF this builds cur t(2)] t(3) st sending
  have "sends_of m1 i es" by (auto simp: withNewTarget_def)
  then have "sends_of m0 i es" using cur t(1) by (simp add: sends_of_def)
  moreover from t triggerOf_Some [OF t(1,2)] have "triggerOf m0 i = Some trg" by simp
  ultimately show ?thesis using t(5,6) by blast
qed

end

text \<open>
  When the answer of a test depends on the trigger alone as long as the machine satisfies \<open>R\<close>, which
  the test keeps, the transition that is found is the first enabled one.
\<close>

lemma firstTrigger_first:
  assumes "\<And>t trg m1 ok tgt m2. t \<in> set ts \<Longrightarrow> t_Trigger t = Some trg \<Longrightarrow> R m1 \<Longrightarrow>
      test trg m1 = Inr ((ok, tgt), m2) \<Longrightarrow> ok = enabled trg \<and> R m2"
    and "firstTrigger test i ts m = Inr (Some (j, target, tgt), m')" "R m"
  shows "\<exists>k < length ts. j = i + k \<and> (\<exists>trg. t_Trigger (ts ! k) = Some trg \<and> enabled trg) \<and>
    (\<forall>l < k. \<exists>trg. t_Trigger (ts ! l) = Some trg \<and> \<not> enabled trg)"
  using assms
proof (induction ts arbitrary: i m)
  case (Cons t ts)
  from Cons.prems(2) obtain trg ok tg m1 where t: "t_Trigger t = Some trg" "test trg m = Inr ((ok, tg), m1)"
    by auto
  from Cons.prems(1) [OF _ t(1) Cons.prems(3) t(2)] have ok: "ok = enabled trg" "R m1" by auto
  show ?case
  proof (cases ok)
    case True
    with Cons.prems(2) t ok show ?thesis by (intro exI [of _ 0]) auto
  next
    case False
    with Cons.prems(2) t have "firstTrigger test (Suc i) ts m1 = Inr (Some (j, target, tgt), m')" by simp
    have "\<exists>k < length ts. j = Suc i + k \<and> (\<exists>trg. t_Trigger (ts ! k) = Some trg \<and> enabled trg) \<and>
        (\<forall>l < k. \<exists>trg. t_Trigger (ts ! l) = Some trg \<and> \<not> enabled trg)"
    proof (rule Cons.IH [OF _ \<open>firstTrigger test (Suc i) ts m1 = Inr (Some (j, target, tgt), m')\<close> ok(2)])
      fix t' trg m1 ok tgt m2
      assume "t' \<in> set ts" "t_Trigger t' = Some trg" "R m1" "test trg m1 = Inr ((ok, tgt), m2)"
      then show "ok = enabled trg \<and> R m2" by (intro Cons.prems(1) [of t']) auto
    qed
    then obtain k where "k < length ts" "j = Suc i + k"
      "\<exists>trg. t_Trigger (ts ! k) = Some trg \<and> enabled trg"
      "\<forall>l < k. \<exists>trg. t_Trigger (ts ! l) = Some trg \<and> \<not> enabled trg" by blast
    with t ok False show ?thesis
      by (intro exI [of _ "Suc k"]) (auto simp: nth_Cons split: nat.split)
  qed
qed simp

text \<open>Transition \<open>i\<close> of the current state is the first one whose trigger is enabled.\<close>

definition first_enabled :: "(Event \<Rightarrow> bool) \<Rightarrow> Machine \<Rightarrow> nat \<Rightarrow> bool" where
  "first_enabled P m i \<longleftrightarrow> (\<exists>trg. triggerOf m i = Some trg \<and> P trg) \<and>
     (\<forall>l < i. \<exists>trg. triggerOf m l = Some trg \<and> \<not> P trg)"

lemma search_first_enabled:
  assumes "searchTransition test m = Inr (Some f, m')" "CurrentState m = Some st" "R m"
    and "\<And>t trg m1 ok tgt m2. t \<in> set (s_Transitions st) \<Longrightarrow> t_Trigger t = Some trg \<Longrightarrow> R m1 \<Longrightarrow>
      test trg m1 = Inr ((ok, tgt), m2) \<Longrightarrow> ok = enabled trg \<and> R m2"
  shows "\<exists>i < length (s_Transitions st). f_place f = StatePlace (m_Current m) i \<and> first_enabled enabled m i"
proof -
  from searchTransition_Some [OF assms(1)] assms(2) obtain j target tgt where
    ft: "firstTrigger test 0 (s_Transitions st) m = Inr (Some (j, target, tgt), m')" and
    f: "f = withNewTarget (StatePlace (m_Current m) j) target tgt" by auto
  have "\<exists>k < length (s_Transitions st). j = 0 + k \<and>
      (\<exists>trg. t_Trigger (s_Transitions st ! k) = Some trg \<and> enabled trg) \<and>
      (\<forall>l < k. \<exists>trg. t_Trigger (s_Transitions st ! l) = Some trg \<and> \<not> enabled trg)"
    by (rule firstTrigger_first [where R = R, OF assms(4) ft assms(3)])
  then have "j < length (s_Transitions st)" "first_enabled enabled m j"
    using triggerOf_Some [OF assms(2)] by (auto simp: first_enabled_def)
  with f show ?thesis by (auto simp: withNewTarget_def)
qed

subsection \<open>The handlers\<close>

lemma stepReceived_sends:
  assumes "stepReceived env dat c h = Inr (c', h')" "c_machine c = Some m" "c_pc c' = CSending es st fo"
  shows "\<exists>i trg. sends_of m i es \<and> triggerOf m i = Some trg \<and> e_ProtocolType trg = TransientProtocol"
proof -
  from assms have "bindG (searchTransition stepTest m) (\<lambda>(r, m1). case r of None \<Rightarrow> ignored c m1 h
    | Some f \<Rightarrow> reacting c None (Some f) (BuildSendEventsFromStep env (f_place f) dat m1 h)) = Inr (c', h')"
    by (simp add: stepReceived_def TriggersByStep_search)
  from by_step.search_sends [OF this BuildSendEventsFromStep_sends assms(3)]
  show ?thesis by (auto simp: stepTest_def)
qed

lemma backendReceived_sends:
  assumes "conv_backendReceived env dat c h = Inr (c', h')" "c_machine c = Some m"
    "c_pc c' = CSending es st fo"
  shows "\<exists>i trg. sends_of m i es \<and> triggerOf m i = Some trg \<and> e_ProtocolType trg = BackendProtocol"
proof -
  from assms(1) obtain p where p: "dat = Some p" by (auto simp: conv_backendReceived_def)
  let ?h = "fixConnID (c_id c) p h"
  let ?d = "cells ?h p"
  note run = assms(1) [unfolded conv_backendReceived_def, simplified assms(2) p, simplified, unfolded Let_def]
  have "\<not> (m_Memory m LUA_SESSION_ID \<noteq> None \<and> m_Memory m LUA_SESSION_ID \<noteq> Some (bd_SessionID ?d) \<or>
      bd_NoEcho ?d \<and> c_id c = bd_ConnID ?d)"
    using run assms(3) by (auto simp: ignored_def split: if_split_asm)
  with run have "bindG (searchTransition (backendTest env (Some ?d)) m) (\<lambda>(r, m1). case r of
      None \<Rightarrow> ignored c m1 ?h
    | Some f \<Rightarrow> reacting c None (Some f)
        (BuildSendEventsFromBackendData env (f_place f) (Some p) m1 ?h)) = Inr (c', h')"
    by (auto simp: TriggersByBackendData_search split: if_split_asm)
  from by_backend.search_sends [OF this BuildSendEventsFromBackendData_sends assms(3)]
  show ?thesis by (fastforce simp: backendTest_def split: if_split_asm)
qed

text \<open>The messages of the backend machine that a conversation takes up: those of its session, if it has one, and not the
  ones that are not to be echoed to their sender.\<close>

definition takes_up :: "string \<Rightarrow> Machine \<Rightarrow> BackendData \<Rightarrow> bool" where
  "takes_up cid m d \<longleftrightarrow> (case m_Memory m LUA_SESSION_ID of None \<Rightarrow> True | Some sid \<Rightarrow> bd_SessionID d = sid) \<and>
     \<not> (bd_NoEcho d \<and> bd_ConnID d = cid)"

lemma backendReceived_takes_up:
  assumes "conv_backendReceived env dat c h = Inr (c', h')" "c_machine c = Some m" "c_pc c' = CSending es st fo"
  shows "\<exists>p. dat = Some p \<and> takes_up (c_id c) m (cells (fixConnID (c_id c) p h) p)"
proof -
  from assms(1) obtain p where p: "dat = Some p" by (auto simp: conv_backendReceived_def)
  note run = assms(1) [unfolded conv_backendReceived_def, simplified assms(2) p, simplified, unfolded Let_def]
  from run assms(3) p show ?thesis
    by (auto simp: ignored_def takes_up_def split: if_split_asm option.split)
qed

text \<open>The triggers for a question answer by the presented attributes alone.\<close>

definition questionEnabled :: "env \<Rightarrow> Question \<Rightarrow> Event \<Rightarrow> bool" where
  "questionEnabled env q trg \<longleftrightarrow>
     q_TypeID q = Question_PROOF_VERIFY_WAITS \<and>
     e_ProtocolType trg = n_ProtocolType (as_Notification (q_Status q)) \<and>
     e_ProtocolType trg = Protocol_PRESENT_PROOF \<and>
     (case (unmarshalProofAttrs env (e_Data trg), q_ProofVerify q) of
        (Some vals, Some attrs) \<Rightarrow>
          (if e_Rule trg = TriggerTypeNotAcceptValues
           then length vals \<noteq> length attrs \<or> (\<exists>v \<in> set vals. \<not> presented attrs v)
           else e_Rule trg = TriggerTypeAcceptAndInputValues \<and>
             (\<Sum>a\<leftarrow>attrs. nameCount vals a) = length attrs)
      | _ \<Rightarrow> False)"

lemma questionTest_value:
  assumes "questionTest env q trg m = Inr ((ok, tgt), m')"
  shows "ok = questionEnabled env q trg"
proof (cases "q_TypeID q = Question_PROOF_VERIFY_WAITS \<and>
    e_ProtocolType trg = n_ProtocolType (as_Notification (q_Status q))")
  case False
  with assms show ?thesis
    by (auto simp: questionTest_def questionEnabled_def Event_Answers_def split: if_split_asm)
next
  case True
  with assms obtain vals where v: "e_ProtocolType trg = Protocol_PRESENT_PROOF"
    "unmarshalProofAttrs env (e_Data trg) = Some vals"
    by (auto simp: questionTest_def Event_Answers_def split: option.split_asm)
  note Q = assms [unfolded questionTest_def Event_Answers_def Let_def split_def, simplified True v, simplified]
  consider "e_Rule trg = TriggerTypeNotAcceptValues"
    | "e_Rule trg = TriggerTypeAcceptAndInputValues" "e_Rule trg \<noteq> TriggerTypeNotAcceptValues"
    | "e_Rule trg \<noteq> TriggerTypeAcceptAndInputValues" "e_Rule trg \<noteq> TriggerTypeNotAcceptValues" by blast
  then show ?thesis
  proof cases
    case 1
    with True v assms obtain attrs where a: "q_ProofVerify q = Some attrs"
      by (cases "q_ProofVerify q") (simp_all add: questionTest_def Event_Answers_def Let_def)
    with Answers_not_accept [of q trg env vals attrs m] 1 True v assms show ?thesis
      by (simp add: questionTest_def questionEnabled_def)
  next
    case 2
    with True v assms obtain attrs where a: "q_ProofVerify q = Some attrs"
      by (cases "q_ProofVerify q") (simp_all add: questionTest_def Event_Answers_def Let_def)
    with Answers_accept [of q trg env vals attrs m] 2 True v assms show ?thesis
      by (simp add: questionTest_def questionEnabled_def)
  next
    case 3
    with True v assms show ?thesis
      by (simp add: questionTest_def questionEnabled_def Event_Answers_def split: option.split)
  qed
qed

lemma handled_first:
  assumes run: "bindG (searchTransition test m) (\<lambda>(r, m1). case r of None \<Rightarrow> ignored c m1 h
      | Some f \<Rightarrow> reacting c status (Some f) (build f m1)) = Inr (c', h')"
    and grows: "\<And>r m'. searchTransition test m = Inr (r, m') \<Longrightarrow> memory_grows m m'"
    and builds: "\<And>f m1. builds_sends (f_place f) m1 (build f m1)"
    and sending: "c_pc c' = CSending es status' fo"
    and test: "\<And>trg m1 ok tgt m2. (\<exists>i. triggerOf m i = Some trg) \<Longrightarrow> R m1 \<Longrightarrow>
      test trg m1 = Inr ((ok, tgt), m2) \<Longrightarrow> ok = enabled trg \<and> R m2"
    and "R m"
  shows "\<exists>i. sends_of m i es \<and> first_enabled enabled m i"
proof -
  from run obtain r m1 where r: "searchTransition test m = Inr (r, m1)"
    and c: "(case r of None \<Rightarrow> ignored c m1 h
      | Some f \<Rightarrow> reacting c status (Some f) (build f m1)) = Inr (c', h')" by auto
  from c sending obtain f where f: "r = Some f" by (cases r) (auto simp: ignored_def)
  from r f have s: "searchTransition test m = Inr (Some f, m1)" by simp
  from searchTransition_Some [OF s] obtain st where st: "CurrentState m = Some st" by blast
  have ex: "\<exists>i. triggerOf m i = Some trg" if t: "t \<in> set (s_Transitions st)" "t_Trigger t = Some trg" for t trg
  proof -
    from t(1) obtain i where "i < length (s_Transitions st)" "s_Transitions st ! i = t"
      by (auto simp: in_set_conv_nth)
    with triggerOf_Some [OF st, of i] t(2) show ?thesis by auto
  qed
  have "\<exists>i < length (s_Transitions st). f_place f = StatePlace (m_Current m) i \<and> first_enabled enabled m i"
    by (rule search_first_enabled [where R = R, OF s st assms(6)]) (rule test [OF ex])
  then obtain i where i: "i < length (s_Transitions st)" "f_place f = StatePlace (m_Current m) i"
    "first_enabled enabled m i" by blast
  from grows [OF s [unfolded f [symmetric]]] have eq: "m_States m1 = m_States m" "m_Current m1 = m_Current m"
    by (simp_all add: memory_grows_def memory_stepD)
  then have cur: "CurrentState m1 = Some st" using st by (simp add: CurrentState_def stateOf_def)
  from c f have "reacting c status (Some f) (build f m1) = Inr (c', h')" by simp
  from reacting_sends [OF this builds cur i(1)] i(2) eq sending have "sends_of m1 i es" by auto
  with cur st i(3) show ?thesis by (auto simp: sends_of_def)
qed

lemma questionReceived_sends:
  assumes "questionReceived env q c h = Inr (c', h')" "c_machine c = Some m"
    "c_pc c' = CSending es st fo"
  shows "\<exists>i. sends_of m i es \<and> first_enabled (questionEnabled env q) m i"
proof -
  have "q_TypeID q = Question_PROOF_VERIFY_WAITS"
    using assms by (auto simp: questionReceived_def ignored_def split: if_split_asm)
  with assms have run: "bindG (searchTransition (questionTest env q) m) (\<lambda>(r, m1). case r of
      None \<Rightarrow> ignored c m1 h
    | Some f \<Rightarrow> reacting c (Some (q_Status q)) (Some f)
        (BuildSendAnswers env (f_place f) (q_Status q) m1 h)) = Inr (c', h')"
    by (simp add: questionReceived_def Answers_search)
  show ?thesis
    by (rule handled_first [where R = "\<lambda>_. True", OF run by_question.search_grows BuildSendAnswers_sends assms(3)])
      (auto dest: questionTest_value)
qed

text \<open>Without Lua triggers, the triggers for a status answer by the status and the memory.\<close>

lemma statusTest_value:
  assumes "statusTest env (Some s) trg m = Inr ((ok, tgt), m')" "e_Rule trg \<noteq> TriggerTypeLua"
  shows "ok = statusEnabled s trg (m_Memory m) \<and> m' = m"
proof -
  from assms(1) obtain ty where ty: "statusTypeID (Some s) = Inr ty" by (auto simp: statusTest_def)
  have d: "Protocol_BASIC_MESSAGE \<notin> {Protocol_ISSUE_CREDENTIAL, Protocol_DIDEXCHANGE, Protocol_PRESENT_PROOF}"
    by (simp add: go_consts)
  show ?thesis
  proof (cases "e_ProtocolType trg = ty \<and> ty = Protocol_BASIC_MESSAGE")
    case True
    with assms ty d obtain content where "ps_BasicMessage s = Some content"
      by (auto simp: statusTest_def Event_Triggers_def GetBasicMessage_def)
    with ty have "status_ok s"
      by (auto simp: status_ok_def statusTypeID_def GetState_def split: option.split)
    from statusTest_pure [OF this assms(2), of env m] assms(1) show ?thesis by simp
  next
    case False
    with assms ty show ?thesis
      by (auto simp: statusTest_def statusEnabled_def Event_Triggers_def split: if_split_asm)
  qed
qed

lemma statusReceived_run:
  assumes "statusReceived env as status c h = Inr (c', h')" "c_machine c = Some m"
    and "c_pc c' = CSending es st fo"
  shows "\<exists>s c1. status = Some s \<and> bindG (searchTransition (statusTest env (Some s)) m) (\<lambda>(r, m1). case r of
      None \<Rightarrow> ignored c1 m1 h
    | Some f \<Rightarrow> reacting c1 (Some as) (Some f) (BuildSendEvents env (f_place f) (Some s) m1 h)) = Inr (c', h')"
proof -
  obtain ours c1 where o: "isOursAndRm (n_ProtocolID (as_Notification as)) c = (ours, c1)"
    by fastforce
  have n: "\<not> ours" "n_TypeID (as_Notification as) = Notification_STATUS_UPDATE"
    using assms(1-3) o by (auto simp: statusReceived_def ignored_def split: if_split_asm)
  with assms(1-3) o obtain s where s: "status = Some s"
    by (auto simp: statusReceived_def split: option.split_asm)
  have "bindG (searchTransition (statusTest env (Some s)) m) (\<lambda>(r, m1). case r of
      None \<Rightarrow> ignored c1 m1 h
    | Some f \<Rightarrow> reacting c1 (Some as) (Some f) (BuildSendEvents env (f_place f) (Some s) m1 h)) = Inr (c', h')"
    using assms(1-3) o n s
    by (auto simp: statusReceived_def Triggers_search ignored_def split: option.split_asm if_split_asm)
  with s show ?thesis by blast
qed

lemma statusReceived_sends_any:
  assumes "statusReceived env as status c h = Inr (c', h')" "c_machine c = Some m"
    and "c_pc c' = CSending es st fo"
  shows "\<exists>i. sends_of m i es"
proof -
  from statusReceived_run [OF assms] obtain s c1 where
    run: "bindG (searchTransition (statusTest env (Some s)) m) (\<lambda>(r, m1). case r of
      None \<Rightarrow> ignored c1 m1 h
    | Some f \<Rightarrow> reacting c1 (Some as) (Some f) (BuildSendEvents env (f_place f) (Some s) m1 h)) = Inr (c', h')"
    by blast
  from by_status.search_sends [OF run BuildSendEvents_sends assms(3)] show ?thesis by blast
qed

lemma statusReceived_sends:
  assumes "statusReceived env as status c h = Inr (c', h')" "c_machine c = Some m"
    and "c_pc c' = CSending es st fo" "lua_free m"
  shows "\<exists>s i. status = Some s \<and> sends_of m i es \<and> first_enabled (\<lambda>trg. statusEnabled s trg (m_Memory m)) m i"
proof -
  from statusReceived_run [OF assms(1-3)] obtain s c1 where s: "status = Some s" and
    run: "bindG (searchTransition (statusTest env (Some s)) m) (\<lambda>(r, m1). case r of
      None \<Rightarrow> ignored c1 m1 h
    | Some f \<Rightarrow> reacting c1 (Some as) (Some f) (BuildSendEvents env (f_place f) (Some s) m1 h)) = Inr (c', h')"
    by blast
  have "\<exists>i. sends_of m i es \<and> first_enabled (\<lambda>trg. statusEnabled s trg (m_Memory m)) m i"
  proof (rule handled_first [where R = "\<lambda>x. x = m", OF run by_status.search_grows [of env "Some s"] BuildSendEvents_sends assms(3)])
    fix trg m1 ok tgt m2
    assume a: "\<exists>i. triggerOf m i = Some trg" "m1 = m" "statusTest env (Some s) trg m1 = Inr ((ok, tgt), m2)"
    then obtain i where "triggerOf m i = Some trg" by blast
    then obtain cs where cs: "CurrentState m = Some cs" "i < length (s_Transitions cs)"
      "t_Trigger (s_Transitions cs ! i) = Some trg"
      by (auto simp: triggerOf_def triggerAt_def transitionAt_def CurrentState_def
          split: option.split_asm if_split_asm)
    from lua_freeD [OF assms(4) cs(1) nth_mem [OF cs(2)] cs(3)] have "e_Rule trg \<noteq> TriggerTypeLua" .
    from statusTest_value [OF a(3) this] a(2)
    show "ok = statusEnabled s trg (m_Memory m) \<and> m2 = m" by simp
  qed (assumption | rule refl)+
  with s show ?thesis by blast
qed

end
