(* ===== verification/Chat_Bots.thy ===== *)
theory Chat_Bots
  imports Chat_Reactions
begin

text \<open>
  What the bots of \<open>machines.go\<close> never do, in any reachable state of a bot that runs them: the
  issuer never issues but against its PIN, and the proof bot never acknowledges but the one
  attribute it has asked for.
\<close>

subsection \<open>Reactions of a conversation in the bot\<close>

text \<open>Why a conversation that was at its \<open>select\<close> is sending after a step.\<close>

definition reacts_to :: "env \<Rightarrow> Machine \<Rightarrow> label \<Rightarrow> mux_pc \<Rightarrow> string \<Rightarrow> nat \<Rightarrow> bool" where
  "reacts_to env m l pc cid i \<longleftrightarrow>
     (case l of
        LDeliver status \<Rightarrow>
          (case pc of
             MStatus cid' _ \<Rightarrow> cid' = cid \<and> (lua_free m \<longrightarrow>
               (\<exists>s. status = Some s \<and> first_enabled (\<lambda>trg. statusEnabled s trg (m_Memory m)) m i))
           | MQuestion cid' q \<Rightarrow> cid' = cid \<and> first_enabled (questionEnabled env q) m i
           | _ \<Rightarrow> False)
      | LConvBackend cid' \<Rightarrow> cid' = cid \<and>
          (\<exists>trg. triggerOf m i = Some trg \<and> e_ProtocolType trg = BackendProtocol)
      | LConvTransient cid' \<Rightarrow> cid' = cid \<and>
          (\<exists>trg. triggerOf m i = Some trg \<and> e_ProtocolType trg = TransientProtocol)
      | _ \<Rightarrow> False)"

lemma conv_upd [simp]:
  "conv (s\<lparr>s_mux := pc\<rparr>) cid = conv s cid" "conv (s\<lparr>s_heap := h\<rparr>) cid = conv s cid"
  "conv (s\<lparr>s_panic := p\<rparr>) cid = conv s cid"
  by (simp_all add: conv_def)

lemma handleConv_conv:
  assumes "conv s cid = Some c" "c_pc c = CIdle" "conv (handleConv r s) cid = Some c'"
    "c_pc c' = CSending es st fo" "\<And>c1 h. r = Inr (c1, h) \<Longrightarrow> c_id c1 = cid"
  shows "\<exists>h. r = Inr (c', h)"
proof (cases r)
  case (Inl p)
  with assms show ?thesis by (auto simp: handleConv_def crashOr_def)
next
  case (Inr x)
  obtain c1 h where x: "x = (c1, h)" by (cases x)
  from assms(5) Inr x have "c_id c1 = cid" by simp
  with assms Inr x have "c' = c1"
    by (auto simp: handleConv_def crashOr_def conv_setConv split: if_split_asm)
  with Inr x show ?thesis by simp
qed

lemma deliver_reacts:
  assumes "sys_wf s" "mux_deliver env status s = Some s'" "conv s cid = Some c" "c_pc c = CIdle"
    "c_machine c = Some m" "conv s' cid = Some c'" "c_pc c' = CSending es st fo"
  shows "\<exists>i. sends_of m i es \<and> reacts_to env m (LDeliver status) (s_mux s) cid i"
proof -
  from assms(2) consider (status) cid1 as c1 where "s_mux s = MStatus cid1 as" "conv s cid1 = Some c1"
      "s' = handleConv (statusReceived env as status c1 (s_heap s)) (s\<lparr>s_mux := MIdle\<rparr>)"
    | (question) cid1 q c1 where "s_mux s = MQuestion cid1 q" "conv s cid1 = Some c1"
      "s' = handleConv (questionReceived env q c1 (s_heap s)) (s\<lparr>s_mux := MIdle\<rparr>)"
    by (auto simp: mux_deliver_def split: mux_pc.split_asm option.split_asm if_split_asm)
  then show ?thesis
  proof cases
    case status
    have id: "c_id x = cid1" if "statusReceived env as status c1 (s_heap s) = Inr (x, h)" for x h
      using status_handler.keeps_id [OF that] sys_wf_conv(1) [OF assms(1) status(2)] by simp
    have "cid1 = cid"
    proof (rule ccontr)
      assume "cid1 \<noteq> cid"
      with conv_frame_handle [where cid = cid1 and s = "s\<lparr>s_mux := MIdle\<rparr>", OF id] status(3) assms(3,4,6,7)
      show False by (auto simp: conv_frame_def)
    qed
    with status assms(3) have c1: "c1 = c" by simp
    have "\<exists>h. statusReceived env as status c1 (s_heap s) = Inr (c', h)"
      by (rule handleConv_conv [where s = "s\<lparr>s_mux := MIdle\<rparr>" and cid = cid])
        (use assms status c1 id \<open>cid1 = cid\<close> in auto)
    with c1 obtain h where r: "statusReceived env as status c (s_heap s) = Inr (c', h)" by blast
    show ?thesis
    proof (cases "lua_free m")
      case True
      from statusReceived_sends [OF r assms(5,7) True] status(1) \<open>cid1 = cid\<close> show ?thesis
        by (auto simp: reacts_to_def)
    next
      case False
      have "\<exists>i. sends_of m i es" by (rule statusReceived_sends_any [OF r assms(5,7)])
      with False status(1) \<open>cid1 = cid\<close> show ?thesis by (auto simp: reacts_to_def)
    qed
  next
    case question
    have id: "c_id x = cid1" if "questionReceived env q c1 (s_heap s) = Inr (x, h)" for x h
      using question_handler.keeps_id [OF that] sys_wf_conv(1) [OF assms(1) question(2)] by simp
    have "cid1 = cid"
    proof (rule ccontr)
      assume "cid1 \<noteq> cid"
      with conv_frame_handle [where cid = cid1 and s = "s\<lparr>s_mux := MIdle\<rparr>", OF id] question(3) assms(3,4,6,7)
      show False by (auto simp: conv_frame_def)
    qed
    with question assms(3) have c1: "c1 = c" by simp
    have "\<exists>h. questionReceived env q c1 (s_heap s) = Inr (c', h)"
      by (rule handleConv_conv [where s = "s\<lparr>s_mux := MIdle\<rparr>" and cid = cid])
        (use assms question c1 id \<open>cid1 = cid\<close> in auto)
    with c1 obtain h where r: "questionReceived env q c (s_heap s) = Inr (c', h)" by blast
    from questionReceived_sends [OF r assms(5,7)] question(1) \<open>cid1 = cid\<close> show ?thesis
      by (auto simp: reacts_to_def)
  qed
qed

lemma ensureConv_same: "conv s cid = Some c \<Longrightarrow> conv (ensureConv cid' s) cid = conv s cid"
  by (simp add: ensureConv_other)

lemma exec_reacts:
  assumes "sys_wf s" "exec env cd info l s = Some s'" "conv s cid = Some c" "c_pc c = CIdle"
    "c_machine c = Some m" "conv s' cid = Some c'" "c_pc c' = CSending es st fo"
  shows "\<exists>i. sends_of m i es \<and> reacts_to env m l (s_mux s) cid i"
proof -
  have ex: "s_panic s = None" using assms(2) by (auto simp: exec_def split: if_split_asm)
  note e = assms(2) [unfolded exec_def, simplified ex, simplified]
  note id = sys_wf_conv(1) [OF assms(1)]
  have diff: "conv s' cid \<noteq> Some c" using assms(4,6,7) by auto
  show ?thesis
  proof (cases "label_conv l")
    case (Some cid')
    have "cid' = cid"
      using exec_conv_frame [OF assms(1,2) Some] assms(3) diff by (auto simp: conv_frame_def)
    with Some e assms(3,4) consider
      (backend) d ds where "l = LConvBackend cid" "c_BackendChan c = d # ds"
        "s' = handleConv (conv_backendReceived env d (c\<lparr>c_BackendChan := ds\<rparr>) (s_heap s)) s"
      | (transient) d ds where "l = LConvTransient cid" "c_TransientChan c = d # ds"
        "s' = handleConv (stepReceived env d (c\<lparr>c_TransientChan := ds\<rparr>) (s_heap s)) s"
      by (cases l) (auto simp: label_conv_def withConv_def conv_start_def conv_send_def conv_backend_def
          conv_transient_def split: list.split_asm)
    then show ?thesis
    proof cases
      case backend
      let ?c = "c\<lparr>c_BackendChan := ds\<rparr>"
      have "\<exists>h. conv_backendReceived env d ?c (s_heap s) = Inr (c', h)"
        by (rule handleConv_conv [OF assms(3,4) _ assms(7)])
          (use backend assms(6) id [OF assms(3)] in \<open>auto dest: backend_handler.keeps_id\<close>)
      then obtain h where "conv_backendReceived env d ?c (s_heap s) = Inr (c', h)" by blast
      from backendReceived_sends [OF this _ assms(7)] assms(5) backend(1) show ?thesis
        by (auto simp: reacts_to_def)
    next
      case transient
      let ?c = "c\<lparr>c_TransientChan := ds\<rparr>"
      have "\<exists>h. stepReceived env d ?c (s_heap s) = Inr (c', h)"
        by (rule handleConv_conv [OF assms(3,4) _ assms(7)])
          (use transient assms(6) id [OF assms(3)] in \<open>auto dest: step_handler.keeps_id\<close>)
      then obtain h where "stepReceived env d ?c (s_heap s) = Inr (c', h)" by blast
      from stepReceived_sends [OF this _ assms(7)] assms(5) transient(1) show ?thesis
        by (auto simp: reacts_to_def)
    qed
  next
    case None
    have pushed: "c_pc c' = CIdle" if "conv (setConv (x\<lparr>c_BackendChan := ds\<rparr>) y) cid = Some c'"
      "s_conversations y = s_conversations s" "conv s k = Some x" for x ds y k
      using that assms(3,4) id [of k x] conv_same [of y s]
      by (auto simp: conv_setConv split: if_split_asm)
    have same: False if "l \<in> {LBackend, LSend, LTerm} \<or> (\<exists>bd. l = LOutside bd)"
      using conv_same [OF exec_same_conversations [OF assms(2) that], of cid] diff assms(3) by simp
    show ?thesis
    proof (cases l)
      case (LDeliver status)
      with e deliver_reacts [OF assms(1) _ assms(3-7)] show ?thesis by auto
    next
      case (LStatus as)
      with e assms(3) have "conv s' cid = conv s cid"
        by (auto simp: mux_status_def Let_def ensureConv_same split: mux_pc.split_asm)
      with diff assms(3) show ?thesis by simp
    next
      case (LQuestion q)
      with e assms(3) have "conv s' cid = conv s cid"
        by (auto simp: mux_question_def Let_def ensureConv_same split: mux_pc.split_asm)
      with diff assms(3) show ?thesis by simp
    next
      case (LBroadcast cid1)
      with e obtain c1 d ids es' f where "conv s cid1 = Some c1"
        "s' = setConv (c1\<lparr>c_BackendChan := c_BackendChan c1 @ [d]\<rparr>)
          (s\<lparr>s_mux := broadcasting d (remove1 cid1 ids) es' f\<rparr>)"
        by (auto simp: mux_broadcast_def split: mux_pc.split_asm option.split_asm if_split_asm)
      with pushed [where x = c1 and y = "s\<lparr>s_mux := broadcasting d (remove1 cid1 ids) es' f\<rparr>" and k = cid1] assms(6,7)
      show ?thesis by auto
    next
      case LForward
      show ?thesis
      proof (cases "\<exists>cid d. s_mux s = MForward cid d")
        case True
        with LForward e obtain cid1 c1 d where "conv s cid1 = Some c1"
          "s' = setConv (c1\<lparr>c_BackendChan := c_BackendChan c1 @ [d]\<rparr>) (s\<lparr>s_mux := MIdle\<rparr>)"
          by (auto simp: mux_forward_def split: option.split_asm if_split_asm list.split_asm)
        with pushed [where x = c1 and y = "s\<lparr>s_mux := MIdle\<rparr>" and k = cid1] assms(6,7) show ?thesis by auto
      next
        case False
        with LForward e have "s_conversations s' = s_conversations s"
          by (auto simp: mux_forward_def crashOr_def
              split: mux_pc.split_asm list.split_asm sum.split_asm)
        from conv_same [OF this, of cid] diff assms(3) show ?thesis by simp
      qed
    qed (use same None in \<open>auto simp: label_conv_def\<close>)
  qed
qed

text \<open>What made a conversation react to a message of the backend machine.\<close>

lemma backend_reacts:
  assumes "sys_wf s" "exec env cd info (LConvBackend cid) s = Some s'" "conv s cid = Some c"
    "c_machine c = Some m" "conv s' cid = Some c'" "c_pc c' = CSending es st fo"
  shows "\<exists>p ds i trg. c_BackendChan c = Some p # ds \<and>
    takes_up cid m (cells (fixConnID cid p (s_heap s)) p) \<and>
    sends_of m i es \<and> triggerOf m i = Some trg \<and> e_ProtocolType trg = BackendProtocol"
proof -
  have ex: "s_panic s = None" using assms(2) by (auto simp: exec_def split: if_split_asm)
  note id = sys_wf_conv(1) [OF assms(1,3)]
  from assms(2,3) ex obtain d ds where b: "c_pc c = CIdle" "c_BackendChan c = d # ds"
    "s' = handleConv (conv_backendReceived env d (c\<lparr>c_BackendChan := ds\<rparr>) (s_heap s)) s"
    by (auto simp: exec_def withConv_def conv_backend_def split: conv_pc.split_asm list.split_asm)
  have "\<exists>h. conv_backendReceived env d (c\<lparr>c_BackendChan := ds\<rparr>) (s_heap s) = Inr (c', h)"
    by (rule handleConv_conv [OF assms(3) b(1) _ assms(6)])
      (use b(3) assms(5) id in \<open>auto dest: backend_handler.keeps_id\<close>)
  then obtain h where r: "conv_backendReceived env d (c\<lparr>c_BackendChan := ds\<rparr>) (s_heap s) = Inr (c', h)" by blast
  from backendReceived_takes_up [OF r _ assms(6)] backendReceived_sends [OF r _ assms(6)] assms(4) b(2) id
  show ?thesis by auto
qed

subsection \<open>The program that runs\<close>

text \<open>Every machine of a conversation runs the program that \<open>Initialize\<close> made of the file.\<close>

definition from_file :: "env \<Rightarrow> codec \<Rightarrow> MultiplexerInfo \<Rightarrow> Machine \<Rightarrow> bool" where
  "from_file env cd info m \<longleftrightarrow> (\<exists>m0 m1. NewMachine cd (mi_ConversationMachine info) = Inr m0 \<and>
     Initialize env m0 = Inr (Inr m1) \<and> program m = program m1)"

interpretation programs: machine_invariant env cd info "from_file env cd info" for env cd info
proof
  fix m m'
  assume "from_file env cd info m" "machine_step m m'"
  moreover have "program m' = program m"
    using \<open>machine_step m m'\<close> program_cong [of m' m] program_upd(1) [of _ m]
    unfolding machine_step_def by blast
  ultimately show "from_file env cd info m'" by (simp add: from_file_def)
next
  fix m
  assume "machine_started env cd (mi_ConversationMachine info) m"
  then obtain m0 m1 cid where m: "NewMachine cd (mi_ConversationMachine info) = Inr m0"
    "Initialize env m0 = Inr (Inr m1)"
    "skeleton m = skeleton ((InitLua (m1\<lparr>m_ConnID := cid\<rparr>))\<lparr>m_termChan := True\<rparr>)"
    by (auto simp: machine_started_def)
  from program_cong [OF m(3)] have "program m = program m1" by (simp add: program_def InitLua_def)
  with m show "from_file env cd info m" by (auto simp: from_file_def)
qed

text \<open>What \<open>Initialize\<close> makes of a plain file.\<close>

definition initT :: "Transition \<Rightarrow> Transition" where
  "initT t = t\<lparr>t_Trigger := map_option resolveEvent (t_Trigger t),
     t_Sends := map (\<lambda>e. setSendDefs (resolveEvent e)) (t_Sends t)\<rparr>"

lemma mapE_plain: "list_all plainSend ss \<Longrightarrow>
  mapE (initSend env) ss = Inr (Inr (map (\<lambda>e. setSendDefs (resolveEvent e)) ss))"
  by (induction ss) (auto simp: initSend_plain)

lemma initTransition_plain_eq:
  assumes "plainTransition t"
  shows "initTransition env t = Inr (Inr (initT t))"
proof -
  from assms obtain trg where "t_Trigger t = Some trg" "noLink trg" "list_all plainSend (t_Sends t)"
    by (auto simp: plainTransition_def split: option.splits)
  then show ?thesis by (simp add: initTransition_def Event_filterEnvs_id mapE_plain initT_def)
qed

lemma mapE_initTransition: "list_all plainTransition ts \<Longrightarrow> mapE (initTransition env) ts = Inr (Inr (map initT ts))"
  by (induction ts) (auto simp: initTransition_plain_eq)

definition initS :: "string \<times> State \<Rightarrow> string \<times> State" where
  "initS ks = (fst ks, (snd ks)\<lparr>s_Transitions := map initT (s_Transitions (snd ks))\<rparr>)"

lemma initStates_program:
  "initStates env initial sts cur b = Inr (Inr (sts', cur')) \<Longrightarrow>
   list_all (\<lambda>(k, s). list_all plainTransition (s_Transitions s)) sts \<Longrightarrow> sts' = map initS sts"
proof (induction env initial sts cur b arbitrary: sts' cur' rule: initStates.induct)
  case (2 env initial sid st rest cur b)
  from "2.prems"(2) have ts: "mapE (initTransition env) (s_Transitions st) = Inr (Inr (map initT (s_Transitions st)))"
    by (simp add: mapE_initTransition)
  with "2.prems"(1) obtain t0 where t0: "initial = Some t0" by (cases initial) auto
  show ?case
  proof (cases "sid = t_Target t0")
    case True
    with "2.prems" ts t0 obtain sts1 where
      "initStates env initial rest (t_Target t0) True = Inr (Inr (sts1, cur'))"
      "sts' = (sid, st\<lparr>s_Transitions := map initT (s_Transitions st)\<rparr>) # sts1"
      by (auto simp: bindE_ok split: if_split_asm)
    with "2.IH"(1) [OF t0 _ True] True t0 "2.prems" show ?thesis by (auto simp: initS_def bindE_ok split: if_split_asm)
  next
    case False
    with "2.prems" ts t0 obtain sts1 where
      "initStates env initial rest cur b = Inr (Inr (sts1, cur'))"
      "sts' = (sid, st\<lparr>s_Transitions := map initT (s_Transitions st)\<rparr>) # sts1"
      by (auto simp: bindE_ok split: if_split_asm)
    with "2.IH"(2) [OF t0 _ False] False t0 "2.prems" show ?thesis by (auto simp: initS_def)
  qed
qed simp

definition initProgram :: "Machine \<Rightarrow> (string \<times> State) list" where
  "initProgram m = map (\<lambda>(k, s). (k, skelS s)) (map initS (m_States m))"

lemma Initialize_program:
  assumes "Initialize env m = Inr (Inr m')" "plain_machine m"
  shows "program m' = initProgram m"
proof -
  from assms(1) obtain sts cur t0 where
    st: "initStates env (m_Initial m) (m_States m) (m_Current m) False = Inr (Inr (sts, cur))" and
    "m_States m' = sts"
    by (auto simp: Initialize_def Let_def bindE_ok)
  with initStates_program [OF st] assms(2) show ?thesis
    by (simp add: program_def initProgram_def plain_machine_def)
qed

text \<open>
  The transitions of a running machine, read off the file: the trigger is the file's trigger with its
  protocol resolved, and what is sent has protocol, rule and text of the file's events.
\<close>

lemma map_of_initS:
  "map_of (map (\<lambda>(k, s). (k, skelS s)) (map initS xs)) k =
   map_option (\<lambda>s. skelS (s\<lparr>s_Transitions := map initT (s_Transitions s)\<rparr>)) (map_of xs k)"
  by (induction xs) (auto simp: initS_def)

lemma initProgram_state:
  assumes "CurrentState m = Some st" "program m = initProgram m0"
  shows "\<exists>st0. map_of (m_States m0) (m_Current m) = Some st0 \<and>
    skelS st = skelS (st0\<lparr>s_Transitions := map initT (s_Transitions st0)\<rparr>)"
proof -
  have "map_of (program m) (m_Current m) = Some (skelS st)"
    using assms(1) by (simp add: program_def CurrentState_def stateOf_def map_of_map)
  moreover have "map_of (initProgram m0) k =
      map_option (\<lambda>s. skelS (s\<lparr>s_Transitions := map initT (s_Transitions s)\<rparr>)) (map_of (m_States m0) k)" for k
    unfolding initProgram_def by (rule map_of_initS)
  ultimately show ?thesis using assms(2) by auto
qed

lemma triggerOf_file:
  assumes "triggerOf m i = Some trg" "program m = initProgram m0"
  shows "\<exists>st0 trg0. map_of (m_States m0) (m_Current m) = Some st0 \<and> i < length (s_Transitions st0) \<and>
    t_Trigger (s_Transitions st0 ! i) = Some trg0 \<and> trg = resolveEvent trg0"
proof -
  from assms(1) obtain st where st: "CurrentState m = Some st" "i < length (s_Transitions st)"
    "t_Trigger (s_Transitions st ! i) = Some trg"
    by (auto simp: triggerOf_def triggerAt_def transitionAt_def CurrentState_def
        split: option.split_asm if_split_asm)
  from initProgram_state [OF st(1) assms(2)] obtain st0 where st0: "map_of (m_States m0) (m_Current m) = Some st0"
    "skelS st = skelS (st0\<lparr>s_Transitions := map initT (s_Transitions st0)\<rparr>)" by blast
  from arg_cong [OF st0(2), of s_Transitions] have
    eq: "map skelT (s_Transitions st) = map (\<lambda>t. skelT (initT t)) (s_Transitions st0)" by simp
  from arg_cong [OF eq, of length] st(2) have i: "i < length (s_Transitions st0)" by simp
  from arg_cong [OF eq, of "\<lambda>xs. xs ! i"] i st(2) have
    "skelT (s_Transitions st ! i) = skelT (initT (s_Transitions st0 ! i))" by simp
  from arg_cong [OF this, of t_Trigger] st(3) have
    "map_option resolveEvent (t_Trigger (s_Transitions st0 ! i)) = Some trg" by (simp add: initT_def)
  with st0(1) i show ?thesis by auto
qed

lemma sends_of_file:
  assumes "sends_of m i es" "e \<in> set es" "program m = initProgram m0"
  shows "\<exists>st0 e0. map_of (m_States m0) (m_Current m) = Some st0 \<and> i < length (s_Transitions st0) \<and>
    e0 \<in> set (t_Sends (s_Transitions st0 ! i)) \<and> e_ProtocolType e = ProtocolType (e_Protocol e0) \<and>
    e_Rule e = e_Rule e0 \<and> e_Data e = e_Data e0"
proof -
  from assms(1,2) obtain st where st: "CurrentState m = Some st" "i < length (s_Transitions st)"
    "map erase es = map erase (t_Sends (s_Transitions st ! i))"
    by (auto simp: sends_of_def)
  from initProgram_state [OF st(1) assms(3)] obtain st0 where st0: "map_of (m_States m0) (m_Current m) = Some st0"
    "skelS st = skelS (st0\<lparr>s_Transitions := map initT (s_Transitions st0)\<rparr>)" by blast
  from arg_cong [OF st0(2), of s_Transitions] have
    eq: "map skelT (s_Transitions st) = map (\<lambda>t. skelT (initT t)) (s_Transitions st0)" by simp
  from arg_cong [OF eq, of length] st(2) have i: "i < length (s_Transitions st0)" by simp
  from arg_cong [OF eq, of "\<lambda>xs. xs ! i"] i st(2) have
    "skelT (s_Transitions st ! i) = skelT (initT (s_Transitions st0 ! i))" by simp
  from arg_cong [OF this, of t_Sends] st(3) have
    "map erase es = map (\<lambda>e. erase (setSendDefs (resolveEvent e))) (t_Sends (s_Transitions st0 ! i))"
    by (simp add: initT_def comp_def)
  then have "erase ` set es = (\<lambda>e. erase (setSendDefs (resolveEvent e))) ` set (t_Sends (s_Transitions st0 ! i))"
    by (metis list.set_map)
  with assms(2) obtain e0 where e0: "e0 \<in> set (t_Sends (s_Transitions st0 ! i))"
    "erase e = erase (setSendDefs (resolveEvent e0))" by auto
  from arg_cong [OF e0(2), of e_ProtocolType] arg_cong [OF e0(2), of e_Rule] arg_cong [OF e0(2), of e_Data]
  have "e_ProtocolType e = ProtocolType (e_Protocol e0)" "e_Rule e = e_Rule e0" "e_Data e = e_Data e0"
    by (simp_all add: erase_def setSendDefs_def resolveEvent_def)
  with st0(1) i e0(1) show ?thesis by blast
qed

subsection \<open>The email issuer\<close>

text \<open>A bot that runs one of the machines of the file.\<close>

definition runs :: "env \<Rightarrow> codec \<Rightarrow> MultiplexerInfo \<Rightarrow> Machine \<Rightarrow> bool" where
  "runs env cd info m0 \<longleftrightarrow> files_ok cd info \<and> NewMachine cd (mi_ConversationMachine info) = Inr m0"

lemma runs_program:
  assumes "runs env cd info m0" "plain_machine m0" "reachable env cd info s" "conv s cid = Some c"
    "c_machine c = Some m"
  shows "program m = initProgram m0"
proof -
  from programs.reachable_machines [OF _ assms(3-5)] assms(1) obtain m1 where
    "Initialize env m0 = Inr (Inr m1)" "program m = program m1"
    by (auto simp: runs_def from_file_def)
  with Initialize_program [OF this(1) assms(2)] show ?thesis by simp
qed

text \<open>Lua triggers of the file and of the running machine.\<close>

lemma lua_free_initT:
  "(case t_Trigger (skelT (initT t)) of None \<Rightarrow> True | Some trg \<Rightarrow> e_Rule trg \<noteq> TriggerTypeLua) \<longleftrightarrow>
   (case t_Trigger t of None \<Rightarrow> True | Some trg \<Rightarrow> e_Rule trg \<noteq> TriggerTypeLua)"
  by (cases "t_Trigger t") (simp_all add: initT_def resolveEvent_def)

lemma list_all_initProgram:
  "list_all (\<lambda>(k, s). list_all (\<lambda>t. case t_Trigger t of None \<Rightarrow> True
      | Some trg \<Rightarrow> e_Rule trg \<noteq> TriggerTypeLua) (s_Transitions s))
     (map (\<lambda>(k, s). (k, skelS s)) (map initS xs)) \<longleftrightarrow>
   list_all (\<lambda>(k, s). list_all (\<lambda>t. case t_Trigger t of None \<Rightarrow> True
      | Some trg \<Rightarrow> e_Rule trg \<noteq> TriggerTypeLua) (s_Transitions s)) xs"
  by (induction xs) (auto simp: initS_def list_all_iff lua_free_initT [simplified])

lemma lua_free_file:
  assumes "program m = initProgram m0" "lua_free m0"
  shows "lua_free m"
proof -
  have "lua_free m \<longleftrightarrow> list_all (\<lambda>(k, s). list_all (\<lambda>t. case t_Trigger t of None \<Rightarrow> True
      | Some trg \<Rightarrow> e_Rule trg \<noteq> TriggerTypeLua) (s_Transitions s)) (program m)"
    by (simp add: lua_free_def program_def list_all_iff split_def)
  also have "\<dots> \<longleftrightarrow> lua_free m0"
    unfolding assms(1) lua_free_def initProgram_def
    by (rule list_all_initProgram)
  finally show ?thesis using assms(2) by simp
qed

lemma EmailIssuer_lua_free: "lua_free EmailIssuerMachine"
  by (simp add: lua_free_def EmailIssuerMachine_def mkMachine_def mkEvent_def Event_zero_def go_consts)

text \<open>Where a machine sends an event of a kind: the states and the indices of their transitions.\<close>

fun siteIndices :: "(Event \<Rightarrow> bool) \<Rightarrow> nat \<Rightarrow> Transition list \<Rightarrow> nat list" where
  "siteIndices P i [] = []"
| "siteIndices P i (t # ts) =
     (if list_ex P (t_Sends t) then i # siteIndices P (Suc i) ts else siteIndices P (Suc i) ts)"

definition sites :: "(Event \<Rightarrow> bool) \<Rightarrow> Machine \<Rightarrow> (string \<times> nat) list" where
  "sites P m0 = concat (map (\<lambda>(k, s). map (Pair k) (siteIndices P 0 (s_Transitions s))) (m_States m0))"

lemma siteIndices_complete:
  "i < length ts \<Longrightarrow> list_ex P (t_Sends (ts ! i)) \<Longrightarrow> n + i \<in> set (siteIndices P n ts)"
proof (induction P n ts arbitrary: i rule: siteIndices.induct)
  case (2 P n t ts)
  show ?case
  proof (cases i)
    case 0
    with 2 show ?thesis by simp
  next
    case (Suc j)
    with 2 show ?thesis by (cases "list_ex P (t_Sends t)") (force, force)
  qed
qed simp

lemma sites_complete:
  assumes "map_of (m_States m0) k = Some st" "i < length (s_Transitions st)"
    "e0 \<in> set (t_Sends (s_Transitions st ! i))" "P e0"
  shows "(k, i) \<in> set (sites P m0)"
proof -
  have st: "(k, st) \<in> set (m_States m0)" using assms(1) by (rule map_of_SomeD)
  have "i \<in> set (siteIndices P 0 (s_Transitions st))"
    using siteIndices_complete [of i "s_Transitions st" P 0] assms(2-4) by (auto simp: list_ex_iff)
  with st show ?thesis unfolding sites_def by fastforce
qed

lemma e_mkEvent [simp]:
  "e_Protocol (mkEvent p t r d) = p" "e_Protocol (mkIssue e c a) = e_Protocol e"
  "e_Rule (mkEvent p t r d) = r" "e_Data (mkEvent p t r d) = d"
  "e_Rule (mkIssue e c a) = e_Rule e" "e_Data (mkIssue e c a) = e_Data e"
  by (simp_all add: mkEvent_def mkIssue_def)

lemma ProtocolType_issue: "ProtocolType p = Protocol_ISSUE_CREDENTIAL \<longleftrightarrow> p = ''issue_cred''"
  by (simp add: ProtocolType_def go_consts)

lemma ProtocolType_answer: "ProtocolType p = QAProtocol \<longleftrightarrow> p = ''answer''"
  by (simp add: ProtocolType_def go_consts)

lemma EmailIssuer_sites:
  "sites (\<lambda>e. ProtocolType (e_Protocol e) = Protocol_ISSUE_CREDENTIAL) EmailIssuerMachine =
   [(''WAITING_EMAIL_PIN'', 2)]"
  by (simp add: sites_def EmailIssuerMachine_def mkMachine_def ProtocolType_issue)

lemma EmailIssuer_pin_trigger:
  assumes "map_of (m_States EmailIssuerMachine) ''WAITING_EMAIL_PIN'' = Some st"
  shows "map t_Trigger (s_Transitions st) = [Some (mkEvent ''basic_message'' [] ''INPUT_EQUAL'' ''reset''),
    Some (mkEvent ''basic_message'' [] ''INPUT_VALIDATE_NOT_EQUAL'' ''PIN''),
    Some (mkEvent ''basic_message'' [] ''INPUT_VALIDATE_EQUAL'' ''PIN'')]"
proof -
  have "map_option (\<lambda>st. map t_Trigger (s_Transitions st))
      (map_of (m_States EmailIssuerMachine) ''WAITING_EMAIL_PIN'') =
    Some [Some (mkEvent ''basic_message'' [] ''INPUT_EQUAL'' ''reset''),
    Some (mkEvent ''basic_message'' [] ''INPUT_VALIDATE_NOT_EQUAL'' ''PIN''),
    Some (mkEvent ''basic_message'' [] ''INPUT_VALIDATE_EQUAL'' ''PIN'')]"
    by (simp add: EmailIssuerMachine_def mkMachine_def)
  with assms show ?thesis by simp
qed

lemma resolve_fields [simp]:
  "e_Protocol (resolveEvent e) = e_Protocol e" "e_Rule (resolveEvent e) = e_Rule e"
  "e_Data (resolveEvent e) = e_Data e" "e_ProtocolType (resolveEvent e) = ProtocolType (e_Protocol e)"
  by (simp_all add: resolveEvent_def)

lemma ProtocolType_basic: "ProtocolType ''basic_message'' = Protocol_BASIC_MESSAGE"
  by (simp add: ProtocolType_def go_consts)

lemma ProtocolType_proof: "ProtocolType ''present_proof'' = Protocol_PRESENT_PROOF"
  by (simp add: ProtocolType_def go_consts)

text \<open>A trigger for a basic message with one of the two rules that compare the input.\<close>

lemma statusEnabled_basic:
  assumes "e_ProtocolType trg = Protocol_BASIC_MESSAGE" "statusEnabled s trg mem"
  shows "\<exists>content. ps_BasicMessage s = Some content \<and> statusTypeID (Some s) = Inr Protocol_BASIC_MESSAGE \<and>
    messageEnabled content trg mem"
  using assms by (auto simp: statusEnabled_def go_consts split: sum.split_asm option.split_asm)

lemma statusEnabled_basicI:
  "e_ProtocolType trg = Protocol_BASIC_MESSAGE \<Longrightarrow> ps_BasicMessage s = Some content \<Longrightarrow>
   statusTypeID (Some s) = Inr Protocol_BASIC_MESSAGE \<Longrightarrow> messageEnabled content trg mem \<Longrightarrow> statusEnabled s trg mem"
  by (simp add: statusEnabled_def)

lemma statusEnabled_proof:
  "e_ProtocolType trg = Protocol_PRESENT_PROOF \<Longrightarrow>
   statusEnabled s trg mem \<longleftrightarrow> statusTypeID (Some s) = Inr Protocol_PRESENT_PROOF"
  by (auto simp: statusEnabled_def split: sum.split)

lemma EmailIssuer_triggers:
  assumes "program m = initProgram EmailIssuerMachine" "m_Current m = ''WAITING_EMAIL_PIN''"
    "triggerOf m i = Some trg"
  shows "(i = 0 \<and> trg = resolveEvent (mkEvent ''basic_message'' [] ''INPUT_EQUAL'' ''reset'')) \<or>
    (i = 1 \<and> trg = resolveEvent (mkEvent ''basic_message'' [] ''INPUT_VALIDATE_NOT_EQUAL'' ''PIN'')) \<or>
    (i = 2 \<and> trg = resolveEvent (mkEvent ''basic_message'' [] ''INPUT_VALIDATE_EQUAL'' ''PIN''))"
proof -
  from triggerOf_file [OF assms(3,1)] assms(2) obtain st0 trg0 where
    st: "map_of (m_States EmailIssuerMachine) ''WAITING_EMAIL_PIN'' = Some st0" "i < length (s_Transitions st0)"
    "t_Trigger (s_Transitions st0 ! i) = Some trg0" "trg = resolveEvent trg0" by auto
  note trs = EmailIssuer_pin_trigger [OF st(1)]
  from arg_cong [OF trs, of length] st(2) have i: "i < 3" by simp
  from arg_cong [OF trs, of "\<lambda>xs. xs ! i"] st(2,3) have
    "Some trg0 = [Some (mkEvent ''basic_message'' [] ''INPUT_EQUAL'' ''reset''),
      Some (mkEvent ''basic_message'' [] ''INPUT_VALIDATE_NOT_EQUAL'' ''PIN''),
      Some (mkEvent ''basic_message'' [] ''INPUT_VALIDATE_EQUAL'' ''PIN'')] ! i" by simp
  with i st(4) show ?thesis by (auto simp: less_Suc_eq numeral_3_eq_3 numeral_2_eq_2)
qed

lemma EmailIssuer_first:
  assumes p: "program m = initProgram EmailIssuerMachine" and cur: "m_Current m = ''WAITING_EMAIL_PIN''"
    and first: "first_enabled (\<lambda>trg. statusEnabled s trg (m_Memory m)) m 2"
  shows "ps_BasicMessage s = Some (mget (m_Memory m) ''PIN'') \<and> mget (m_Memory m) ''PIN'' \<noteq> ''reset''"
proof -
  from first obtain trg where t2: "triggerOf m 2 = Some trg" "statusEnabled s trg (m_Memory m)"
    and "\<exists>trg. triggerOf m 0 = Some trg \<and> \<not> statusEnabled s trg (m_Memory m)"
    by (auto simp: first_enabled_def)
  then obtain trg0 where t0: "triggerOf m 0 = Some trg0" "\<not> statusEnabled s trg0 (m_Memory m)" by blast
  from EmailIssuer_triggers [OF p cur t2(1)] have
    trg: "trg = resolveEvent (mkEvent ''basic_message'' [] ''INPUT_VALIDATE_EQUAL'' ''PIN'')" by simp
  from EmailIssuer_triggers [OF p cur t0(1)] have
    trg0: "trg0 = resolveEvent (mkEvent ''basic_message'' [] ''INPUT_EQUAL'' ''reset'')" by simp
  have "e_ProtocolType trg = Protocol_BASIC_MESSAGE" by (simp add: trg ProtocolType_basic)
  from statusEnabled_basic [OF this t2(2)] obtain content where
    c: "ps_BasicMessage s = Some content" "statusTypeID (Some s) = Inr Protocol_BASIC_MESSAGE"
    "messageEnabled content trg (m_Memory m)" by blast
  from c(3) have "content = mget (m_Memory m) ''PIN''"
    by (simp add: messageEnabled_def trg go_consts)
  moreover have "content \<noteq> ''reset''"
  proof
    assume "content = ''reset''"
    then have "messageEnabled content trg0 (m_Memory m)"
      by (simp add: messageEnabled_def trg0 go_consts)
    with statusEnabled_basicI [of trg0 s content] c(1,2) t0(2) show False
      by (simp add: trg0 ProtocolType_basic)
  qed
  ultimately show ?thesis using c(1) by simp
qed

lemma EmailIssuer_needs_pin:
  assumes r: "runs env cd info EmailIssuerMachine" "reachable env cd info s" "exec env cd info l s = Some s'"
    and c: "conv s cid = Some c" "c_pc c = CIdle" "c_machine c = Some m"
    and c': "conv s' cid = Some c'" "c_pc c' = CSending es st fo"
    and e: "e \<in> set es" "e_ProtocolType e = Protocol_ISSUE_CREDENTIAL"
  shows "\<exists>status. l = LDeliver (Some status) \<and> m_Current m = ''WAITING_EMAIL_PIN'' \<and>
    ps_BasicMessage status = Some (mget (m_Memory m) ''PIN'') \<and> mget (m_Memory m) ''PIN'' \<noteq> ''reset''"
proof -
  have wf: "sys_wf s" using r(1,2) reachable_wf by (auto simp: runs_def)
  note p = runs_program [OF r(1) EmailIssuer_plain [THEN conjunct2] r(2) c(1,3)]
  note lf = lua_free_file [OF p EmailIssuer_lua_free]
  from exec_reacts [OF wf r(3) c(1,2,3) c'] obtain i where
    i: "sends_of m i es" "reacts_to env m l (s_mux s) cid i" by blast
  from sends_of_file [OF i(1) e(1) p] e(2) obtain st0 e0 where
    "map_of (m_States EmailIssuerMachine) (m_Current m) = Some st0" "i < length (s_Transitions st0)"
    "e0 \<in> set (t_Sends (s_Transitions st0 ! i))" "ProtocolType (e_Protocol e0) = Protocol_ISSUE_CREDENTIAL"
    by auto
  from sites_complete [where P = "\<lambda>e. ProtocolType (e_Protocol e) = Protocol_ISSUE_CREDENTIAL", OF this]
  have cur: "m_Current m = ''WAITING_EMAIL_PIN''" "i = 2" unfolding EmailIssuer_sites by auto
  have ty: "e_ProtocolType trg = Protocol_BASIC_MESSAGE" if "triggerOf m i = Some trg" for trg
    using EmailIssuer_triggers [OF p cur(1) that] cur(2) by (simp add: ProtocolType_basic)
  then have no: "\<not> (\<exists>trg. triggerOf m i = Some trg \<and> e_ProtocolType trg = BackendProtocol)"
    "\<not> (\<exists>trg. triggerOf m i = Some trg \<and> e_ProtocolType trg = TransientProtocol)"
    "\<not> first_enabled (questionEnabled env q) m i" for q
    by (auto simp: first_enabled_def questionEnabled_def go_consts)
  from i(2) no lf obtain status where "l = LDeliver (Some status)"
    "first_enabled (\<lambda>trg. statusEnabled status trg (m_Memory m)) m i"
    by (auto simp: reacts_to_def split: label.split_asm mux_pc.split_asm)
  with EmailIssuer_first [OF p cur(1), of status] cur show ?thesis by simp
qed

subsection \<open>The proof bot\<close>

definition emailProofJSON :: string where
  "emailProofJSON = ''[{\"name\":\"email\",\"credDefId\":\"T2o5osjKcK6oVDPxcLjKnB:3:CL:T2o5osjKcK6oVDPxcLjKnB:2:my-schema:1.0:t1\"}]''"

definition emailCredDefID :: string where
  "emailCredDefID = ''T2o5osjKcK6oVDPxcLjKnB:3:CL:T2o5osjKcK6oVDPxcLjKnB:2:my-schema:1.0:t1''"

text \<open>What the JSON package makes of the text: the one attribute that it names.\<close>

definition parses_email_proof :: "env \<Rightarrow> bool" where
  "parses_email_proof env \<longleftrightarrow> (case unmarshalProofAttrs env emailProofJSON of
     Some [v] \<Rightarrow> pa_Name v = ''email'' \<and> pa_CredDefID v = emailCredDefID
   | _ \<Rightarrow> False)"

lemma ReqProof_sites:
  "sites (\<lambda>e. ProtocolType (e_Protocol e) = QAProtocol \<and> e_Data e = ''ACK'') ReqProofMachine =
   [(''WAITING_EMAIL_PROOF_QA'', 2)]"
  by (simp add: sites_def ReqProofMachine_def mkMachine_def ProtocolType_answer)

lemma ReqProof_triggers0:
  assumes "map_of (m_States ReqProofMachine) ''WAITING_EMAIL_PROOF_QA'' = Some st"
  shows "map t_Trigger (s_Transitions st) = [Some (mkEvent ''basic_message'' [] ''INPUT_EQUAL'' ''reset''),
    Some (mkEvent ''present_proof'' ''ANSWER_NEEDED_PROOF_VERIFY'' ''NOT_ACCEPT_VALUES'' emailProofJSON),
    Some (mkEvent ''present_proof'' ''ANSWER_NEEDED_PROOF_VERIFY'' ''ACCEPT_AND_INPUT_VALUES'' emailProofJSON)]"
proof -
  have "map_option (\<lambda>st. map t_Trigger (s_Transitions st))
      (map_of (m_States ReqProofMachine) ''WAITING_EMAIL_PROOF_QA'') =
    Some [Some (mkEvent ''basic_message'' [] ''INPUT_EQUAL'' ''reset''),
    Some (mkEvent ''present_proof'' ''ANSWER_NEEDED_PROOF_VERIFY'' ''NOT_ACCEPT_VALUES'' emailProofJSON),
    Some (mkEvent ''present_proof'' ''ANSWER_NEEDED_PROOF_VERIFY'' ''ACCEPT_AND_INPUT_VALUES'' emailProofJSON)]"
    by (simp add: ReqProofMachine_def mkMachine_def emailProofJSON_def)
  with assms show ?thesis by simp
qed

lemma ReqProof_triggers:
  assumes "program m = initProgram ReqProofMachine" "m_Current m = ''WAITING_EMAIL_PROOF_QA''"
    "triggerOf m i = Some trg"
  shows "(i = 0 \<and> trg = resolveEvent (mkEvent ''basic_message'' [] ''INPUT_EQUAL'' ''reset'')) \<or>
    (i = 1 \<and> trg = resolveEvent (mkEvent ''present_proof'' ''ANSWER_NEEDED_PROOF_VERIFY''
       ''NOT_ACCEPT_VALUES'' emailProofJSON)) \<or>
    (i = 2 \<and> trg = resolveEvent (mkEvent ''present_proof'' ''ANSWER_NEEDED_PROOF_VERIFY''
       ''ACCEPT_AND_INPUT_VALUES'' emailProofJSON))"
proof -
  from triggerOf_file [OF assms(3,1)] assms(2) obtain st0 trg0 where
    st: "map_of (m_States ReqProofMachine) ''WAITING_EMAIL_PROOF_QA'' = Some st0" "i < length (s_Transitions st0)"
    "t_Trigger (s_Transitions st0 ! i) = Some trg0" "trg = resolveEvent trg0" by auto
  note trs = ReqProof_triggers0 [OF st(1)]
  from arg_cong [OF trs, of length] st(2) have i: "i < 3" by simp
  from arg_cong [OF trs, of "\<lambda>xs. xs ! i"] st(2,3) have
    "Some trg0 = [Some (mkEvent ''basic_message'' [] ''INPUT_EQUAL'' ''reset''),
      Some (mkEvent ''present_proof'' ''ANSWER_NEEDED_PROOF_VERIFY'' ''NOT_ACCEPT_VALUES'' emailProofJSON),
      Some (mkEvent ''present_proof'' ''ANSWER_NEEDED_PROOF_VERIFY'' ''ACCEPT_AND_INPUT_VALUES'' emailProofJSON)] ! i"
    by simp
  with i st(4) show ?thesis by (auto simp: less_Suc_eq numeral_3_eq_3 numeral_2_eq_2)
qed

lemma presented_singleton: "length attrs = 1 \<Longrightarrow> presented attrs v \<Longrightarrow>
  \<exists>a. attrs = [a] \<and> at_Name a = pa_Name v \<and> at_CredDefID a = pa_CredDefID v"
  by (auto simp: presented_def length_Suc_conv)

lemma ReqProof_first:
  assumes p: "program m = initProgram ReqProofMachine" and cur: "m_Current m = ''WAITING_EMAIL_PROOF_QA''"
    and first: "first_enabled (questionEnabled env q) m 2" and js: "parses_email_proof env"
  shows "\<exists>a. q_ProofVerify q = Some [a] \<and> at_Name a = ''email'' \<and> at_CredDefID a = emailCredDefID"
proof -
  from first obtain trg trg1 where t: "triggerOf m 2 = Some trg" "questionEnabled env q trg"
    and t1: "triggerOf m 1 = Some trg1" "\<not> questionEnabled env q trg1"
    unfolding first_enabled_def by (metis one_less_numeral_iff semiring_norm(76))
  from js obtain v where v: "unmarshalProofAttrs env emailProofJSON = Some [v]" "pa_Name v = ''email''"
    "pa_CredDefID v = emailCredDefID"
    by (auto simp: parses_email_proof_def split: option.split_asm list.split_asm)
  from ReqProof_triggers [OF p cur t(1)] have trg: "trg = resolveEvent (mkEvent ''present_proof''
    ''ANSWER_NEEDED_PROOF_VERIFY'' ''ACCEPT_AND_INPUT_VALUES'' emailProofJSON)" by simp
  from ReqProof_triggers [OF p cur t1(1)] have trg1: "trg1 = resolveEvent (mkEvent ''present_proof''
    ''ANSWER_NEEDED_PROOF_VERIFY'' ''NOT_ACCEPT_VALUES'' emailProofJSON)" by simp
  from t(2) obtain attrs where a: "q_ProofVerify q = Some attrs" "q_TypeID q = Question_PROOF_VERIFY_WAITS"
    "n_ProtocolType (as_Notification (q_Status q)) = Protocol_PRESENT_PROOF"
    by (auto simp: questionEnabled_def trg v ProtocolType_proof split: option.split_asm)
  with t1(2) have "length attrs = 1" "presented attrs v"
    by (auto simp: questionEnabled_def trg1 v ProtocolType_proof go_consts)
  from presented_singleton [OF this] a(1) v(2,3) show ?thesis by auto
qed

lemma ReqProof_acknowledges:
  assumes r: "runs env cd info ReqProofMachine" "reachable env cd info s" "exec env cd info l s = Some s'"
    and c: "conv s cid = Some c" "c_pc c = CIdle" "c_machine c = Some m"
    and c': "conv s' cid = Some c'" "c_pc c' = CSending es st fo"
    and e: "e \<in> set es" "e_ProtocolType e = QAProtocol" "e_Data e = ''ACK''"
    and js: "parses_email_proof env"
  shows "\<exists>q a. s_mux s = MQuestion cid q \<and> q_ProofVerify q = Some [a] \<and> at_Name a = ''email'' \<and>
    at_CredDefID a = emailCredDefID"
proof -
  have wf: "sys_wf s" using r(1,2) reachable_wf by (auto simp: runs_def)
  note p = runs_program [OF r(1) ReqProof_plain [THEN conjunct2] r(2) c(1,3)]
  have lf: "lua_free m"
    by (rule lua_free_file [OF p])
      (simp add: lua_free_def ReqProofMachine_def mkMachine_def go_consts)
  from exec_reacts [OF wf r(3) c(1,2,3) c'] obtain i where
    i: "sends_of m i es" "reacts_to env m l (s_mux s) cid i" by blast
  from sends_of_file [OF i(1) e(1) p] e(2,3) obtain st0 e0 where
    "map_of (m_States ReqProofMachine) (m_Current m) = Some st0" "i < length (s_Transitions st0)"
    "e0 \<in> set (t_Sends (s_Transitions st0 ! i))"
    "ProtocolType (e_Protocol e0) = QAProtocol \<and> e_Data e0 = ''ACK''"
    by auto
  from sites_complete [where P = "\<lambda>e. ProtocolType (e_Protocol e) = QAProtocol \<and> e_Data e = ''ACK''", OF this]
  have cur: "m_Current m = ''WAITING_EMAIL_PROOF_QA''" "i = 2" unfolding ReqProof_sites by auto
  have trg: "e_ProtocolType trg = Protocol_PRESENT_PROOF \<and> e_Rule trg = ''ACCEPT_AND_INPUT_VALUES''"
    if "triggerOf m i = Some trg" for trg
    using ReqProof_triggers [OF p cur(1) that] cur(2) by (simp add: ProtocolType_proof)
  then have no: "\<not> (\<exists>trg. triggerOf m i = Some trg \<and> e_ProtocolType trg = BackendProtocol)"
    "\<not> (\<exists>trg. triggerOf m i = Some trg \<and> e_ProtocolType trg = TransientProtocol)"
    by (auto simp: go_consts)
  show ?thesis
  proof (cases "\<exists>q. s_mux s = MQuestion cid q \<and> first_enabled (questionEnabled env q) m i")
    case True
    with ReqProof_first [OF p cur(1) _ js] cur(2) show ?thesis by blast
  next
    case False
    with i(2) no lf obtain status where f: "first_enabled (\<lambda>trg. statusEnabled status trg (m_Memory m)) m 2"
      unfolding cur(2) by (auto simp: reacts_to_def split: label.split_asm mux_pc.split_asm)
    then obtain trg trg1 where t: "triggerOf m 2 = Some trg" "statusEnabled status trg (m_Memory m)"
      and t1: "triggerOf m 1 = Some trg1" "\<not> statusEnabled status trg1 (m_Memory m)"
      unfolding first_enabled_def by (metis one_less_numeral_iff semiring_norm(76))
    from ReqProof_triggers [OF p cur(1) t(1)] ReqProof_triggers [OF p cur(1) t1(1)]
    have "e_ProtocolType trg = Protocol_PRESENT_PROOF" "e_ProtocolType trg1 = Protocol_PRESENT_PROOF"
      by (auto simp: ProtocolType_proof)
    with t(2) t1(2) statusEnabled_proof show ?thesis by blast
  qed
qed

end
