(* ===== verification/Chat_Waiting.thy ===== *)
theory Chat_Waiting
  imports Chat_Blocking
begin

text \<open>
  The third circular wait, the one of the termination signals, and the proof that there are no others:
  where a bot can go no further on its own, it rests or its goroutines are in one of the waits listed
  here.
\<close>

subsection \<open>The signals of two conversations\<close>

text \<open>
  The termination channel of the conversations has room for one signal. A conversation that has ended
  while another one's signal is in it waits at its send; when the multiplexer has taken a status or a
  question of that conversation instead of the signal, it waits for the conversation in turn.
\<close>

definition mux_for :: "string \<Rightarrow> Conversation \<Rightarrow> mux_pc \<Rightarrow> bool" where
  "mux_for cid c pc = (case pc of MStatus k _ \<Rightarrow> k = cid | MQuestion k _ \<Rightarrow> k = cid
     | MForward k _ \<Rightarrow> k = cid \<and> c_BackendChan c \<noteq> [] | _ \<Rightarrow> False)"

definition signal_locked :: "string \<Rightarrow> mux_pc \<Rightarrow> Conversation \<Rightarrow> nat \<Rightarrow> sys \<Rightarrow> bool" where
  "signal_locked cid pc c n s \<longleftrightarrow> s_mux s = pc \<and> mux_for cid c pc \<and> conv s cid = Some c \<and> c_pc c = CSignal \<and>
     0 < s_termChan s \<and> s_interrupts s = n"

lemma handleConv_termChan [simp]: "s_termChan (handleConv r s) = s_termChan s"
  by (cases r) (simp_all add: handleConv_def crashOr_def split_def)

lemma conv_output_termChan: "conv_output out r c s = Some s' \<Longrightarrow> s_termChan s' = s_termChan s"
  by (cases out) (auto simp: conv_output_def isRequest_def split: if_split_asm option.split_asm)

lemma conv_send_termChan: "conv_send r c s = Some s' \<Longrightarrow> s_termChan s \<le> s_termChan s'"
  by (auto simp: conv_send_def crashOr_def dest!: conv_output_termChan
      split: conv_pc.split_asm list.split_asm sum.split_asm if_split_asm)

lemma conv_label_termChan:
  assumes "exec env cd info l s = Some s'" "label_conv l = Some cid"
  shows "s_termChan s \<le> s_termChan s'"
  using assms conv_send_termChan
  by (cases l) (auto simp: label_conv_def exec_def withConv_def conv_start_def conv_backend_def conv_transient_def
      split: if_split_asm option.split_asm conv_pc.split_asm list.split_asm)

lemma signal_locked_exec:
  assumes wf: "sys_wf s" and p: "signal_locked cid pc c n s" and e: "exec env cd info l s = Some s'"
  shows "signal_locked cid pc c n s'"
proof (cases "label_conv l")
  case (Some cid')
  have "cid' \<noteq> cid"
  proof
    assume "cid' = cid"
    with Some p e show False
      by (cases l) (auto simp: label_conv_def signal_locked_def exec_def withConv_def conv_start_def
          conv_send_def conv_backend_def conv_transient_def split: if_split_asm)
  qed
  with exec_conv_frame [OF wf e Some] conv_label_termChan [OF e Some] p show ?thesis
    unfolding signal_locked_def conv_frame_def by auto
next
  case None
  with p e obtain bd where "outside bd s = Some s'"
    by (cases l) (auto simp: label_conv_def signal_locked_def mux_for_def exec_def mux_status_def mux_question_def
        mux_deliver_def mux_backend_def mux_send_def mux_broadcast_def mux_forward_def mux_term_def
        split: if_split_asm option.split_asm mux_pc.split_asm)
  then have "s_mux s' = s_mux s" "s_termChan s' = s_termChan s" "s_interrupts s' = s_interrupts s"
    "s_conversations s' = s_conversations s"
    by (auto simp: outside_def split_def split: if_split_asm)
  with p conv_same [of s' s cid] show ?thesis by (simp add: signal_locked_def)
qed

interpretation signal_lock: stable env cd info "signal_locked cid pc c n" for env cd info cid pc c n
  by unfold_locales (rule signal_locked_exec)

text \<open>How the bot gets there: the idle multiplexer takes the next status of the connection.\<close>

lemma status_signal_locks:
  assumes "s_panic s = None" "s_mux s = MIdle" "conv s cid = Some c" "c_pc c = CSignal" "0 < s_termChan s"
    and "n_ConnectionID (as_Notification as) = cid"
  shows "\<exists>s'. exec env cd info (LStatus as) s = Some s' \<and>
    signal_locked cid (MStatus cid as) c (s_interrupts s) s'"
  using assms by (simp add: exec_def mux_status_def ensureConv_def signal_locked_def mux_for_def)
    (simp add: conv_def)

subsection \<open>Where a bot can go no further on its own\<close>

text \<open>All steps but those in which the agency or the user of the package hands something to the bot.\<close>

definition own_label :: "label \<Rightarrow> bool" where
  "own_label l = (case l of LStatus _ \<Rightarrow> False | LQuestion _ \<Rightarrow> False | LOutside _ \<Rightarrow> False | _ \<Rightarrow> True)"

definition stuck :: "env \<Rightarrow> codec \<Rightarrow> MultiplexerInfo \<Rightarrow> sys \<Rightarrow> bool" where
  "stuck env cd info s \<longleftrightarrow> (\<forall>l. own_label l \<longrightarrow> exec env cd info l s = None)"

text \<open>A conversation that is at its loop with nothing to do, and one that waits for room in a channel.\<close>

definition idle :: "Conversation \<Rightarrow> bool" where
  "idle c = (case c_pc c of CIdle \<Rightarrow> True | _ \<Rightarrow> False)"

lemma idle_iff [simp]: "idle c \<longleftrightarrow> c_pc c = CIdle"
  by (simp add: idle_def split: conv_pc.split)

definition conv_rests :: "Conversation \<Rightarrow> bool" where
  "conv_rests c = (idle c \<and> c_BackendChan c = [] \<and> c_TransientChan c = [])"

definition out_waits :: "sys \<Rightarrow> Conversation \<Rightarrow> outmsg \<Rightarrow> bool" where
  "out_waits s c out = (case out of
       OTransient _ \<Rightarrow> c_TransientChan c \<noteq> []
     | OBackend _ \<Rightarrow> (case s_backend s of None \<Rightarrow> False | Some b \<Rightarrow> b_BackendChan b \<noteq> [])
     | _ \<Rightarrow> False)"

definition conv_waits :: "sys \<Rightarrow> Conversation \<Rightarrow> bool" where
  "conv_waits s c = (case c_pc c of
       CSending (e # es) st f \<Rightarrow> (case outputOf st e of Inl _ \<Rightarrow> False | Inr out \<Rightarrow> out_waits s c out)
     | CSignal \<Rightarrow> 0 < s_termChan s
     | _ \<Rightarrow> False)"

text \<open>The multiplexer at its \<open>select\<close> with nothing to take, or at the send to a conversation that does not
  take it.\<close>

definition takes :: "(Conversation \<Rightarrow> bool) \<Rightarrow> string \<Rightarrow> sys \<Rightarrow> bool" where
  "takes P cid s = (case conv s cid of None \<Rightarrow> False | Some c \<Rightarrow> P c)"

definition mux_waits :: "sys \<Rightarrow> bool" where
  "mux_waits s = (case s_mux s of
       MIdle \<Rightarrow> s_ConversationBackendChan s = [] \<and> s_termChan s = 0 \<and>
         (case s_backend s of None \<Rightarrow> True | Some b \<Rightarrow> b_BackendChan b = [])
     | MStatus cid _ \<Rightarrow> \<not> takes idle cid s
     | MQuestion cid _ \<Rightarrow> \<not> takes idle cid s
     | MForward cid _ \<Rightarrow> \<not> takes (\<lambda>c. c_BackendChan c = []) cid s
     | MBroadcast _ ids _ _ \<Rightarrow> list_all (\<lambda>cid. \<not> takes (\<lambda>c. c_BackendChan c = []) cid s) ids
     | MBlocked \<Rightarrow> True
     | _ \<Rightarrow> False)"

lemma conv_output_enabled: "(conv_output out r c s = None) = out_waits s c out"
  by (cases out) (auto simp: conv_output_def out_waits_def isRequest_def split: option.split)

lemma out_waits_pc [simp]: "out_waits s (c\<lparr>c_pc := pc\<rparr>) out = out_waits s c out"
  by (simp add: out_waits_def split: outmsg.split)

lemma conv_send_enabled:
  assumes "c_pc c \<notin> {CStart, CIdle}"
  shows "(conv_send r c s = None) = conv_waits s c"
  using assms
  by (auto simp: conv_send_def conv_waits_def conv_output_enabled split: conv_pc.split list.split sum.split)

lemma conv_backend_enabled: "(conv_backend env c s = None) = (c_pc c \<noteq> CIdle \<or> c_BackendChan c = [])"
  by (auto simp: conv_backend_def split: conv_pc.split list.split)

lemma conv_transient_enabled: "(conv_transient env c s = None) = (c_pc c \<noteq> CIdle \<or> c_TransientChan c = [])"
  by (auto simp: conv_transient_def split: conv_pc.split list.split)

text \<open>A goroutine of a conversation can make no step just when it rests or waits.\<close>

lemma conv_blocked:
  assumes "s_panic s = None" "conv s cid = Some c"
  shows "(\<forall>l. label_conv l = Some cid \<longrightarrow> exec env cd info l s = None) \<longleftrightarrow> conv_rests c \<or> conv_waits s c"
    (is "?none \<longleftrightarrow> _")
proof
  assume none: ?none
  have no: "exec env cd info (LConvStart cid) s = None" "exec env cd info (LConvSend cid None) s = None"
    "exec env cd info (LConvBackend cid) s = None" "exec env cd info (LConvTransient cid) s = None"
    using none by (simp_all add: label_conv_def)
  with assms have "c_pc c \<noteq> CStart" "conv_send None c s = None" "conv_backend env c s = None"
    "conv_transient env c s = None"
    by (auto simp: exec_def withConv_def conv_start_def)
  then show "conv_rests c \<or> conv_waits s c"
    using conv_send_enabled [of c None s]
    by (cases "c_pc c = CIdle") (auto simp: conv_rests_def conv_backend_enabled conv_transient_enabled)
next
  assume w: "conv_rests c \<or> conv_waits s c"
  then have "c_pc c \<noteq> CStart" "conv_send r c s = None" "conv_backend env c s = None"
    "conv_transient env c s = None" for r
    using conv_send_enabled [of c r s]
    by (auto simp: conv_rests_def conv_waits_def conv_send_def conv_backend_enabled conv_transient_enabled
        split: conv_pc.split_asm list.split_asm)
  with assms show ?none
    by (auto simp: label_conv_def exec_def withConv_def conv_start_def split: label.split)
qed

definition mux_label :: "label \<Rightarrow> bool" where
  "mux_label l = (own_label l \<and> (case label_conv l of None \<Rightarrow> True | Some _ \<Rightarrow> False))"

lemma mux_label_cases:
  assumes "mux_label l"
  obtains st where "l = LDeliver st" | "l = LBackend" | "l = LSend" | cid where "l = LBroadcast cid"
    | "l = LForward" | "l = LTerm"
  using assms by (cases l) (auto simp: mux_label_def own_label_def label_conv_def)

lemma mux_blocked:
  assumes "s_panic s = None" "sys_wf s"
  shows "(\<forall>l. mux_label l \<longrightarrow> exec env cd info l s = None) \<longleftrightarrow> mux_waits s" (is "?none \<longleftrightarrow> _")
proof
  assume none: ?none
  have no: "mux_deliver env None s = None" "mux_backend env s = None" "mux_send s = None"
    "mux_broadcast cid s = None" "mux_forward s = None" "mux_term s = None" for cid
    using none [rule_format, of "LDeliver None"] none [rule_format, of LBackend]
      none [rule_format, of LSend] none [rule_format, of "LBroadcast cid"]
      none [rule_format, of LForward] none [rule_format, of LTerm] assms(1)
    by (simp_all add: mux_label_def own_label_def label_conv_def exec_def)
  show "mux_waits s"
  proof (cases "s_mux s")
    case MIdle
    with no(2,5,6) show ?thesis
      by (auto simp: mux_waits_def mux_backend_def mux_forward_def mux_term_def
          split: option.split list.split_asm if_split_asm)
  next
    case (MSending es f)
    with no(3) assms(2) show ?thesis
      by (cases es; cases f) (auto simp: mux_send_def sys_wf_def mux_ok_def)
  next
    case (MBroadcast d ids es f)
    have "\<not> takes (\<lambda>c. c_BackendChan c = []) cid s" if "cid \<in> set ids" for cid
      using no(4) [of cid] MBroadcast that
      by (auto simp: mux_broadcast_def takes_def split: option.split_asm if_split_asm)
    with MBroadcast show ?thesis by (simp add: mux_waits_def list_all_iff)
  qed (use no in \<open>auto simp: mux_waits_def mux_deliver_def mux_forward_def mux_term_def takes_def
      split: option.split_asm if_split_asm\<close>)
next
  assume w: "mux_waits s"
  show ?none
  proof (intro allI impI)
    fix l
    assume "mux_label l"
    then show "exec env cd info l s = None"
      using w assms(1)
      by (cases rule: mux_label_cases)
        (auto simp: exec_def mux_waits_def mux_deliver_def mux_backend_def mux_send_def mux_broadcast_def
          mux_forward_def mux_term_def takes_def list_all_iff split: mux_pc.split option.split_asm option.split)
  qed
qed

lemma conv_entries: "sys_wf s \<Longrightarrow> conv s cid = Some c \<longleftrightarrow> (cid, c) \<in> set (s_conversations s)"
  by (simp add: conv_def sys_wf_def)

lemma exec_no_conv: "conv s cid = None \<Longrightarrow> label_conv l = Some cid \<Longrightarrow> exec env cd info l s = None"
  by (cases l) (auto simp: label_conv_def exec_def withConv_def)

lemma own_label_iff: "own_label l \<longleftrightarrow> mux_label l \<or> (\<exists>cid. label_conv l = Some cid)"
  by (cases l) (auto simp: own_label_def mux_label_def label_conv_def)

lemma stuck_iff:
  assumes "s_panic s = None" "sys_wf s"
  shows "stuck env cd info s \<longleftrightarrow>
    mux_waits s \<and> list_all (\<lambda>(cid, c). conv_rests c \<or> conv_waits s c) (s_conversations s)"
proof -
  have "stuck env cd info s \<longleftrightarrow> (\<forall>l. mux_label l \<longrightarrow> exec env cd info l s = None) \<and>
      (\<forall>cid l. label_conv l = Some cid \<longrightarrow> exec env cd info l s = None)"
    unfolding stuck_def own_label_iff by blast
  also have "(\<forall>cid l. label_conv l = Some cid \<longrightarrow> exec env cd info l s = None) \<longleftrightarrow>
      (\<forall>cid c. conv s cid = Some c \<longrightarrow> conv_rests c \<or> conv_waits s c)"
    using conv_blocked [OF assms(1)] exec_no_conv by (metis option.exhaust)
  finally show ?thesis
    unfolding mux_blocked [OF assms] conv_entries [OF assms(2)] by (auto simp: list_all_iff)
qed

end
