(* ===== verification/Chat_Rest.thy ===== *)
theory Chat_Rest
  imports Chat_Bots Chat_Waiting
begin

text \<open>
  A bot without a backend machine whose machine sends no transient steps comes to rest when nothing
  more is handed to it, in whatever order its goroutines run, unless the signals of two conversations
  meet. Every step of a goroutine lowers a measure, and where no step is left the bot rests.
\<close>

subsection \<open>What happens in every run\<close>

inductive inevitable :: "('s \<Rightarrow> 's \<Rightarrow> bool) \<Rightarrow> ('s \<Rightarrow> bool) \<Rightarrow> 's \<Rightarrow> bool" for step P where
  now: "P s \<Longrightarrow> inevitable step P s"
| later: "\<exists>s'. step s s' \<Longrightarrow> (\<And>s'. step s s' \<Longrightarrow> inevitable step P s') \<Longrightarrow> inevitable step P s"

lemma inevitable_wf:
  assumes "wf r" "I s"
    and "\<And>s. I s \<Longrightarrow> \<not> P s \<Longrightarrow> \<exists>s'. step s s'"
    and "\<And>s s'. I s \<Longrightarrow> step s s' \<Longrightarrow> I s' \<and> (s', s) \<in> r"
  shows "inevitable step P s"
  using assms(1,2)
proof (induction s rule: wf_induct_rule)
  case (less s)
  show ?case
  proof (cases "P s")
    case True
    then show ?thesis by (rule now)
  next
    case False
    show ?thesis
      by (rule later) (use assms(3) [OF less.prems False] assms(4) [OF less.prems] less.IH in blast)+
  qed
qed

definition own_step :: "env \<Rightarrow> codec \<Rightarrow> MultiplexerInfo \<Rightarrow> sys \<Rightarrow> sys \<Rightarrow> bool" where
  "own_step env cd info s s' \<longleftrightarrow> (\<exists>l. own_label l \<and> exec env cd info l s = Some s')"

subsection \<open>The own steps of a bot without a backend machine\<close>

lemma Run_start_fields:
  assumes "Run_start env cd dat c h = Inr (c', h')"
  shows "c_BackendChan c' = c_BackendChan c \<and> c_TransientChan c' = c_TransientChan c \<and>
    (\<exists>es. c_pc c' = CSending es None None)"
proof -
  from assms obtain m0 r where r: "NewMachine cd dat = Inr m0" "Initialize env m0 = Inr r"
    by (auto simp: Run_start_def)
  with assms show ?thesis by (cases r) (auto simp: Run_start_def reacting_def)
qed

inductive conv_moves :: "env \<Rightarrow> codec \<Rightarrow> MultiplexerInfo \<Rightarrow> mux_pc \<Rightarrow> nat \<Rightarrow> Conversation \<Rightarrow>
    mux_pc \<Rightarrow> nat \<Rightarrow> Conversation \<Rightarrow> bool" for env cd info where
  given: "c_pc c = CIdle \<Longrightarrow> (\<exists>cid as. pc = MStatus cid as) \<or> (\<exists>cid q. pc = MQuestion cid q) \<Longrightarrow>
    handled_frame c c' \<Longrightarrow> conv_moves env cd info pc t c MIdle t c'"
| started: "c_pc c = CStart \<Longrightarrow> Run_start env cd (mi_ConversationMachine info) c h = Inr (c', h') \<Longrightarrow> conv_moves env cd info pc t c pc t c'"
| sent: "c_pc c = CSending (e # es) st f \<Longrightarrow> c_pc c' = CSending es st f \<Longrightarrow> c_BackendChan c' = c_BackendChan c \<Longrightarrow>
    c_TransientChan c' = c_TransientChan c \<or> e_ProtocolType e = TransientProtocol \<Longrightarrow> conv_moves env cd info pc t c pc t c'"
| finished: "c_pc c = CSending [] st f \<Longrightarrow> c_pc c' \<in> {CIdle, CSignal} \<Longrightarrow> c_BackendChan c' = c_BackendChan c \<Longrightarrow>
    c_TransientChan c' = c_TransientChan c \<Longrightarrow> conv_moves env cd info pc t c pc t c'"
| signalled: "c_pc c = CSignal \<Longrightarrow> conv_moves env cd info pc t c pc (Suc t) (c\<lparr>c_pc := CIdle\<rparr>)"
| backend: "c_pc c = CIdle \<Longrightarrow> c_BackendChan c = d # ds \<Longrightarrow> handled_frame (c\<lparr>c_BackendChan := ds\<rparr>) c' \<Longrightarrow>
    conv_moves env cd info pc t c pc t c'"
| transient: "c_pc c = CIdle \<Longrightarrow> c_TransientChan c = d # ds \<Longrightarrow> handled_frame (c\<lparr>c_TransientChan := ds\<rparr>) c' \<Longrightarrow>
    conv_moves env cd info pc t c pc t c'"

text \<open>The rest of the state around the conversation that has moved.\<close>

definition conv_moved :: "env \<Rightarrow> codec \<Rightarrow> MultiplexerInfo \<Rightarrow> string \<Rightarrow> Conversation \<Rightarrow> Conversation \<Rightarrow> sys \<Rightarrow> sys \<Rightarrow> bool" where
  "conv_moved env cd info cid c c' s s' \<longleftrightarrow> conv s cid = Some c \<and> c_id c' = cid \<and>
     s_conversations s' = alist_update cid (\<lambda>_. c') (s_conversations s) \<and> s_panic s' = None \<and>
     s_ConversationBackendChan s' = s_ConversationBackendChan s \<and> s_backend s' = s_backend s \<and>
     conv_moves env cd info (s_mux s) (s_termChan s) c (s_mux s') (s_termChan s') c'"

lemma conv_movedI:
  assumes "conv s cid = Some c" "c_id c' = cid" "s_conversations s1 = s_conversations s"
    "s_panic s1 = None" "s_ConversationBackendChan s1 = s_ConversationBackendChan s" "s_backend s1 = s_backend s"
    "conv_moves env cd info (s_mux s) (s_termChan s) c (s_mux s1) (s_termChan s1) c'"
  shows "conv_moved env cd info cid c c' s (setConv c' s1)"
  using assms by (simp add: conv_moved_def setConv_def)

lemma handle_moved:
  assumes "s' = handleConv r s1" "s_panic s' = None" "conv s cid = Some c" "s_conversations s1 = s_conversations s"
    "s_panic s1 = None" "s_ConversationBackendChan s1 = s_ConversationBackendChan s" "s_backend s1 = s_backend s"
    "\<And>c' h. r = Inr (c', h) \<Longrightarrow> c_id c' = cid \<and> conv_moves env cd info (s_mux s) (s_termChan s) c (s_mux s1) (s_termChan s1) c'"
  shows "\<exists>c'. conv_moved env cd info cid c c' s s'"
proof (cases r)
  case (Inl p)
  with assms(1,2) show ?thesis by (simp add: handleConv_def crashOr_def)
next
  case (Inr x)
  obtain c' h where x: "x = (c', h)" by (cases x)
  with Inr assms(1) have "s' = setConv c' (s1\<lparr>s_heap := h\<rparr>)" by (simp add: handleConv_def crashOr_def)
  moreover have "conv_moved env cd info cid c c' s (setConv c' (s1\<lparr>s_heap := h\<rparr>))"
    by (rule conv_movedI) (use assms Inr x in auto)
  ultimately show ?thesis by blast
qed

lemma outputOf_transient: "outputOf st e = Inr (OTransient msg) \<Longrightarrow> e_ProtocolType e = TransientProtocol"
  by (auto simp: outputOf_def split: if_split_asm option.split_asm)

lemma output_moved:
  assumes "conv_output out r (c\<lparr>c_pc := CSending es st f\<rparr>) s = Some s'" "s_panic s' = None" "s_panic s = None"
    "conv s cid = Some c" "c_id c = cid" "c_pc c = CSending (e # es) st f" "outputOf st e = Inr out"
    "s_backend s = None"
  shows "\<exists>c'. conv_moved env cd info cid c c' s s'"
proof -
  have "\<exists>c' h. s' = setConv c' (s\<lparr>s_heap := h\<rparr>) \<and> c_id c' = cid \<and> c_pc c' = CSending es st f \<and>
      c_BackendChan c' = c_BackendChan c \<and>
      (c_TransientChan c' = c_TransientChan c \<or> e_ProtocolType e = TransientProtocol)"
  proof (cases "\<exists>p. out = OBackend p")
    case True
    with assms(1,5,8) show ?thesis by (auto simp: conv_output_def intro!: exI)
  next
    case False
    with assms(1,2,5,7) outputOf_transient [of st e] have "\<exists>c'. s' = setConv c' s \<and> c_id c' = cid \<and>
      c_pc c' = CSending es st f \<and> c_BackendChan c' = c_BackendChan c \<and>
      (c_TransientChan c' = c_TransientChan c \<or> e_ProtocolType e = TransientProtocol)"
      by (cases out) (auto simp: conv_output_def isRequest_def split: if_split_asm option.split_asm intro!: exI)
    then show ?thesis by (metis sys.surjective sys.update_convs(7))
  qed
  then obtain c' h where "s' = setConv c' (s\<lparr>s_heap := h\<rparr>)" "c_id c' = cid" "c_pc c' = CSending es st f"
      "c_BackendChan c' = c_BackendChan c"
      "c_TransientChan c' = c_TransientChan c \<or> e_ProtocolType e = TransientProtocol"
    by blast
  moreover have "conv_moved env cd info cid c c' s (setConv c' (s\<lparr>s_heap := h\<rparr>))"
    by (rule conv_movedI) (use assms calculation in \<open>auto intro: conv_moves.sent\<close>)
  ultimately show ?thesis by blast
qed

lemma send_moved:
  assumes "conv_send r c s = Some s'" "s_panic s' = None" "s_panic s = None" "conv s cid = Some c" "c_id c = cid"
    "s_backend s = None"
  shows "\<exists>c'. conv_moved env cd info cid c c' s s'"
proof (cases "c_pc c")
  case (CSending es st f)
  show ?thesis
  proof (cases es)
    case Nil
    with CSending assms(1,2) obtain c' where c': "finishSend f c = Inr c'" "s' = setConv c' s"
      by (cases "finishSend f c") (auto simp: conv_send_def crashOr_def)
    then have "c_pc c' \<in> {CIdle, CSignal}" "c_BackendChan c' = c_BackendChan c" "c_TransientChan c' = c_TransientChan c"
      by (auto simp: finishSend_def split: option.split_asm)
    with CSending Nil assms c' finishSend_id [OF c'(1)] show ?thesis
      by (auto intro!: exI conv_movedI conv_moves.finished)
  next
    case (Cons e es')
    with CSending assms(1,2) obtain out where "outputOf st e = Inr out"
      "conv_output out r (c\<lparr>c_pc := CSending es' st f\<rparr>) s = Some s'"
      by (auto simp: conv_send_def split: sum.split_asm)
    with output_moved CSending Cons assms(2-6) show ?thesis by blast
  qed
next
  case CSignal
  with assms show ?thesis
    by (auto simp: conv_send_def split: if_split_asm intro!: exI conv_movedI conv_moves.signalled)
qed (use assms in \<open>simp_all add: conv_send_def\<close>)

lemma deliver_moved:
  assumes "mux_deliver env status s = Some s'" "sys_wf s" "s_panic s' = None" "s_panic s = None"
  shows "\<exists>cid c c'. conv_moved env cd info cid c c' s s'"
proof -
  from assms(1) obtain cid c r where c: "conv s cid = Some c" "c_pc c = CIdle"
    and s': "s' = handleConv r (s\<lparr>s_mux := MIdle\<rparr>)"
    and m: "(\<exists>cid as. s_mux s = MStatus cid as) \<or> (\<exists>cid q. s_mux s = MQuestion cid q)"
    and r: "(\<exists>as. r = statusReceived env as status c (s_heap s)) \<or>
      (\<exists>q. r = questionReceived env q c (s_heap s))"
    unfolding mux_deliver_def
    by (auto split: mux_pc.split_asm option.split_asm if_split_asm) blast+
  have "c_id c' = cid \<and> conv_moves env cd info (s_mux s) (s_termChan s) c MIdle (s_termChan s) c'" if "r = Inr (c', h)" for c' h
  proof -
    have "handled_frame c c'" using r that status_handler.frame question_handler.frame by blast
    with m c sys_wf_conv(1) [OF assms(2) c(1)] show ?thesis
      by (auto simp: handled_frame_def intro: conv_moves.given)
  qed
  with handle_moved [OF s' assms(3) c(1)] assms(4) show ?thesis by simp blast
qed

text \<open>Every own step of a bot without a backend machine ends the process, is one of the multiplexer's
  steps on its own channels, or moves one conversation.\<close>

lemma own_step_cases:
  assumes "own_step env cd info s s'" "sys_wf s" "s_backend s = None"
  obtains (panics) "s_panic s = None" "s_panic s' \<noteq> None"
  | (signal) "s_mux s = MIdle" "0 < s_termChan s" "s' = s\<lparr>s_termChan := s_termChan s - 1, s_mux := MInterrupt\<rparr>"
  | (interrupt) "s_mux s = MInterrupt" "s' = s\<lparr>s_interrupts := Suc (s_interrupts s), s_mux := MIdle\<rparr>"
  | (takes) cid d ds where "s_mux s = MIdle" "s_ConversationBackendChan s = d # ds"
      "s' = s\<lparr>s_ConversationBackendChan := ds, s_mux := MForward cid d\<rparr>"
  | (pushes) cid d c where "s_mux s = MForward cid d" "conv s cid = Some c" "c_id c = cid" "c_BackendChan c = []"
      "s' = setConv (c\<lparr>c_BackendChan := [d]\<rparr>) (s\<lparr>s_mux := MIdle\<rparr>)"
  | (moves) cid c c' where "conv_moved env cd info cid c c' s s'"
proof (cases "s_panic s' = None")
  case False
  from assms(1) obtain l where l: "own_label l" "exec env cd info l s = Some s'" by (auto simp: own_step_def)
  then have ex: "s_panic s = None" by (auto simp: exec_def split: if_split_asm)
  with False show thesis by (intro panics)
next
  case np: True
  from assms(1) obtain l where l: "own_label l" "exec env cd info l s = Some s'" by (auto simp: own_step_def)
  then have ex: "s_panic s = None" by (auto simp: exec_def split: if_split_asm)
  note e = l(2) [unfolded exec_def, simplified ex, simplified]
  note id = sys_wf_conv(1) [OF assms(2)]
  show thesis
  proof (cases l)
    case (LDeliver st)
    with e have "mux_deliver env st s = Some s'" by simp
    from deliver_moved [OF this assms(2) np ex] moves show thesis by blast
  next
    case LBackend
    with e assms(3) show thesis by (auto simp: mux_backend_def split: mux_pc.split_asm)
  next
    case LSend
    with e assms(3) show thesis by (auto simp: mux_send_def split: mux_pc.split_asm list.split_asm option.split_asm)
  next
    case (LBroadcast cid)
    with e assms(2,3) show thesis
      by (auto simp: mux_broadcast_def sys_wf_def mux_ok_def split: mux_pc.split_asm)
  next
    case LForward
    with e np pushes takes id show thesis
      by (auto simp: mux_forward_def crashOr_def Let_def split: mux_pc.split_asm list.split_asm option.split_asm
          sum.split_asm if_split_asm)
  next
    case LTerm
    with e signal interrupt show thesis by (auto simp: mux_term_def split: if_split_asm)
  next
    case (LConvStart cid)
    with e obtain c where c: "conv s cid = Some c" "c_pc c = CStart"
      "s' = handleConv (Run_start env cd (mi_ConversationMachine info) c (s_heap s)) s"
      by (auto simp: withConv_def conv_start_def split: option.split_asm if_split_asm)
    from handle_moved [OF c(3) np c(1) refl ex refl refl] c(2) id [OF c(1)] Run_start_id conv_moves.started moves
    show thesis by metis
  next
    case (LConvSend cid r)
    with e obtain c where c: "conv s cid = Some c" "conv_send r c s = Some s'"
      by (auto simp: withConv_def split: option.split_asm)
    from send_moved [OF c(2) np ex c(1) id [OF c(1)] assms(3)] moves show thesis by blast
  next
    case (LConvBackend cid)
    with e obtain c d ds where c: "conv s cid = Some c" "c_pc c = CIdle" "c_BackendChan c = d # ds"
      "s' = handleConv (conv_backendReceived env d (c\<lparr>c_BackendChan := ds\<rparr>) (s_heap s)) s"
      by (auto simp: withConv_def conv_backend_def split: option.split_asm conv_pc.split_asm list.split_asm)
    have "c_id c' = cid \<and> conv_moves env cd info (s_mux s) (s_termChan s) c (s_mux s) (s_termChan s) c'"
      if "conv_backendReceived env d (c\<lparr>c_BackendChan := ds\<rparr>) (s_heap s) = Inr (c', h)" for c' h
      using backend_handler.frame [OF that] id [OF c(1)] c(2,3)
      by (auto simp: handled_frame_def intro: conv_moves.backend)
    with handle_moved [OF c(4) np c(1) refl ex refl refl] moves show thesis by blast
  next
    case (LConvTransient cid)
    with e obtain c d ds where c: "conv s cid = Some c" "c_pc c = CIdle" "c_TransientChan c = d # ds"
      "s' = handleConv (stepReceived env d (c\<lparr>c_TransientChan := ds\<rparr>) (s_heap s)) s"
      by (auto simp: withConv_def conv_transient_def split: option.split_asm conv_pc.split_asm list.split_asm)
    have "c_id c' = cid \<and> conv_moves env cd info (s_mux s) (s_termChan s) c (s_mux s) (s_termChan s) c'"
      if "stepReceived env d (c\<lparr>c_TransientChan := ds\<rparr>) (s_heap s) = Inr (c', h)" for c' h
      using step_handler.frame [OF that] id [OF c(1)] c(2,3)
      by (auto simp: handled_frame_def intro: conv_moves.transient)
    with handle_moved [OF c(4) np c(1) refl ex refl refl] moves show thesis by blast
  qed (use l in \<open>simp_all add: own_label_def\<close>)
qed

subsection \<open>The measure\<close>

text \<open>
  First the process can end; then what is still to be handled counts, more the further it is from a
  conversation; then the events still to send and the signals on their way.
\<close>

definition conv_todo :: "Conversation \<Rightarrow> nat" where
  "conv_todo c = length (c_BackendChan c) + length (c_TransientChan c) +
     (case c_pc c of CStart \<Rightarrow> 1 | _ \<Rightarrow> 0)"

definition conv_pending :: "Conversation \<Rightarrow> nat" where
  "conv_pending c = (case c_pc c of CSending es _ _ \<Rightarrow> length es + 4 | CSignal \<Rightarrow> 3 | _ \<Rightarrow> 0)"

definition mux_todo :: "mux_pc \<Rightarrow> nat" where
  "mux_todo pc = (case pc of MStatus _ _ \<Rightarrow> 1 | MQuestion _ _ \<Rightarrow> 1 | MForward _ _ \<Rightarrow> 2 | _ \<Rightarrow> 0)"

definition sum_convs :: "(Conversation \<Rightarrow> nat) \<Rightarrow> sys \<Rightarrow> nat" where
  "sum_convs w s = sum_list (map (\<lambda>(k, c). w c) (s_conversations s))"

definition todo :: "sys \<Rightarrow> nat" where
  "todo s = mux_todo (s_mux s) + 3 * length (s_ConversationBackendChan s) + sum_convs conv_todo s"

definition pending :: "sys \<Rightarrow> nat" where
  "pending s = (case s_mux s of MInterrupt \<Rightarrow> 1 | _ \<Rightarrow> 0) + 2 * s_termChan s + sum_convs conv_pending s"

definition left :: "sys \<Rightarrow> nat \<times> nat \<times> nat" where
  "left s = (case s_panic s of None \<Rightarrow> 1 | Some _ \<Rightarrow> 0, todo s, pending s)"

lemma sum_alist_update:
  "distinct (map fst xs) \<Longrightarrow> map_of xs k = Some (c::Conversation) \<Longrightarrow>
   sum_list (map (\<lambda>(k, c). w c) (alist_update k (\<lambda>_. c') xs)) + w c =
   sum_list (map (\<lambda>(k, c). w c) xs) + (w c' :: nat)"
  by (induction xs) (auto simp: map_of_eq_None_iff)

lemma sum_convs_moved:
  assumes "sys_wf s" "conv s cid = Some c" "s_conversations s' = alist_update cid (\<lambda>_. c') (s_conversations s)"
  shows "sum_convs w s' + w c = sum_convs w s + w c'"
  using assms sum_alist_update [of "s_conversations s" cid c w c']
  by (simp add: sum_convs_def sys_wf_def conv_def)

text \<open>No transient steps: none waits and none is going to be sent.\<close>

definition quiet :: "Conversation \<Rightarrow> bool" where
  "quiet c \<longleftrightarrow> c_TransientChan c = [] \<and>
     (\<forall>es st f. c_pc c = CSending es st f \<longrightarrow> (\<forall>e \<in> set es. e_ProtocolType e \<noteq> TransientProtocol))"

lemma conv_moves_lower:
  assumes "conv_moves env cd info pc t c pc' t' c'" "quiet c"
  shows "mux_todo pc' + conv_todo c' < mux_todo pc + conv_todo c \<or>
    mux_todo pc' + conv_todo c' = mux_todo pc + conv_todo c \<and> pc' = pc \<and>
      2 * t' + conv_pending c' < 2 * t + conv_pending c"
  using assms
  by cases (auto simp: mux_todo_def conv_todo_def conv_pending_def handled_frame_def quiet_def dest: Run_start_fields)

lemma own_step_lowers:
  assumes "own_step env cd info s s'" "sys_wf s" "s_backend s = None"
    and "\<And>cid c. conv s cid = Some c \<Longrightarrow> quiet c"
  shows "(left s', left s) \<in> less_than <*lex*> less_than <*lex*> less_than"
  using assms(1-3)
proof (cases rule: own_step_cases)
  case panics
  then show ?thesis by (auto simp: left_def)
next
  case signal
  then show ?thesis by (auto simp: left_def todo_def pending_def mux_todo_def sum_convs_def)
next
  case interrupt
  then show ?thesis by (auto simp: left_def todo_def pending_def mux_todo_def sum_convs_def)
next
  case (takes cid d ds)
  then show ?thesis by (auto simp: left_def todo_def pending_def mux_todo_def sum_convs_def)
next
  case (pushes cid d c)
  have "sum_convs conv_todo s' + conv_todo c = sum_convs conv_todo s + conv_todo (c\<lparr>c_BackendChan := [d]\<rparr>)"
    by (rule sum_convs_moved [OF assms(2) pushes(2)]) (simp add: pushes setConv_def)
  moreover have "s_mux s' = MIdle" "s_panic s' = s_panic s"
      "s_ConversationBackendChan s' = s_ConversationBackendChan s" by (simp_all add: pushes(5))
  ultimately show ?thesis using pushes(1,4) by (simp add: left_def todo_def mux_todo_def conv_todo_def)
next
  case (moves cid c c')
  have m: "conv_moves env cd info (s_mux s) (s_termChan s) c (s_mux s') (s_termChan s') c'"
    and c: "conv s cid = Some c" "s_conversations s' = alist_update cid (\<lambda>_. c') (s_conversations s)"
    and e: "s_panic s' = None" "s_ConversationBackendChan s' = s_ConversationBackendChan s"
    using moves by (simp_all add: conv_moved_def)
  have "s_panic s = None" using assms(1) by (auto simp: own_step_def exec_def split: if_split_asm)
  with e conv_moves_lower [OF m assms(4) [OF c(1)]] sum_convs_moved [OF assms(2) c, of conv_todo]
    sum_convs_moved [OF assms(2) c, of conv_pending]
  show ?thesis by (auto simp: left_def todo_def pending_def)
qed

end
