(* ===== verification/Chat_Settles.thy ===== *)
theory Chat_Settles
  imports Chat_Rest
begin

text \<open>
  The bots that come to rest: those whose file has no transient step among its events and no backend
  machine. What the file says of its states holds of every machine of the bot.
\<close>

subsection \<open>From the file to the machines that run\<close>

definition all_states :: "(State \<Rightarrow> bool) \<Rightarrow> Machine \<Rightarrow> bool" where
  "all_states P m \<longleftrightarrow> list_all (\<lambda>(k, s). P s) (m_States m)"

lemma all_states_program:
  assumes "\<And>s. P (skelS s) = P s"
  shows "all_states P m = list_all (\<lambda>(k, s). P s) (program m)"
  by (simp add: all_states_def program_def list_all_iff split_def assms)

lemma list_all_across:
  "list_all2 R xs ys \<Longrightarrow> list_all P xs \<Longrightarrow> (\<And>x y. R x y \<Longrightarrow> P x \<Longrightarrow> Q y) \<Longrightarrow> list_all Q ys"
  by (induction rule: list_all2_induct) auto

lemma from_file_states:
  assumes "from_file env cd info m" "NewMachine cd (mi_ConversationMachine info) = Inr m0" "all_states P0 m0"
    and "\<And>k s k' s'. initialisedState (k, s) (k', s') \<Longrightarrow> P0 s \<Longrightarrow> P s'" "\<And>s. P (skelS s) = P s"
  shows "all_states P m"
proof -
  from assms(1,2) obtain m1 where m1: "Initialize env m0 = Inr (Inr m1)" "program m = program m1"
    by (auto simp: from_file_def)
  from Initialize_initialised [OF m1(1)] have "list_all2 initialisedState (m_States m0) (m_States m1)"
    by (simp add: initialisedMachine_def)
  then have "all_states P m1"
    using assms(3) unfolding all_states_def by (rule list_all_across) (auto dest: assms(4))
  then show ?thesis by (simp add: all_states_program [of P, OF assms(5)] m1(2))
qed

text \<open>No state of the file is terminating; none of its transitions sends a transient step.\<close>

definition no_end :: "Machine \<Rightarrow> bool" where
  "no_end m \<longleftrightarrow> all_states (\<lambda>s. \<not> s_Terminate s) m"

definition untransient :: "Transition \<Rightarrow> bool" where
  "untransient t \<longleftrightarrow> list_all (\<lambda>e. ProtocolType (e_Protocol e) \<noteq> TransientProtocol) (t_Sends t)"

definition no_transient :: "Machine \<Rightarrow> bool" where
  "no_transient m \<longleftrightarrow> (case m_Initial m of None \<Rightarrow> True | Some t \<Rightarrow> untransient t) \<and>
     all_states (\<lambda>s. list_all untransient (s_Transitions s)) m"

definition quietT :: "Transition \<Rightarrow> bool" where
  "quietT t \<longleftrightarrow> list_all (\<lambda>e. e_ProtocolType e \<noteq> TransientProtocol) (t_Sends t)"

definition quietS :: "State \<Rightarrow> bool" where
  "quietS s \<longleftrightarrow> list_all quietT (s_Transitions s)"

lemma e_ProtocolType_erase [simp]: "e_ProtocolType (erase e) = e_ProtocolType e"
  by (simp add: erase_def)

lemma erased_quiet:
  assumes "map erase es = map erase (t_Sends t)" "quietT t"
  shows "\<forall>e \<in> set es. e_ProtocolType e \<noteq> TransientProtocol"
proof -
  have "list_all (\<lambda>e. e_ProtocolType e \<noteq> TransientProtocol) (map erase es)"
    unfolding assms(1) using assms(2) by (simp add: quietT_def list_all_iff)
  then show ?thesis by (simp add: list_all_iff)
qed

lemma quietS_skelS [simp]: "quietS (skelS s) = quietS s"
  by (simp add: quietS_def quietT_def list_all_iff)

lemma initialised_quiet: "initialised t t' \<Longrightarrow> untransient t \<Longrightarrow> quietT t'"
  by (auto simp: initialised_def untransient_def quietT_def resolved_def elim!: list_all_across)

lemma initialisedState_quiet:
  "initialisedState (k, s) (k', s') \<Longrightarrow> list_all untransient (s_Transitions s) \<Longrightarrow> quietS s'"
  by (auto simp: initialisedState_def quietS_def elim!: list_all_across intro: initialised_quiet)

lemma from_file_quiet:
  assumes "from_file env cd info m" "NewMachine cd (mi_ConversationMachine info) = Inr m0" "no_transient m0"
  shows "all_states quietS m"
  by (rule from_file_states [OF assms(1,2), of "\<lambda>s. list_all untransient (s_Transitions s)"])
    (use assms(3) in \<open>auto simp: no_transient_def intro: initialisedState_quiet\<close>)

lemma from_file_no_end:
  assumes "from_file env cd info m" "NewMachine cd (mi_ConversationMachine info) = Inr m0" "no_end m0"
  shows "all_states (\<lambda>s. \<not> s_Terminate s) m"
  by (rule from_file_states [OF assms(1,2), of "\<lambda>s. \<not> s_Terminate s"])
    (use assms(3) in \<open>auto simp: no_end_def initialisedState_def\<close>)

lemma sends_of_quiet:
  assumes "sends_of m i es" "all_states quietS m" "e \<in> set es"
  shows "e_ProtocolType e \<noteq> TransientProtocol"
proof -
  from assms(1,3) obtain st where st: "CurrentState m = Some st" "i < length (s_Transitions st)"
    "map erase es = map erase (t_Sends (s_Transitions st ! i))"
    by (auto simp: sends_of_def)
  from st(1) assms(2) have "quietS st"
    by (auto simp: CurrentState_def stateOf_def all_states_def list_all_iff dest: map_of_SomeD)
  with st(2) have "quietT (s_Transitions st ! i)" by (simp add: quietS_def list_all_iff)
  with erased_quiet [OF st(3)] assms(3) show ?thesis by blast
qed

lemma Run_start_quiet:
  assumes "Run_start env cd (mi_ConversationMachine info) c h = Inr (c', h')"
    "NewMachine cd (mi_ConversationMachine info) = Inr m0" "no_transient m0" "c_TransientChan c = []"
  shows "quiet c'"
proof -
  from assms(1,2) obtain r where r: "Initialize env m0 = Inr r" by (auto simp: Run_start_def)
  with assms(1,2) obtain m1 where m1: "r = Inr m1" by (cases r) (auto simp: Run_start_def)
  let ?m = "InitLua (m1\<lparr>m_ConnID := c_id c\<rparr>)"
  from assms(1,2) r m1 obtain outs m2 where st: "Start env True ?m h = Inr (outs, m2, h')"
    and pc: "c_pc c' = CSending (case outs of None \<Rightarrow> [] | Some es \<Rightarrow> es) None None"
    by (auto simp: Run_start_def reacting_def)
  from r m1 have "initialisedMachine m0 m1" by (simp add: Initialize_initialised)
  then obtain t0 t1 where t: "m_Initial m0 = Some t0" "m_Initial m1 = Some t1"
    "t_Sends t1 = map initInitialSend (t_Sends t0)"
    by (auto simp: initialisedMachine_def)
  have "quietT t1" using assms(3) t(1,3)
    by (auto simp: no_transient_def untransient_def quietT_def list_all_iff initInitialSend_def setSendDefs_def)
  moreover have "\<forall>es. outs = Some es \<longrightarrow> map erase es = map erase (t_Sends t1)"
  proof (cases "t_Sends t1 = []")
    case True
    with st t(2) show ?thesis by (auto simp: Start_def InitLua_def)
  next
    case False
    with st t(2) have "BuildSendEvents env InitialPlace None (?m\<lparr>m_termChan := True\<rparr>) h = Inr (outs, m2, h')"
      by (simp add: Start_def InitLua_def)
    with BuildSendEvents_sends [of InitialPlace "?m\<lparr>m_termChan := True\<rparr>" env None h] t(2)
    show ?thesis by (auto simp: builds_sends_def transitionAt_def InitLua_def)
  qed
  ultimately have "\<forall>es. outs = Some es \<longrightarrow> (\<forall>e \<in> set es. e_ProtocolType e \<noteq> TransientProtocol)"
    using erased_quiet by blast
  with pc Run_start_fields [OF assms(1)] assms(4) show ?thesis
    by (auto simp: quiet_def split: option.split_asm)
qed

subsection \<open>No transient step is ever on its way\<close>

lemma moved_convs:
  assumes "conv_moved env cd info cid c c' s s'" "conv s' k = Some x"
  shows "k = cid \<and> x = c' \<or> k \<noteq> cid \<and> conv s k = Some x"
  using assms by (auto simp: conv_moved_def conv_def map_of_alist_update split: if_split_asm)

lemma moves_quiet:
  assumes "conv_moves env cd info pc t c pc' t' c'" "quiet c"
    and "NewMachine cd (mi_ConversationMachine info) = Inr m0" "no_transient m0"
    and "\<And>es st f. c_pc c = CIdle \<Longrightarrow> c_pc c' = CSending es st f \<Longrightarrow> \<forall>e \<in> set es. e_ProtocolType e \<noteq> TransientProtocol"
  shows "quiet c'"
  using assms(1)
proof cases
  case (started h h')
  with Run_start_quiet [OF _ assms(3,4)] assms(2) show ?thesis by (auto simp: quiet_def)
qed (use assms(2,5) in \<open>auto simp: quiet_def handled_frame_def\<close>)

lemma outer_convs:
  assumes "exec env cd info l s = Some s'" "\<not> own_label l" "conv s' k = Some x"
  shows "conv s k = Some x \<or> x = newConversation k"
proof -
  have ex: "s_panic s = None" using assms(1) by (auto simp: exec_def split: if_split_asm)
  have new: "conv s k = Some x \<or> x = newConversation k" if "conv (ensureConv cid s) k = Some x" for cid
    using that by (auto simp: ensureConv_def conv_def map_add_Some_iff split: if_split_asm)
  with assms ex show ?thesis
    by (cases l) (auto simp: own_label_def exec_def mux_status_def mux_question_def outside_def split_def Let_def
        conv_def split: mux_pc.split_asm if_split_asm)
qed

lemma own_convs:
  assumes "own_step env cd info s s'" "sys_wf s" "s_backend s = None" "conv s' k = Some x" "s_panic s' = None"
  shows "conv s k = Some x \<or> (\<exists>c d. conv s k = Some c \<and> x = c\<lparr>c_BackendChan := [d]\<rparr>) \<or>
    (\<exists>c. conv_moved env cd info k c x s s')"
  using assms(1-3)
proof (cases rule: own_step_cases)
  case (pushes cid d c)
  with assms(4) show ?thesis by (auto simp: conv_setConv split: if_split_asm)
next
  case (moves cid c c')
  with moved_convs [OF moves assms(4)] show ?thesis by blast
qed (use assms(4,5) in \<open>simp_all add: conv_def\<close>)

lemma exec_no_backend:
  assumes "exec env cd info l s = Some s'" "s_backend s = None"
  shows "s_backend s' = None"
  using assms
  by (cases l) (auto simp: exec_def mux_status_def mux_question_def outside_def mux_deliver_def mux_backend_def
      mux_send_def mux_broadcast_def mux_forward_def mux_term_def withConv_def conv_start_def conv_send_def
      conv_backend_def conv_transient_def conv_output_def isRequest_def ensureConv_def crashOr_def split_def Let_def
      split: if_split_asm option.split_asm mux_pc.split_asm list.split_asm sum.split_asm conv_pc.split_asm
        outmsg.split_asm)

lemma reachable_no_backend:
  assumes "reachable env cd info s" "\<not> MachineData_IsValid (mi_BackendMachine info)"
  shows "s_backend s = None"
  using assms(1) by induction (use assms(2) exec_no_backend in \<open>auto simp: mux_init_def\<close>)

lemma idle_machine: "conv_wf c \<Longrightarrow> c_pc c = CIdle \<Longrightarrow> \<exists>m. c_machine c = Some m"
  by (auto simp: conv_wf_def split: option.split_asm)

lemma reachable_quiet:
  assumes "files_ok cd info" "NewMachine cd (mi_ConversationMachine info) = Inr m0" "no_transient m0"
    "\<not> MachineData_IsValid (mi_BackendMachine info)" "reachable env cd info s"
  shows "s_panic s = None \<Longrightarrow> conv s k = Some x \<Longrightarrow> quiet x"
  using assms(5)
proof (induction arbitrary: k x)
  case (init h0 s)
  then show ?case using mux_init_empty by (simp add: conv_def)
next
  case (step s l s')
  have p: "s_panic s = None" using step.hyps(2) by (auto simp: exec_def split: if_split_asm)
  note IH = step.IH [OF p]
  note wf = reachable_wf [OF assms(1) step.hyps(1)]
  show ?case
  proof (cases "own_label l")
    case False
    from outer_convs [OF step.hyps(2) False step.prems(2)] IH show ?thesis
      by (auto simp: quiet_def newConversation_def)
  next
    case True
    with step.hyps(2) have own: "own_step env cd info s s'" by (auto simp: own_step_def)
    from own_convs [OF own wf reachable_no_backend [OF step.hyps(1) assms(4)] step.prems(2,1)]
    consider "conv s k = Some x" | c d where "conv s k = Some c" "x = c\<lparr>c_BackendChan := [d]\<rparr>"
      | c where "conv_moved env cd info k c x s s'" by blast
    then show ?thesis
    proof cases
      case 1
      then show ?thesis by (rule IH)
    next
      case 2
      from IH [OF 2(1)] 2(2) show ?thesis by (simp add: quiet_def)
    next
      case (3 c)
      then have c: "conv s k = Some c"
        and m: "conv_moves env cd info (s_mux s) (s_termChan s) c (s_mux s') (s_termChan s') x"
        by (simp_all add: conv_moved_def)
      have "\<forall>e \<in> set es. e_ProtocolType e \<noteq> TransientProtocol"
        if idle: "c_pc c = CIdle" and x: "c_pc x = CSending es st f" for es st f
      proof -
        from idle_machine [OF sys_wf_conv(2) [OF wf c] idle] obtain m where m: "c_machine c = Some m" by blast
        from exec_reacts [OF wf step.hyps(2) c idle m step.prems(2) x] obtain i where "sends_of m i es" by blast
        with sends_of_quiet from_file_quiet [OF programs.reachable_machines [OF assms(1) step.hyps(1) c m] assms(2,3)]
        show ?thesis by blast
      qed
      with moves_quiet [OF m IH [OF c] assms(2,3)] show ?thesis by blast
    qed
  qed
qed

subsection \<open>Without a terminating state no conversation signals\<close>

definition unsignalled :: "env \<Rightarrow> codec \<Rightarrow> MultiplexerInfo \<Rightarrow> Conversation \<Rightarrow> bool" where
  "unsignalled env cd info c \<longleftrightarrow>
     (\<forall>m0. NewMachine cd (mi_ConversationMachine info) = Inr m0 \<longrightarrow> no_end m0 \<longrightarrow>
        c_pc c \<noteq> CSignal \<and> (\<forall>m. c_machine c = Some m \<longrightarrow> from_file env cd info m))"

lemma finishSend_no_signal:
  assumes "finishSend f c = Inr c'" "\<And>m. c_machine c = Some m \<Longrightarrow> all_states (\<lambda>s. \<not> s_Terminate s) m"
  shows "c_pc c' \<noteq> CSignal"
proof (cases f)
  case None
  with assms(1) show ?thesis by (auto simp: finishSend_def)
next
  case (Some t)
  with assms(1) obtain m m' sig where m: "c_machine c = Some m" "Step t m = Inr (m', sig)"
    "c_pc c' = (if sig then CSignal else CIdle)" by (auto simp: finishSend_def)
  with Step_Inr [OF m(2)] assms(2) [OF m(1)] have "\<not> sig"
    by (auto simp: all_states_def stateOf_def list_all_iff dest: map_of_SomeD)
  with m(3) show ?thesis by simp
qed

interpretation unsignalling: conv_invariant env cd info "unsignalled env cd info" for env cd info
proof
  fix c c' :: Conversation
  assume "c_machine c' = c_machine c" "c_pc c' = c_pc c"
  then show "conv_wf c \<longrightarrow> unsignalled env cd info c \<longrightarrow> unsignalled env cd info c'" by (simp add: unsignalled_def)
next
  fix c c' :: Conversation and e es st f
  assume "c_pc c' = CSending es st f" "c_machine c' = c_machine c"
  then show "conv_wf c \<longrightarrow> unsignalled env cd info c \<longrightarrow> unsignalled env cd info c'" by (simp add: unsignalled_def)
next
  fix c c' :: Conversation and f
  assume f: "finishSend f c = Inr c'"
  have "from_file env cd info m" if "c_machine c' = Some m" "\<forall>m. c_machine c = Some m \<longrightarrow> from_file env cd info m" for m
    using finishSend_step [OF f that(1)] programs.steps that(2) by blast
  then show "conv_wf c \<longrightarrow> unsignalled env cd info c \<longrightarrow> unsignalled env cd info c'"
    using finishSend_no_signal [OF f] from_file_no_end unfolding unsignalled_def by blast
next
  fix c :: Conversation
  show "conv_wf c \<longrightarrow> unsignalled env cd info c \<longrightarrow> unsignalled env cd info (c\<lparr>c_pc := CIdle\<rparr>)"
    by (simp add: unsignalled_def)
next
  fix c c' :: Conversation and h h'
  assume "Run_start env cd (mi_ConversationMachine info) c h = Inr (c', h')"
  with Run_start_started programs.starts show "conv_wf c \<longrightarrow> unsignalled env cd info c \<longrightarrow> unsignalled env cd info c'"
    by (fastforce simp: unsignalled_def)
next
  fix c0 c c' :: Conversation
  assume "c_machine c0 = c_machine c" "handled_frame c0 c'"
  moreover have "from_file env cd info m'" if "skeleton m' = skeleton m" "from_file env cd info m" for m m'
    using programs.steps [OF that(2)] that(1) by (simp add: machine_step_def)
  ultimately show "conv_wf c \<longrightarrow> unsignalled env cd info c \<longrightarrow> unsignalled env cd info c'"
    by (auto simp: handled_frame_def unsignalled_def)
qed (simp add: unsignalled_def newConversation_def)

subsection \<open>The bot comes to rest\<close>

definition bot_at_rest :: "sys \<Rightarrow> bool" where
  "bot_at_rest s = ((case s_mux s of MIdle \<Rightarrow> True | _ \<Rightarrow> False) \<and> s_ConversationBackendChan s = [] \<and>
     s_termChan s = 0 \<and> list_all (\<lambda>(cid, c). conv_rests c) (s_conversations s))"

text \<open>The signals of two conversations have met: see \<open>signal_locked\<close>.\<close>

definition signals_met :: "sys \<Rightarrow> bool" where
  "signals_met s \<longleftrightarrow> (\<exists>cid c. signal_locked cid (s_mux s) c (s_interrupts s) s)"

lemma quiet_waits:
  assumes "conv_waits s c" "quiet c" "s_backend s = None"
  shows "c_pc c = CSignal \<and> 0 < s_termChan s"
  using assms
  by (auto simp: conv_waits_def out_waits_def quiet_def
      split: conv_pc.split_asm list.split_asm sum.split_asm outmsg.split_asm dest: outputOf_transient)

lemma stuck_settled:
  assumes "stuck env cd info s" "s_panic s = None" "sys_wf s" "s_backend s = None"
    and q: "\<And>cid c. conv s cid = Some c \<Longrightarrow> quiet c"
  shows "bot_at_rest s \<or> signals_met s"
proof -
  from assms(1) have mux: "mux_waits s" and "list_all (\<lambda>(cid, c). conv_rests c \<or> conv_waits s c) (s_conversations s)"
    unfolding stuck_iff [OF assms(2,3)] by blast+
  then have cs: "conv_rests c \<or> c_pc c = CSignal \<and> 0 < s_termChan s" if "conv s cid = Some c" for cid c
    using quiet_waits [OF _ q [OF that] assms(4)] that conv_entries [OF assms(3)] by (auto simp: list_all_iff)
  have met: "signals_met s" if "conv s cid = Some c" "mux_for cid c (s_mux s)" "\<not> conv_rests c" for cid c
    using cs [OF that(1)] that by (auto simp: signals_met_def signal_locked_def)
  have some: "\<exists>c. conv s cid = Some c" if "cid \<in> set (map fst (s_conversations s))" for cid
    using that unfolding conv_def by (metis map_of_eq_None_iff not_None_eq set_map)
  show ?thesis
  proof (cases "s_mux s")
    case MIdle
    with mux have t: "s_termChan s = 0" "s_ConversationBackendChan s = []" by (auto simp: mux_waits_def)
    with cs conv_entries [OF assms(3)] have "list_all (\<lambda>(cid, c). conv_rests c) (s_conversations s)"
      by (fastforce simp: list_all_iff)
    with MIdle t show ?thesis by (simp add: bot_at_rest_def)
  next
    case (MStatus cid as)
    with assms(3) some obtain c where "conv s cid = Some c" by (fastforce simp: sys_wf_def mux_ok_def)
    with MStatus mux met show ?thesis by (auto simp: mux_waits_def takes_def conv_rests_def mux_for_def)
  next
    case (MQuestion cid q)
    with assms(3) some obtain c where "conv s cid = Some c" by (fastforce simp: sys_wf_def mux_ok_def)
    with MQuestion mux met show ?thesis by (auto simp: mux_waits_def takes_def conv_rests_def mux_for_def)
  next
    case (MForward cid d)
    with assms(3) some obtain c where "conv s cid = Some c" by (fastforce simp: sys_wf_def mux_ok_def)
    with MForward mux met show ?thesis by (auto simp: mux_waits_def takes_def conv_rests_def mux_for_def)
  qed (use assms(3,4) mux in \<open>auto simp: sys_wf_def mux_ok_def mux_waits_def\<close>)
qed

lemma settles:
  assumes files: "files_ok cd info" "NewMachine cd (mi_ConversationMachine info) = Inr m0" "no_transient m0"
    "\<not> MachineData_IsValid (mi_BackendMachine info)" and r: "reachable env cd info s"
  shows "inevitable (own_step env cd info)
    (\<lambda>s. s_panic s \<noteq> None \<or> bot_at_rest s \<or> signals_met s \<and> \<not> no_end m0) s"
proof (rule inevitable_wf [where I = "reachable env cd info" and r = "inv_image (less_than <*lex*> less_than <*lex*> less_than) left"])
  show "wf (inv_image (less_than <*lex*> less_than <*lex*> less_than) left)" by (intro wf_inv_image wf_lex_prod wf_less_than)
  show "reachable env cd info s" by (rule r)
next
  fix s
  assume s: "reachable env cd info s" "\<not> (s_panic s \<noteq> None \<or> bot_at_rest s \<or> signals_met s \<and> \<not> no_end m0)"
  note wf = reachable_wf [OF files(1) s(1)] and none = reachable_no_backend [OF s(1) files(4)]
  have q: "quiet c" if "conv s cid = Some c" for cid c
    using reachable_quiet [OF files s(1)] s(2) that by blast
  have "\<not> signals_met s" if "no_end m0"
    using unsignalling.reachable_convs [OF files(1) s(1)] files(2) that
    by (auto simp: signals_met_def signal_locked_def unsignalled_def)
  moreover have "stuck env cd info s \<Longrightarrow> bot_at_rest s \<or> signals_met s"
    using stuck_settled [OF _ _ wf none] q s(2) by blast
  ultimately have "\<not> stuck env cd info s" using s(2) by blast
  then show "\<exists>s'. own_step env cd info s s'" by (auto simp: stuck_def own_step_def)
next
  fix s s'
  assume s: "reachable env cd info s" "own_step env cd info s s'"
  then have "s_panic s = None" by (auto simp: own_step_def exec_def split: if_split_asm)
  then have "(left s', left s) \<in> less_than <*lex*> less_than <*lex*> less_than"
    using own_step_lowers [OF s(2) reachable_wf [OF files(1) s(1)] reachable_no_backend [OF s(1) files(4)]]
      reachable_quiet [OF files s(1)] by blast
  with s show "reachable env cd info s' \<and> (s', s) \<in> inv_image (less_than <*lex*> less_than <*lex*> less_than) left"
    by (auto simp: own_step_def intro: reachable.step)
qed

end
