(* ===== verification/Samples.thy ===== *)
theory Samples
  imports Chat_Settles
begin

text \<open>
  Concrete inputs at which the theorems are applied: an environment whose packages are the simplest
  functions of their types, a loader that returns a given machine, notifications and statuses of one
  connection, and a run of the email issuer up to the PIN.
\<close>

subsection \<open>An environment\<close>

definition env0 :: env where
  "env0 = \<lparr>getenv = (\<lambda>_. []), readFile = (\<lambda>_. None), luaDo = (\<lambda>_ _ _. ([], True)),
     execTemplate = (\<lambda>t _. Some t), sprintf = (\<lambda>f _. f),
     unmarshalEmail = (\<lambda>_. \<lparr>em_To = [], em_From = [], em_Subject = [], em_Body = []\<rparr>),
     unmarshalProofAttrs = (\<lambda>_. Some [\<lparr>pa_ID = [], pa_Name = ''email'', pa_CredDefID = emailCredDefID,
       pa_Predicate = [], pa_found = False\<rparr>]),
     randIntn = (\<lambda>_ _. 0)\<rparr>"

definition codec0 :: "Machine \<Rightarrow> codec" where
  "codec0 m = \<lparr>jsonMachine = (\<lambda>_. Some m), yamlMachine = (\<lambda>_. Some m)\<rparr>"

definition info0 :: MultiplexerInfo where
  "info0 = \<lparr>mi_ConversationMachine = \<lparr>md_FType = ''m.yaml'', md_Data = Some []\<rparr>,
     mi_BackendMachine = None\<rparr>"

definition heap0 :: bheap where
  "heap0 = \<lparr>cells = (\<lambda>_. BackendData_zero), next_cell = 0\<rparr>"

definition sys0 :: sys where
  "sys0 = \<lparr>s_conversations = [], s_backend = None, s_ConversationBackendChan = [], s_termChan = 0,
     s_interrupts = 0, s_mux = MIdle, s_heap = heap0, s_panic = None\<rparr>"

lemma mux_init0: "mux_init env (codec0 m) info0 heap0 = Inr sys0"
  by (simp add: mux_init_def info0_def sys0_def MachineData_IsValid_def)

lemma NewMachine0: "NewMachine (codec0 m) dat = Inr m"
  by (simp add: NewMachine_def codec0_def)

lemma runs0:
  "closed_machine m \<Longrightarrow> m_Type m = MachineTypeConversation \<Longrightarrow> runs env (codec0 m) info0 m"
  by (simp add: runs_def files_ok_def NewMachine0 info0_def)

lemma files_ok0: "runs env cd info m \<Longrightarrow> files_ok cd info"
  by (simp add: runs_def)

lemma reachable0: "reachable env (codec0 m) info0 sys0"
  by (rule reachable.init [OF mux_init0])

lemma execs_reachable:
  "reachable env cd info s \<Longrightarrow> execs env cd info ls s = Some s' \<Longrightarrow> reachable env cd info s'"
  by (induction ls arbitrary: s) (auto split: option.split_asm intro: reachable.step)

subsection \<open>Messages of a connection\<close>

definition notified :: "string \<Rightarrow> Protocol_Type \<Rightarrow> AgentStatus" where
  "notified pid ty = \<lparr>as_ClientID = ''bot'', as_Notification = \<lparr>n_TypeID = Notification_STATUS_UPDATE,
     n_ID = ''n1'', n_ConnectionID = ''conn'', n_ProtocolID = pid, n_Timestamp = 0, n_ProtocolType = ty,
     n_Role = 2\<rparr>\<rparr>"

definition protocolStatus :: "Protocol_Type \<Rightarrow> string option \<Rightarrow> ProtocolStatus" where
  "protocolStatus ty content = \<lparr>ps_State = Some \<lparr>st_ProtocolID = Some \<lparr>pid_TypeID = ty, pid_Role = 2,
     pid_ID = ''p1''\<rparr>, st_State = ProtocolState_OK\<rparr>, ps_BasicMessage = content\<rparr>"

definition said :: "string \<Rightarrow> ProtocolStatus" where
  "said text = protocolStatus Protocol_BASIC_MESSAGE (Some text)"

definition proofQuestion :: Question where
  "proofQuestion = \<lparr>q_Status = notified ''p1'' Protocol_PRESENT_PROOF, q_TypeID = Question_PROOF_VERIFY_WAITS,
     q_ProofVerify = Some [\<lparr>at_Value = ''a@b'', at_Name = ''email'', at_CredDefID = emailCredDefID\<rparr>]\<rparr>"

text \<open>The bot learns of a message, the conversation gets it and sends \<open>n\<close> events and steps.\<close>

definition message :: "string \<Rightarrow> nat \<Rightarrow> label list" where
  "message text n = [LStatus (notified ''in'' Protocol_BASIC_MESSAGE), LDeliver (Some (said text))] @
     replicate n (LConvSend ''conn'' (Some ''out''))"

definition greeting :: "label list" where
  "greeting = [LStatus (notified ''in'' Protocol_BASIC_MESSAGE), LConvStart ''conn'',
     LConvSend ''conn'' (Some ''out''), LConvSend ''conn'' (Some ''out'')]"

definition toPin :: "label list" where
  "toPin = greeting @ [LDeliver (Some (said ''hi''))] @ replicate 2 (LConvSend ''conn'' (Some ''out'')) @
     message ''a@b'' 3 @ [LStatus (notified ''in'' Protocol_BASIC_MESSAGE)]"

subsection \<open>A step in which a conversation starts to send\<close>

definition starts_sending :: "string \<Rightarrow> (Event \<Rightarrow> bool) \<Rightarrow> sys \<Rightarrow> sys option \<Rightarrow> bool" where
  "starts_sending cid P s r =
     (case r of None \<Rightarrow> False | Some s' \<Rightarrow>
       (case conv s cid of None \<Rightarrow> False | Some c \<Rightarrow>
         (case conv s' cid of None \<Rightarrow> False | Some c' \<Rightarrow>
           (case c_machine c of None \<Rightarrow> False | Some m \<Rightarrow>
             c_pc c = CIdle \<and>
             (case c_pc c' of CSending es st fo \<Rightarrow> list_ex P es | _ \<Rightarrow> False)))))"

lemma starts_sendingE:
  assumes "starts_sending cid P s r"
  obtains s' c m c' es st fo e where "r = Some s'" "conv s cid = Some c" "c_pc c = CIdle"
    "c_machine c = Some m" "conv s' cid = Some c'" "c_pc c' = CSending es st fo" "e \<in> set es" "P e"
  using assms that
  by (fastforce simp: starts_sending_def list_ex_iff split: option.split_asm conv_pc.split_asm)

text \<open>The step by \<open>l\<close> after the run \<open>ls\<close> of a bot with machine \<open>m\<close>.\<close>

definition run_sends :: "Machine \<Rightarrow> label list \<Rightarrow> label \<Rightarrow> (Event \<Rightarrow> bool) \<Rightarrow> bool" where
  "run_sends m ls l P =
     (case execs env0 (codec0 m) info0 ls sys0 of
        None \<Rightarrow> False
      | Some s \<Rightarrow> starts_sending ''conn'' P s (exec env0 (codec0 m) info0 l s))"

lemma run_sendsE:
  assumes "run_sends m ls l P"
  obtains s where "reachable env0 (codec0 m) info0 s"
    "starts_sending ''conn'' P s (exec env0 (codec0 m) info0 l s)"
proof -
  obtain s where s: "execs env0 (codec0 m) info0 ls sys0 = Some s"
      "starts_sending ''conn'' P s (exec env0 (codec0 m) info0 l s)"
    using assms by (auto simp: run_sends_def split: option.split_asm)
  from execs_reachable [OF reachable0 s(1)] s(2) show thesis
    by (rule that)
qed

lemma issuer_run:
  "run_sends EmailIssuerMachine toPin (LDeliver (Some (said ''100000'')))
     (\<lambda>e. e_ProtocolType e = Protocol_ISSUE_CREDENTIAL)"
  by code_simp

text \<open>The proof bot asks for the proof and gets the question.\<close>

definition toProof :: "label list" where
  "toProof = greeting @ [LDeliver (Some (said ''hi''))] @ replicate 2 (LConvSend ''conn'' (Some ''out'')) @
     [LQuestion proofQuestion]"

lemma proof_run:
  "run_sends ReqProofMachine toProof (LDeliver None)
     (\<lambda>e. e_ProtocolType e = QAProtocol \<and> e_Data e = ''ACK'')"
  by code_simp

subsection \<open>A bot with a backend machine\<close>

text \<open>The front machine answers every message with the same events, the back machine every backend
  message, and it ends after it when \<open>final\<close>.\<close>

definition frontMachine :: "Event list \<Rightarrow> Machine" where
  "frontMachine es = mkMachine ''front'' \<lparr>t_Trigger = None, t_Sends = [], t_Target = ''A''\<rparr>
     [(''A'', \<lparr>s_Transitions = [\<lparr>t_Trigger = Some (mkEvent ''basic_message'' [] [] []), t_Sends = es,
        t_Target = ''A''\<rparr>], s_Terminate = False\<rparr>)]"

definition backMachine :: "Event list \<Rightarrow> bool \<Rightarrow> Machine" where
  "backMachine es final = mkMachine ''back'' \<lparr>t_Trigger = None, t_Sends = [], t_Target = ''B''\<rparr>
     [(''B'', \<lparr>s_Transitions = [\<lparr>t_Trigger = Some (mkEvent ''backend'' [] [] []), t_Sends = es,
        t_Target = (if final then ''END'' else ''B'')\<rparr>], s_Terminate = False\<rparr>),
      (''END'', \<lparr>s_Transitions = [], s_Terminate = True\<rparr>)]"

definition codec2 :: "Machine \<Rightarrow> Machine \<Rightarrow> codec" where
  "codec2 front back = \<lparr>jsonMachine = (\<lambda>_. Some back), yamlMachine = (\<lambda>_. Some front)\<rparr>"

definition info2 :: MultiplexerInfo where
  "info2 = \<lparr>mi_ConversationMachine = \<lparr>md_FType = ''m.yaml'', md_Data = Some []\<rparr>,
     mi_BackendMachine = Some \<lparr>md_FType = ''b.json'', md_Data = Some []\<rparr>\<rparr>"

definition toBackend :: Event where
  "toBackend = mkEvent ''backend'' [] ''INPUT'' []"

definition toSelf :: Event where
  "toSelf = mkEvent ''transient'' [] ''TRANSIENT'' ''again''"

text \<open>The state after a run from the start of the bot.\<close>

definition after :: "codec \<Rightarrow> MultiplexerInfo \<Rightarrow> label list \<Rightarrow> sys option" where
  "after cd info ls = (case mux_init env0 cd info heap0 of Inl _ \<Rightarrow> None
     | Inr s \<Rightarrow> execs env0 cd info ls s)"

lemma after_reachable: "after cd info ls = Some s \<Longrightarrow> reachable env0 cd info s"
  by (auto simp: after_def split: sum.split_asm intro: execs_reachable reachable.init)

definition holds_after :: "codec \<Rightarrow> MultiplexerInfo \<Rightarrow> label list \<Rightarrow> (sys \<Rightarrow> bool) \<Rightarrow> bool" where
  "holds_after cd info ls P = (case after cd info ls of None \<Rightarrow> False | Some s \<Rightarrow> P s)"

lemma holds_afterE:
  assumes "holds_after cd info ls P"
  obtains s where "reachable env0 cd info s" "P s"
  using assms by (auto simp: holds_after_def split: option.split_asm intro: after_reachable)

definition greetFront :: "label list" where
  "greetFront = [LStatus (notified ''in'' Protocol_BASIC_MESSAGE), LConvStart ''conn'',
     LConvSend ''conn'' None, LDeliver (Some (said ''hi''))]"

lemma files_ok2: "files_ok (codec2 (frontMachine es) (backMachine es' b)) info2"
  by (simp add: files_ok_def NewMachine_def NewBackendMachine_def info2_def codec2_def filepath_Ext_def
      closed_machine_def frontMachine_def backMachine_def mkMachine_def)

text \<open>The backend machine is about to step into its terminating state.\<close>

definition ending :: "sys \<Rightarrow> bool" where
  "ending s = (case (s_panic s, s_mux s, s_backend s) of
     (None, MSending [] (Some t), Some b) \<Rightarrow>
       (case stateOf (b_machine b) (f_Target t) of None \<Rightarrow> False | Some st \<Rightarrow> s_Terminate st)
   | _ \<Rightarrow> False)"

lemma ending_run:
  "holds_after (codec2 (frontMachine [toBackend]) (backMachine [] True)) info2
     (LSend # greetFront @ [LConvSend ''conn'' None, LConvSend ''conn'' None, LBackend]) ending"
  by code_simp

text \<open>A conversation is about to send two steps to itself.\<close>

definition twice :: "sys \<Rightarrow> bool" where
  "twice s = (case (s_panic s, conv s ''conn'') of
     (None, Some c) \<Rightarrow> c_TransientChan c = [] \<and>
       (case c_pc c of
          CSending [e1, e2] status f \<Rightarrow>
            (case (outputOf status e1, outputOf status e2) of
               (Inr (OTransient _), Inr (OTransient _)) \<Rightarrow> True | _ \<Rightarrow> False)
        | _ \<Rightarrow> False)
   | _ \<Rightarrow> False)"

lemma twice_run:
  "holds_after (codec2 (frontMachine [toSelf, toSelf]) (backMachine [] True)) info2
     (LSend # greetFront) twice"
  by code_simp

text \<open>The bot in the cycle of \<open>cross_locked\<close>, as a test that computes.\<close>

definition crossed :: "sys \<Rightarrow> bool" where
  "crossed s = (case (s_mux s, s_backend s, conv s ''conn'') of
     (MBroadcast d [cid] es f, Some b, Some c) \<Rightarrow>
       cid = ''conn'' \<and> b_BackendChan b \<noteq> [] \<and> c_BackendChan c \<noteq> [] \<and>
       (case c_pc c of
          CSending (e # rest) status f \<Rightarrow>
            (case outputOf status e of Inr (OBackend p) \<Rightarrow> True | _ \<Rightarrow> False)
        | _ \<Rightarrow> False)
   | _ \<Rightarrow> False)"

lemma crossed_locked: "crossed s \<Longrightarrow> cross_locked ''conn'' s"
proof -
  assume a: "crossed s"
  then obtain d es f b c where 1: "s_mux s = MBroadcast d [''conn''] es f" "s_backend s = Some b"
      "conv s ''conn'' = Some c" "b_BackendChan b \<noteq> []" "c_BackendChan c \<noteq> []"
    by (auto simp: crossed_def split: mux_pc.split_asm list.split_asm option.split_asm)
  with a obtain e rest status f' out where 2: "c_pc c = CSending (e # rest) status f'"
      "outputOf status e = Inr out" "case out of OBackend p \<Rightarrow> True | _ \<Rightarrow> False"
    by (auto simp: crossed_def split: conv_pc.split_asm list.split_asm sum.split_asm)
  from 2(3) obtain p where "out = OBackend p" by (cases out) auto
  with 1 2 show ?thesis unfolding cross_locked_def by blast
qed

definition crossing :: "label list" where
  "crossing = LSend # take 3 greetFront @ [LDeliver (Some (protocolStatus Protocol_TRUST_PING None)),
     LOutside (BackendData_zero\<lparr>bd_ConnID := ''conn''\<rparr>), LForward, LForward,
     LStatus (notified ''in2'' Protocol_BASIC_MESSAGE), LDeliver (Some (said ''hi'')),
     LConvSend ''conn'' None, LBackend, LSend, LConvSend ''conn'' None]"

text \<open>In this cycle no goroutine can make a step.\<close>

definition halted :: "sys \<Rightarrow> bool" where
  "halted s = ((case s_panic s of None \<Rightarrow> True | Some _ \<Rightarrow> False) \<and> mux_waits s \<and>
     list_all (\<lambda>(cid, c). conv_rests c \<or> conv_waits s c) (s_conversations s))"

lemma crossed_run:
  "holds_after (codec2 (frontMachine [toBackend, toBackend, toBackend]) (backMachine [toBackend] False)) info2
     crossing (\<lambda>s. crossed s \<and> halted s)"
  by code_simp

text \<open>A machine that ends at the first message, and the conversation about to signal it.\<close>

definition endMachine :: Machine where
  "endMachine = mkMachine ''end'' \<lparr>t_Trigger = None, t_Sends = [], t_Target = ''A''\<rparr>
     [(''A'', \<lparr>s_Transitions = [\<lparr>t_Trigger = Some (mkEvent ''basic_message'' [] [] []), t_Sends = [],
        t_Target = ''END''\<rparr>], s_Terminate = False\<rparr>),
      (''END'', \<lparr>s_Transitions = [], s_Terminate = True\<rparr>)]"

lemma endMachine_files: "files_ok (codec0 endMachine) info0"
  by (rule files_ok0 [where env = env0 and m = endMachine], rule runs0)
    (simp_all add: endMachine_def mkMachine_def closed_machine_def)

definition signalling :: "sys \<Rightarrow> bool" where
  "signalling s = (case (s_panic s, s_mux s, conv s ''conn'') of
     (None, MIdle, Some c) \<Rightarrow> s_termChan s = 0 \<and> (case c_pc c of CSignal \<Rightarrow> True | _ \<Rightarrow> False)
   | _ \<Rightarrow> False)"

lemma signal_run:
  "holds_after (codec0 endMachine) info0 (greetFront @ [LConvSend ''conn'' None]) signalling"
  by code_simp

text \<open>A second connection, whose machine ends while the signal of the first is in the channel.\<close>

definition notified2 :: AgentStatus where
  "notified2 = (let n = notified ''in'' Protocol_BASIC_MESSAGE
     in n\<lparr>as_Notification := (as_Notification n)\<lparr>n_ConnectionID := ''conn2''\<rparr>\<rparr>)"

definition meeting :: "sys \<Rightarrow> bool" where
  "meeting s = (case (s_panic s, s_mux s, conv s ''conn2'') of
     (None, MIdle, Some c) \<Rightarrow> 0 < s_termChan s \<and> (case c_pc c of CSignal \<Rightarrow> True | _ \<Rightarrow> False)
   | _ \<Rightarrow> False)"

lemma meeting_run:
  "holds_after (codec0 endMachine) info0
     (greetFront @ [LConvSend ''conn'' None, LConvSend ''conn'' None, LStatus notified2, LConvStart ''conn2'',
        LConvSend ''conn2'' None, LDeliver (Some (said ''hi'')), LConvSend ''conn2'' None]) meeting"
  by code_simp

text \<open>A machine that takes the first message as its session id and then repeats the messages of the backend machine,
  with a message of that session in its channel.\<close>

definition roomMachine :: Machine where
  "roomMachine = mkMachine ''room'' \<lparr>t_Trigger = None, t_Sends = [], t_Target = ''A''\<rparr>
     [(''A'', \<lparr>s_Transitions = [
        \<lparr>t_Trigger = Some (mkEvent ''basic_message'' [] ''INPUT_SAVE_SESSION_ID'' []), t_Sends = [], t_Target = ''B''\<rparr>],
        s_Terminate = False\<rparr>),
      (''B'', \<lparr>s_Transitions = [
        \<lparr>t_Trigger = Some (mkEvent ''backend'' [] ''INPUT'' []),
         t_Sends = [mkEvent ''basic_message'' [] ''INPUT'' []], t_Target = ''B''\<rparr>], s_Terminate = False\<rparr>)]"

lemma room_files: "files_ok (codec0 roomMachine) info0"
  by (rule files_ok0 [where env = env0 and m = roomMachine], rule runs0)
    (simp_all add: roomMachine_def mkMachine_def closed_machine_def)

definition hears :: "sys \<Rightarrow> sys option \<Rightarrow> bool" where
  "hears s r = (case (r, conv s ''conn'') of
     (Some s', Some c) \<Rightarrow> (case (c_machine c, conv s' ''conn'') of
       (Some m, Some c') \<Rightarrow> m_Memory m LUA_SESSION_ID = Some ''s1'' \<and>
         (case c_pc c' of CSending es st fo \<Rightarrow> True | _ \<Rightarrow> False)
      | _ \<Rightarrow> False)
   | _ \<Rightarrow> False)"

lemma hears_run:
  "holds_after (codec0 roomMachine) info0
     (take 3 greetFront @ [LDeliver (Some (said ''s1'')), LConvSend ''conn'' None,
        LOutside (BackendData_zero\<lparr>bd_ConnID := ''conn'', bd_SessionID := ''s1'', bd_Content := ''hi''\<rparr>), LForward, LForward])
     (\<lambda>s. hears s (exec env0 (codec0 roomMachine) info0 (LConvBackend ''conn'') s))"
  by code_simp

text \<open>The issuer that waits for the status of the credential.\<close>

definition issuer :: Machine where
  "issuer = (case Initialize env0 EmailIssuerMachine of Inr (Inr m) \<Rightarrow> m | _ \<Rightarrow> EmailIssuerMachine)"

lemma issuer_init: "Initialize env0 EmailIssuerMachine = Inr (Inr issuer)"
  using Initialize_plain [of EmailIssuerMachine env0] EmailIssuer_plain by (auto simp: issuer_def)

lemma issuer_wf: "wf_machine issuer"
  using Initialize_wf [OF _ issuer_init] EmailIssuer_plain by blast

lemma issuer_lua_free: "lua_free issuer"
  by code_simp

end
