(* ===== verification/Tools_Sleeper.thy ===== *)
theory Tools_Sleeper
  imports Main "HOL-Library.Word"
begin

text \<open>
  The back-off of the listeners (\<open>tools/sleeper/sleeper.go\<close>). A \<open>time.Duration\<close> is a signed 64-bit
  number of nanoseconds, here a \<open>64 word\<close> read by \<open>sint\<close>; \<open>math.Pow(2, round)\<close> is exact for the
  rounds that occur, which are at most twelve.
\<close>

type_synonym Duration = "64 word"

definition Second :: Duration where
  "Second = 1000000000"

definition sleeper_floor :: Duration where
  "sleeper_floor = 10 * Second"

definition sleeper_maxCount :: nat where
  "sleeper_maxCount = 12"

record Sleeper =
  sl_count :: nat
  sl_floor :: Duration
  sl_maxCount :: nat

definition NewSleeper :: "Duration \<Rightarrow> Sleeper" where
  "NewSleeper f = \<lparr>sl_count = 0, sl_floor = (if f = 0 then sleeper_floor else f), sl_maxCount = sleeper_maxCount\<rparr>"

text \<open>The duration that the given function is called with, and the sleeper after it.\<close>

definition Sleep :: "Sleeper \<Rightarrow> Duration \<times> Sleeper" where
  "Sleep s =
     (let s1 = (if sl_count s < sl_maxCount s then s\<lparr>sl_count := Suc (sl_count s)\<rparr> else s);
          v = 2 ^ sl_count s1
      in (sl_floor s1 + v * Second, s1))"

text \<open>The sleeper and the durations of a number of calls.\<close>

fun sleeps :: "nat \<Rightarrow> Sleeper \<Rightarrow> Duration list \<times> Sleeper" where
  "sleeps 0 s = ([], s)"
| "sleeps (Suc n) s = (let (d, s1) = Sleep s; (ds, s2) = sleeps n s1 in (d # ds, s2))"

definition sleeper_ok :: "Sleeper \<Rightarrow> bool" where
  "sleeper_ok s \<longleftrightarrow> sl_maxCount s = 12 \<and> sl_count s \<le> 12 \<and> 0 \<le> sint (sl_floor s) \<and>
     sint (sl_floor s) \<le> 2 ^ 63 - 1 - 4096 * 1000000000"

lemma NewSleeper_ok:
  assumes "0 \<le> sint f" "sint f \<le> 2 ^ 63 - 1 - 4096 * 1000000000"
  shows "sleeper_ok (NewSleeper f)"
  using assms by (simp add: sleeper_ok_def NewSleeper_def sleeper_maxCount_def sleeper_floor_def Second_def)

lemma sint_add_small:
  fixes a b :: "64 word"
  assumes "0 \<le> sint a" "0 \<le> sint b" "sint a + sint b < 2 ^ 63"
  shows "sint (a + b) = sint a + sint b"
proof -
  have "signed_take_bit 63 (sint a + sint b) = sint a + sint b"
    by (rule signed_take_bit_int_eq_self) (use assms in simp_all)
  then show ?thesis by (simp add: sint_word_ariths(1) signed_take_bit_eq_take_bit_minus)
qed

lemma sint_backoff:
  assumes "n \<le> 12"
  shows "sint (2 ^ n * Second :: 64 word) = 2 ^ n * 1000000000"
proof -
  have e: "(2 ^ n * Second :: 64 word) = word_of_int (2 ^ n * 1000000000)" by (simp add: Second_def)
  have "(2::int) ^ n \<le> 2 ^ 12" using assms by (rule power_increasing) simp
  then have "(2::int) ^ n \<le> 4096" by simp
  moreover have "(0::int) \<le> 2 ^ n" by simp
  moreover have "(2::int) ^ 63 = 9223372036854775808" by simp
  ultimately have "signed_take_bit 63 (2 ^ n * 1000000000 :: int) = 2 ^ n * 1000000000"
    by (intro signed_take_bit_int_eq_self) linarith+
  then show ?thesis unfolding e by (simp add: sint_sbintrunc' del: of_int_mult of_int_power)
qed

text \<open>The \<open>n\<close>-th wait from a fresh sleeper is the floor and a power of two seconds that stops growing
  at the twelfth; the sum never leaves the range of a duration.\<close>

lemma Sleep_spec:
  assumes "sleeper_ok s" "Sleep s = (d, s')"
  shows "sleeper_ok s' \<and> sl_floor s' = sl_floor s \<and> sl_count s' = min 12 (Suc (sl_count s)) \<and>
    sint d = sint (sl_floor s) + 2 ^ sl_count s' * 1000000000"
proof -
  let ?n = "min 12 (Suc (sl_count s))"
  from assms have s': "s' = s\<lparr>sl_count := ?n\<rparr>" "d = sl_floor s + 2 ^ ?n * Second"
    by (cases "sl_count s < 12"; auto simp: Sleep_def sleeper_ok_def Let_def min_absorb2)+
  have n: "?n \<le> 12" by simp
  then have "(2::int) ^ ?n \<le> 2 ^ 12" by (rule power_increasing) simp
  then have le: "2 ^ ?n * 1000000000 \<le> (4096 * 1000000000 :: int)" by simp
  have p: "(0::int) \<le> 2 ^ ?n * 1000000000" by simp
  have f: "0 \<le> sint (sl_floor s)" "sint (sl_floor s) \<le> 2 ^ 63 - 1 - 4096 * 1000000000"
    using assms(1) by (simp_all add: sleeper_ok_def)
  have "sint d = sint (sl_floor s) + sint (2 ^ ?n * Second :: 64 word)"
    unfolding s'(2) by (rule sint_add_small) (use f le p sint_backoff [OF n] in linarith)+
  then have "sint d = sint (sl_floor s) + 2 ^ ?n * 1000000000" by (simp only: sint_backoff [OF n])
  with s'(1) assms(1) show ?thesis unfolding sleeper_ok_def s'(1) by (simp del: min_Suc_Suc)
qed

lemma sleeps_spec:
  assumes "sleeper_ok s" "sleeps n s = (ds, s')"
  shows "sleeper_ok s' \<and> length ds = n \<and> sl_floor s' = sl_floor s \<and> sl_count s' = min 12 (sl_count s + n) \<and>
    (\<forall>i < n. sint (ds ! i) = sint (sl_floor s) + 2 ^ min 12 (sl_count s + Suc i) * 1000000000)"
  using assms
proof (induction n arbitrary: s ds)
  case 0
  then show ?case by (auto simp: sleeper_ok_def)
next
  case (Suc n)
  obtain d s1 where d: "Sleep s = (d, s1)" by fastforce
  obtain ds1 where ds: "sleeps n s1 = (ds1, s')" "ds = d # ds1"
    using Suc.prems(2) d by (cases "sleeps n s1") auto
  note a = Sleep_spec [OF Suc.prems(1) d]
  with Suc.IH [OF _ ds(1)] have b: "sleeper_ok s'" "length ds1 = n" "sl_floor s' = sl_floor s"
    "sl_count s' = min 12 (min 12 (Suc (sl_count s)) + n)"
    "\<forall>i < n. sint (ds1 ! i) = sint (sl_floor s) + 2 ^ min 12 (min 12 (Suc (sl_count s)) + Suc i) * 1000000000"
    by simp_all
  have m: "min 12 (min 12 (Suc k) + j) = min 12 (k + Suc j)" for k j :: nat by simp
  show ?case
    using a b unfolding ds(2) by (auto simp: m nth_Cons' less_Suc_eq_0_disj)
qed

end
