(* ===== verification/Client_Stream.thy ===== *)
theory Client_Stream
  imports Fsm_Types Tools_Sleeper
begin

text \<open>
  How a client listens to the agency (\<open>agency/client/client.go\<close>). A goroutine per gRPC stream, the
  transport, receives the messages of the stream, drops keep-alives and hands the others over an
  unbuffered channel. A plain listener gives that channel to the user; a retrying listener has a
  second goroutine that reads it, forwards to the user's channel, and opens a new stream after an error.

  The goroutines are program counters; a label is one step of one of them, or a rendezvous of two on
  an unbuffered channel. What the stream returns, whether a call succeeds and when the context is
  cancelled is the environment's choice, so every interleaving is a list of labels.
\<close>

subsection \<open>The transport\<close>

datatype 'm recv = Msg 'm | EOF | RecvErr string

text \<open>At \<open>stream.Recv\<close>, at a send to the channel, at a send to the error channel, or returned: with
  the channel closed or not.\<close>

datatype 'm tpc = TRecv | TSend 'm | TErr string | TDone bool

text \<open>One turn of the loop, with the deferred handler of errors. \<open>errCh\<close>: there is an error channel.\<close>

definition transport :: "('m \<Rightarrow> bool) \<Rightarrow> bool \<Rightarrow> 'm recv \<Rightarrow> 'm tpc" where
  "transport keepalive errCh r =
     (case r of
        RecvErr e \<Rightarrow> if errCh then TErr e else TDone True
      | EOF \<Rightarrow> TDone True
      | Msg m \<Rightarrow> if keepalive m then TRecv else TSend m)"

definition status_keepalive :: "AgentStatus \<Rightarrow> bool" where
  "status_keepalive s \<longleftrightarrow> n_TypeID (as_Notification s) = Notification_KEEPALIVE"

definition question_keepalive :: "Question \<Rightarrow> bool" where
  "question_keepalive q \<longleftrightarrow> q_TypeID q = Question_KEEPALIVE"

definition transportStatus :: "bool \<Rightarrow> AgentStatus recv \<Rightarrow> AgentStatus tpc" where
  "transportStatus = transport status_keepalive"

definition transportWait :: "bool \<Rightarrow> Question recv \<Rightarrow> Question tpc" where
  "transportWait = transport question_keepalive"

text \<open>The messages a program counter holds.\<close>

definition in_transport :: "'m tpc \<Rightarrow> 'm list" where
  "in_transport t = (case t of TSend m \<Rightarrow> [m] | _ \<Rightarrow> [])"

lemma in_transport_simps [simp]:
  "in_transport TRecv = []" "in_transport (TSend m) = [m]" "in_transport (TErr e) = []" "in_transport (TDone b) = []"
  by (simp_all add: in_transport_def)

subsection \<open>A plain listener\<close>

text \<open>
  The transport and the user (\<open>ListenStatus\<close>, \<open>Wait\<close>, \<open>doRun\<close>, \<open>PSMHook\<close>). \<open>pi_received\<close> and \<open>pi_out\<close> record what the
  stream returned and what the user read.
\<close>

record 'm pipe =
  pi_transport :: "'m tpc"
  pi_received :: "'m recv list"
  pi_out :: "'m list"

definition new_pipe :: "'m pipe" where
  "new_pipe = \<lparr>pi_transport = TRecv, pi_received = [], pi_out = []\<rparr>"

datatype 'm plabel = PRecv "'m recv" | PTake

definition pipe_exec :: "('m recv \<Rightarrow> 'm tpc) \<Rightarrow> 'm plabel \<Rightarrow> 'm pipe \<Rightarrow> 'm pipe option" where
  "pipe_exec recv l p =
     (case (l, pi_transport p) of
        (PRecv r, TRecv) \<Rightarrow> Some (p\<lparr>pi_transport := recv r, pi_received := pi_received p @ [r]\<rparr>)
      | (PTake, TSend m) \<Rightarrow> Some (p\<lparr>pi_transport := TRecv, pi_out := pi_out p @ [m]\<rparr>)
      | _ \<Rightarrow> None)"

definition ListenStatus :: "AgentStatus plabel \<Rightarrow> AgentStatus pipe \<Rightarrow> AgentStatus pipe option" where
  "ListenStatus = pipe_exec (transportStatus False)"

definition Wait :: "Question plabel \<Rightarrow> Question pipe \<Rightarrow> Question pipe option" where
  "Wait = pipe_exec (transportWait False)"

text \<open>The states of a protocol that was started, and the agency's own hook: nothing is filtered.\<close>

definition doRun :: "ProtocolState plabel \<Rightarrow> ProtocolState pipe \<Rightarrow> ProtocolState pipe option" where
  "doRun = pipe_exec (transport (\<lambda>_. False) False)"

definition PSMHook :: "'h plabel \<Rightarrow> 'h pipe \<Rightarrow> 'h pipe option" where
  "PSMHook = pipe_exec (transport (\<lambda>_. False) False)"

subsection \<open>A retrying listener\<close>

text \<open>At the call that opens the stream, at the sleep before the next one, at the select, at a send to
  the user's channel, or returned after closing that channel.\<close>

datatype 'm rpc = RConnect | RSleep | RSelect | RForward 'm | RClosed

record 'm listener =
  l_retry :: "'m rpc"
  l_transport :: "'m tpc"
  l_cancelled :: bool
  l_sleeper :: Sleeper
  l_slept :: "Duration list"
  l_received :: "'m list"
  l_out :: "'m list"

definition sleeperFloor :: Duration where
  "sleeperFloor = 10 * Second"

definition new_listener :: "'m listener" where
  "new_listener = \<lparr>l_retry = RConnect, l_transport = TDone False, l_cancelled = False,
     l_sleeper = NewSleeper sleeperFloor, l_slept = [], l_received = [], l_out = []\<rparr>"

text \<open>
  \<open>LConnect\<close> is the call with its error, \<open>LRecv\<close> a message of the stream, \<open>LHand\<close> the select on the channel of the
  transport, closed or not, \<open>LErr\<close> the one on the error channel, \<open>LDone\<close> the one on the context, and \<open>LTake\<close> the user
  who reads. After the context was cancelled a select may still pick another ready channel.
\<close>

datatype 'm llabel = LConnect "string option" | LSleep | LRecv "'m recv" | LHand | LErr | LDone | LCancel | LTake

definition connect :: "string option \<Rightarrow> 'm listener \<Rightarrow> 'm listener" where
  "connect err l = (case err of
     Some e \<Rightarrow> l\<lparr>l_retry := RSleep\<rparr>
   | None \<Rightarrow> l\<lparr>l_retry := RSelect, l_transport := TRecv\<rparr>)"

definition WaitErr :: "string option \<Rightarrow> Question listener \<Rightarrow> Question listener" where
  "WaitErr = connect"

definition backoff :: "'m listener \<Rightarrow> 'm listener" where
  "backoff l = (let (d, s) = Sleep (l_sleeper l) in
     l\<lparr>l_retry := RConnect, l_sleeper := s, l_slept := l_slept l @ [d]\<rparr>)"

definition received :: "'m recv \<Rightarrow> 'm list" where
  "received r = (case r of Msg m \<Rightarrow> [m] | _ \<Rightarrow> [])"

definition listen_exec :: "('m recv \<Rightarrow> 'm tpc) \<Rightarrow> 'm llabel \<Rightarrow> 'm listener \<Rightarrow> 'm listener option" where
  "listen_exec recv lb l =
     (case lb of
        LConnect err \<Rightarrow> (case l_retry l of RConnect \<Rightarrow> Some (connect err l) | _ \<Rightarrow> None)
      | LSleep \<Rightarrow> (case l_retry l of RSleep \<Rightarrow> Some (backoff l) | _ \<Rightarrow> None)
      | LRecv r \<Rightarrow> (case l_transport l of
            TRecv \<Rightarrow> Some (l\<lparr>l_transport := recv r, l_received := l_received l @ received r\<rparr>)
          | _ \<Rightarrow> None)
      | LHand \<Rightarrow> (case (l_retry l, l_transport l) of
            (RSelect, TSend m) \<Rightarrow> Some (l\<lparr>l_retry := RForward m, l_transport := TRecv\<rparr>)
          | (RSelect, TDone True) \<Rightarrow> Some (l\<lparr>l_retry := RClosed\<rparr>)
          | _ \<Rightarrow> None)
      | LErr \<Rightarrow> (case (l_retry l, l_transport l) of
            (RSelect, TErr e) \<Rightarrow> Some (l\<lparr>l_retry := RSleep, l_transport := TDone False\<rparr>)
          | _ \<Rightarrow> None)
      | LDone \<Rightarrow> (case l_retry l of
            RSelect \<Rightarrow> if l_cancelled l then Some (l\<lparr>l_retry := RClosed\<rparr>) else None
          | _ \<Rightarrow> None)
      | LCancel \<Rightarrow> Some (l\<lparr>l_cancelled := True\<rparr>)
      | LTake \<Rightarrow> (case l_retry l of
            RForward m \<Rightarrow> Some (l\<lparr>l_retry := RSelect, l_out := l_out l @ [m]\<rparr>)
          | _ \<Rightarrow> None))"

definition ListenStatusAndRetry :: "AgentStatus llabel \<Rightarrow> AgentStatus listener \<Rightarrow> AgentStatus listener option" where
  "ListenStatusAndRetry = listen_exec (transportStatus True)"

definition WaitAndRetry :: "Question llabel \<Rightarrow> Question listener \<Rightarrow> Question listener option" where
  "WaitAndRetry = listen_exec (transportWait True)"

subsection \<open>Both kinds on one channel\<close>

text \<open>
  \<open>ListenAndRetry\<close>: the two retrying listeners and the goroutine that merges their channels. The merge is
  at its select with the count of closed channels it saw, at a send, or returned, with its own
  channel closed. A status goes out wrapped in a question.
\<close>

definition wrap :: "AgentStatus \<Rightarrow> Question" where
  "wrap s = \<lparr>q_Status = s, q_TypeID = 0, q_ProofVerify = None\<rparr>"

datatype mpc = MSelect nat | MForward nat "AgentStatus + Question" | MReturned

record general =
  g_status :: "AgentStatus listener"
  g_question :: "Question listener"
  g_merge :: mpc
  g_out :: "(AgentStatus + Question) list"

definition new_general :: general where
  "new_general = \<lparr>g_status = new_listener, g_question = new_listener, g_merge = MSelect 0, g_out = []\<rparr>"

text \<open>What the user reads from the channel.\<close>

definition delivered :: "general \<Rightarrow> Question list" where
  "delivered g = map (case_sum wrap id) (g_out g)"

text \<open>The select found a closed channel.\<close>

definition saw_closed :: "nat \<Rightarrow> mpc" where
  "saw_closed exitCount = (if exitCount = 1 then MReturned else MSelect (Suc exitCount))"

datatype glabel =
    GStatus "AgentStatus llabel"
  | GQuestion "Question llabel"
  | GMergeStatus
  | GMergeQuestion
  | GTake

definition merge_exec :: "glabel \<Rightarrow> general \<Rightarrow> general option" where
  "merge_exec lb g =
     (case (lb, g_merge g) of
        (GMergeStatus, MSelect n) \<Rightarrow>
          (case l_retry (g_status g) of
             RForward m \<Rightarrow> map_option (\<lambda>l. g\<lparr>g_status := l, g_merge := MForward n (Inl m)\<rparr>)
               (ListenStatusAndRetry LTake (g_status g))
           | RClosed \<Rightarrow> Some (g\<lparr>g_merge := saw_closed n\<rparr>)
           | _ \<Rightarrow> None)
      | (GMergeQuestion, MSelect n) \<Rightarrow>
          (case l_retry (g_question g) of
             RForward m \<Rightarrow> map_option (\<lambda>l. g\<lparr>g_question := l, g_merge := MForward n (Inr m)\<rparr>)
               (WaitAndRetry LTake (g_question g))
           | RClosed \<Rightarrow> Some (g\<lparr>g_merge := saw_closed n\<rparr>)
           | _ \<Rightarrow> None)
      | (GTake, MForward n q) \<Rightarrow> Some (g\<lparr>g_merge := MSelect n, g_out := g_out g @ [q]\<rparr>)
      | _ \<Rightarrow> None)"

text \<open>A step of a listener by itself; only the merge reads its channel.\<close>

definition ListenAndRetry :: "glabel \<Rightarrow> general \<Rightarrow> general option" where
  "ListenAndRetry lb g =
     (case lb of
        GStatus sl \<Rightarrow> if sl = LTake then None
          else map_option (\<lambda>l. g\<lparr>g_status := l\<rparr>) (ListenStatusAndRetry sl (g_status g))
      | GQuestion ql \<Rightarrow> if ql = LTake then None
          else map_option (\<lambda>l. g\<lparr>g_question := l\<rparr>) (WaitAndRetry ql (g_question g))
      | _ \<Rightarrow> merge_exec lb g)"

subsection \<open>Runs\<close>

fun runs_of :: "('l \<Rightarrow> 's \<Rightarrow> 's option) \<Rightarrow> 'l list \<Rightarrow> 's \<Rightarrow> 's option" where
  "runs_of ex [] s = Some s"
| "runs_of ex (l # ls) s = (case ex l s of None \<Rightarrow> None | Some s' \<Rightarrow> runs_of ex ls s')"

lemma runs_of_append: "runs_of ex (ks @ ls) s = (case runs_of ex ks s of None \<Rightarrow> None | Some s' \<Rightarrow> runs_of ex ls s')"
  by (induction ks arbitrary: s) (simp_all split: option.split)

text \<open>What every step keeps, every run keeps.\<close>

lemma runs_of_invariant:
  assumes "\<And>l s s'. I s \<Longrightarrow> ex l s = Some s' \<Longrightarrow> I s'" "I s" "runs_of ex ls s = Some s'"
  shows "I s'"
  using assms(2,3) by (induction ls arbitrary: s) (auto split: option.split_asm dest: assms(1))

end
