(* ===== verification/Client_Listen.thy ===== *)
theory Client_Listen
  imports Client_Stream
begin

text \<open>
  What a listener delivers. The invariant of the retrying listener and its consequences are proved in a
  locale over what the transport does with a received message, and interpreted for the transports of
  statuses and of questions; the merged listener's invariant is put together from the two.
\<close>

subsection \<open>The invariant\<close>

definition in_retry :: "'m rpc \<Rightarrow> 'm list" where
  "in_retry r = (case r of RForward m \<Rightarrow> [m] | _ \<Rightarrow> [])"

lemma in_retry_simps [simp]:
  "in_retry RConnect = []" "in_retry RSleep = []" "in_retry RSelect = []" "in_retry (RForward m) = [m]"
  "in_retry RClosed = []"
  by (simp_all add: in_retry_def)

text \<open>
  What was received, less the keep-alives, is what the user read followed by what the two goroutines
  hold. There is a live transport unless the listener is about to connect, the listener closes its
  channel only after the stream's end or the cancellation, and its waits are those of the sleeper.
\<close>

definition listener_ok :: "('m \<Rightarrow> bool) \<Rightarrow> 'm listener \<Rightarrow> bool" where
  "listener_ok keepalive l \<longleftrightarrow>
     l_out l @ in_retry (l_retry l) @ in_transport (l_transport l) = filter (\<lambda>m. \<not> keepalive m) (l_received l) \<and>
     (l_transport l = TDone False \<longleftrightarrow> l_retry l = RConnect \<or> l_retry l = RSleep) \<and>
     (l_retry l = RClosed \<longrightarrow> l_cancelled l \<or> l_transport l = TDone True) \<and>
     sleeps (length (l_slept l)) (NewSleeper sleeperFloor) = (l_slept l, l_sleeper l)"

text \<open>The steps of the listener itself and of its user; the others are the environment's.\<close>

definition internal :: "'m llabel list" where
  "internal = [LSleep, LHand, LErr, LTake]"

text \<open>How many of them can follow each other.\<close>

definition work :: "'m listener \<Rightarrow> nat" where
  "work l =
     (case l_retry l of RSelect \<Rightarrow> 1 | RForward _ \<Rightarrow> 2 | RSleep \<Rightarrow> 2 | _ \<Rightarrow> 0) +
     (case l_transport l of TSend _ \<Rightarrow> 2 | TErr _ \<Rightarrow> 2 | _ \<Rightarrow> 0)"

lemma work_le: "work l \<le> 4"
  by (simp add: work_def split: rpc.split tpc.split)

lemma sleeps_Suc: "sleeps (Suc n) s = (let (ds, s1) = sleeps n s; (d, s2) = Sleep s1 in (ds @ [d], s2))"
  by (induction n arbitrary: s) (simp_all add: split_beta Let_def)

locale listening =
  fixes recv :: "'m recv \<Rightarrow> 'm tpc"
    and keepalive :: "'m \<Rightarrow> bool"
  assumes recv_msg: "recv (Msg m) = (if keepalive m then TRecv else TSend m)"
    and recv_end: "recv EOF = TDone True"
    and recv_err: "recv (RecvErr e) = TErr e"
begin

lemma new_ok: "listener_ok keepalive new_listener"
  by (simp add: listener_ok_def new_listener_def)

lemma backoff_ok:
  assumes "listener_ok keepalive l" "l_retry l = RSleep"
  shows "listener_ok keepalive (backoff l)"
  using assms sleeps_Suc [of "length (l_slept l)" "NewSleeper sleeperFloor"]
  by (cases "Sleep (l_sleeper l)") (auto simp add: listener_ok_def backoff_def simp del: sleeps.simps)

lemma recv_ok:
  assumes "listener_ok keepalive l" "l_transport l = TRecv"
  shows "listener_ok keepalive (l\<lparr>l_transport := recv r, l_received := l_received l @ received r\<rparr>)"
  using assms by (cases r) (auto simp: listener_ok_def received_def recv_msg recv_end recv_err)

lemma exec_ok:
  assumes "listener_ok keepalive l" "listen_exec recv lb l = Some l'"
  shows "listener_ok keepalive l'"
proof (cases lb)
  case (LConnect err)
  with assms show ?thesis
    by (auto simp: listen_exec_def listener_ok_def connect_def split: rpc.split_asm option.split_asm)
next
  case LSleep
  with assms backoff_ok [OF assms(1)] show ?thesis by (auto simp: listen_exec_def split: rpc.split_asm)
next
  case (LRecv r)
  with assms recv_ok [OF assms(1)] show ?thesis by (auto simp: listen_exec_def split: tpc.split_asm)
next
  case LHand
  with assms show ?thesis
    by (auto simp: listen_exec_def listener_ok_def split: rpc.split_asm tpc.split_asm bool.split_asm)
next
  case LErr
  with assms show ?thesis
    by (auto simp: listen_exec_def listener_ok_def split: rpc.split_asm tpc.split_asm bool.split_asm)
next
  case LDone
  with assms show ?thesis by (auto simp: listen_exec_def listener_ok_def split: rpc.split_asm if_splits)
next
  case LCancel
  with assms show ?thesis by (auto simp: listen_exec_def listener_ok_def)
next
  case LTake
  with assms show ?thesis by (auto simp: listen_exec_def listener_ok_def split: rpc.split_asm)
qed

lemma run_ok: "runs_of (listen_exec recv) ls new_listener = Some l \<Longrightarrow> listener_ok keepalive l"
  by (rule runs_of_invariant [where I = "listener_ok keepalive", OF exec_ok new_ok])

text \<open>At rest everything has been delivered, and only the agency can move the listener on.\<close>

lemma at_rest:
  assumes "listener_ok keepalive l" "\<forall>lb \<in> set internal. listen_exec recv lb l = None" "l_retry l \<noteq> RClosed"
  shows "l_out l = filter (\<lambda>m. \<not> keepalive m) (l_received l) \<and> (l_retry l = RConnect \<or> l_transport l = TRecv)"
  using assms
  by (cases "l_retry l"; cases "l_transport l")
    (auto simp: listener_ok_def internal_def listen_exec_def split: bool.split_asm)

lemma closed_complete:
  assumes "listener_ok keepalive l" "l_retry l = RClosed" "\<not> l_cancelled l"
  shows "l_out l = filter (\<lambda>m. \<not> keepalive m) (l_received l)"
  using assms by (auto simp: listener_ok_def)

lemma internal_work:
  assumes "lb \<in> set internal" "listen_exec recv lb l = Some l'"
  shows "work l' < work l"
  using assms
  by (cases "l_retry l"; cases "l_transport l"; cases "Sleep (l_sleeper l)")
    (auto simp: internal_def listen_exec_def work_def backoff_def split: bool.split_asm)

lemma internal_runs:
  assumes "runs_of (listen_exec recv) ls l = Some l'" "set ls \<subseteq> set internal"
  shows "length ls + work l' \<le> work l"
  using assms
proof (induction ls arbitrary: l)
  case (Cons lb ls)
  then obtain l1 where l1: "listen_exec recv lb l = Some l1" "runs_of (listen_exec recv) ls l1 = Some l'"
    by (auto split: option.split_asm)
  from internal_work [OF _ l1(1)] Cons.IH [OF l1(2)] Cons.prems(2) show ?case by simp
qed simp

text \<open>From every state the listener comes to rest.\<close>

lemma comes_to_rest:
  "\<exists>ls l'. set ls \<subseteq> set internal \<and> runs_of (listen_exec recv) ls l = Some l' \<and>
     (\<forall>lb \<in> set internal. listen_exec recv lb l' = None)"
proof (induction "work l" arbitrary: l rule: less_induct)
  case less
  show ?case
  proof (cases "\<forall>lb \<in> set internal. listen_exec recv lb l = None")
    case True
    then show ?thesis by (intro exI [of _ "[]"] exI [of _ l]) simp
  next
    case False
    then obtain lb l1 where l1: "lb \<in> set internal" "listen_exec recv lb l = Some l1" by auto
    from less [OF internal_work [OF l1]] obtain ls l' where
      "set ls \<subseteq> set internal" "runs_of (listen_exec recv) ls l1 = Some l'"
      "\<forall>lb \<in> set internal. listen_exec recv lb l' = None" by blast
    with l1 show ?thesis by (intro exI [of _ "lb # ls"] exI [of _ l']) simp
  qed
qed

text \<open>A listener that has closed its channel never opens it again and forwards nothing.\<close>

lemma closed_stays:
  assumes "l_retry l = RClosed" "listen_exec recv lb l = Some l'"
  shows "l_retry l' = RClosed \<and> l_out l' = l_out l"
  using assms by (cases lb) (auto simp: listen_exec_def split: tpc.split_asm)

lemma exec_out:
  assumes "listen_exec recv lb l = Some l'" "lb \<noteq> LTake"
  shows "l_out l' = l_out l"
  using assms
  by (cases lb; cases "Sleep (l_sleeper l)")
    (auto simp: listen_exec_def connect_def backoff_def split: rpc.split_asm tpc.split_asm bool.split_asm
      option.split_asm if_splits)

end

interpretation statuses: listening "transportStatus True" status_keepalive
  by unfold_locales (simp_all add: transportStatus_def transport_def)

interpretation questions: listening "transportWait True" question_keepalive
  by unfold_locales (simp_all add: transportWait_def transport_def)

lemma ListenStatusAndRetry_exec: "ListenStatusAndRetry = listen_exec (transportStatus True)"
  by (simp add: ListenStatusAndRetry_def)

end
