(* ===== verification/Client_General.thy ===== *)
theory Client_General
  imports Client_Listen
begin

text \<open>
  The merged listener \<open>ListenAndRetry\<close>: of each kind the user reads, in their order and once, messages that
  the agency sent; what the merge does when one of its channels is closed; the waits between
  connections; and the plain listeners.
\<close>

subsection \<open>Statuses and questions of the merged channel\<close>

definition lefts :: "('a + 'b) list \<Rightarrow> 'a list" where
  "lefts xs = concat (map (case_sum (\<lambda>x. [x]) (\<lambda>_. [])) xs)"

definition rights :: "('a + 'b) list \<Rightarrow> 'b list" where
  "rights xs = concat (map (case_sum (\<lambda>_. []) (\<lambda>x. [x])) xs)"

lemma lefts_simps [simp]:
  "lefts [] = []" "lefts (Inl x # xs) = x # lefts xs" "lefts (Inr y # xs) = lefts xs"
  "lefts (xs @ ys) = lefts xs @ lefts ys"
  by (simp_all add: lefts_def)

lemma rights_simps [simp]:
  "rights [] = []" "rights (Inl x # xs) = rights xs" "rights (Inr y # xs) = y # rights xs"
  "rights (xs @ ys) = rights xs @ rights ys"
  by (simp_all add: rights_def)

definition in_merge :: "mpc \<Rightarrow> (AgentStatus + Question) list" where
  "in_merge p = (case p of MForward n q \<Rightarrow> [q] | _ \<Rightarrow> [])"

lemma in_merge_simps [simp]:
  "in_merge (MSelect n) = []" "in_merge (MForward n q) = [q]" "in_merge MReturned = []"
  by (simp_all add: in_merge_def)

text \<open>The merge counts the closed channels it saw, but not which: it returns after it saw one of them twice.\<close>

definition closed_seen :: "general \<Rightarrow> bool" where
  "closed_seen g \<longleftrightarrow> l_retry (g_status g) = RClosed \<or> l_retry (g_question g) = RClosed"

definition general_ok :: "general \<Rightarrow> bool" where
  "general_ok g \<longleftrightarrow>
     listener_ok status_keepalive (g_status g) \<and> listener_ok question_keepalive (g_question g) \<and>
     lefts (g_out g @ in_merge (g_merge g)) = l_out (g_status g) \<and>
     rights (g_out g @ in_merge (g_merge g)) = l_out (g_question g) \<and>
     (case g_merge g of MSelect n \<Rightarrow> n = 0 \<or> n = 1 \<and> closed_seen g
      | MForward n q \<Rightarrow> n = 0 \<or> n = 1 \<and> closed_seen g | MReturned \<Rightarrow> closed_seen g)"

lemma new_general_ok: "general_ok new_general"
  using statuses.new_ok questions.new_ok by (simp add: general_ok_def new_general_def) (simp add: new_listener_def)

lemma listen_take:
  "listen_exec recv LTake l = Some l' \<longleftrightarrow>
     (\<exists>m. l_retry l = RForward m \<and> l' = l\<lparr>l_retry := RSelect, l_out := l_out l @ [m]\<rparr>)"
  by (auto simp: listen_exec_def split: rpc.split)

lemma own_status_ok:
  assumes "general_ok g" "sl \<noteq> LTake" "ListenStatusAndRetry sl (g_status g) = Some l"
  shows "general_ok (g\<lparr>g_status := l\<rparr>)"
proof -
  note ex = assms(3) [unfolded ListenStatusAndRetry_def]
  from assms(1) have ok: "listener_ok status_keepalive (g_status g)" by (simp add: general_ok_def)
  have "closed_seen (g\<lparr>g_status := l\<rparr>)" if "closed_seen g"
    using that statuses.closed_stays [OF _ ex] by (auto simp: closed_seen_def)
  with assms(1) statuses.exec_ok [OF ok ex] statuses.exec_out [OF ex assms(2)] show ?thesis
    by (auto simp: general_ok_def split: mpc.split)
qed

lemma own_question_ok:
  assumes "general_ok g" "ql \<noteq> LTake" "WaitAndRetry ql (g_question g) = Some l"
  shows "general_ok (g\<lparr>g_question := l\<rparr>)"
proof -
  note ex = assms(3) [unfolded WaitAndRetry_def]
  from assms(1) have ok: "listener_ok question_keepalive (g_question g)" by (simp add: general_ok_def)
  have "closed_seen (g\<lparr>g_question := l\<rparr>)" if "closed_seen g"
    using that questions.closed_stays [OF _ ex] by (auto simp: closed_seen_def)
  with assms(1) questions.exec_ok [OF ok ex] questions.exec_out [OF ex assms(2)] show ?thesis
    by (auto simp: general_ok_def split: mpc.split)
qed

lemma take_status_ok:
  assumes "general_ok g" "g_merge g = MSelect n" "l_retry (g_status g) = RForward m"
    and "ListenStatusAndRetry LTake (g_status g) = Some l"
  shows "general_ok (g\<lparr>g_status := l, g_merge := MForward n (Inl m)\<rparr>)"
proof -
  note ex = assms(4) [unfolded ListenStatusAndRetry_def]
  from assms(1) have ok: "listener_ok status_keepalive (g_status g)" by (simp add: general_ok_def)
  from ex assms(3) have l: "l = (g_status g)\<lparr>l_retry := RSelect, l_out := l_out (g_status g) @ [m]\<rparr>"
    by (simp add: listen_take)
  from statuses.exec_ok [OF ok ex] assms(1-3) show ?thesis
    by (auto simp: general_ok_def closed_seen_def l)
qed

lemma take_question_ok:
  assumes "general_ok g" "g_merge g = MSelect n" "l_retry (g_question g) = RForward m"
    and "WaitAndRetry LTake (g_question g) = Some l"
  shows "general_ok (g\<lparr>g_question := l, g_merge := MForward n (Inr m)\<rparr>)"
proof -
  note ex = assms(4) [unfolded WaitAndRetry_def]
  from assms(1) have ok: "listener_ok question_keepalive (g_question g)" by (simp add: general_ok_def)
  from ex assms(3) have l: "l = (g_question g)\<lparr>l_retry := RSelect, l_out := l_out (g_question g) @ [m]\<rparr>"
    by (simp add: listen_take)
  from questions.exec_ok [OF ok ex] assms(1-3) show ?thesis
    by (auto simp: general_ok_def closed_seen_def l)
qed

lemma saw_closed_ok:
  assumes "general_ok g" "g_merge g = MSelect n" "closed_seen g"
  shows "general_ok (g\<lparr>g_merge := saw_closed n\<rparr>)"
  using assms by (auto simp: general_ok_def saw_closed_def closed_seen_def)

lemma general_exec_ok:
  assumes "general_ok g" "ListenAndRetry lb g = Some g'"
  shows "general_ok g'"
proof (cases lb)
  case (GStatus sl)
  with assms own_status_ok [OF assms(1)] show ?thesis by (auto simp: ListenAndRetry_def split: if_splits)
next
  case (GQuestion ql)
  with assms own_question_ok [OF assms(1)] show ?thesis by (auto simp: ListenAndRetry_def split: if_splits)
next
  case GMergeStatus
  with assms take_status_ok [OF assms(1)] saw_closed_ok [OF assms(1)] show ?thesis
    by (auto simp: ListenAndRetry_def merge_exec_def closed_seen_def split: mpc.split_asm rpc.split_asm)
next
  case GMergeQuestion
  with assms take_question_ok [OF assms(1)] saw_closed_ok [OF assms(1)] show ?thesis
    by (auto simp: ListenAndRetry_def merge_exec_def closed_seen_def split: mpc.split_asm rpc.split_asm)
next
  case GTake
  with assms show ?thesis
    by (auto simp: ListenAndRetry_def merge_exec_def general_ok_def closed_seen_def split: mpc.split_asm)
qed

lemma general_run_ok: "runs_of ListenAndRetry ls new_general = Some g \<Longrightarrow> general_ok g"
  by (rule runs_of_invariant [where I = general_ok, OF general_exec_ok new_general_ok])

text \<open>Of each kind the user has read a prefix of what the agency sent, less the keep-alives.\<close>

lemma general_prefixes:
  assumes "general_ok g"
  shows "prefix (lefts (g_out g)) (filter (\<lambda>m. \<not> status_keepalive m) (l_received (g_status g)))"
    and "prefix (rights (g_out g)) (filter (\<lambda>m. \<not> question_keepalive m) (l_received (g_question g)))"
proof -
  have p: "prefix a f" if "b @ x @ y = f" "a @ c = b" for a b c f x y :: "'x list"
    using that by (auto intro: prefixI)
  from assms have "lefts (g_out g) @ lefts (in_merge (g_merge g)) = l_out (g_status g)"
    "rights (g_out g) @ rights (in_merge (g_merge g)) = l_out (g_question g)" by (simp_all add: general_ok_def)
  with assms show "prefix (lefts (g_out g)) (filter (\<lambda>m. \<not> status_keepalive m) (l_received (g_status g)))"
    "prefix (rights (g_out g)) (filter (\<lambda>m. \<not> question_keepalive m) (l_received (g_question g)))"
    unfolding general_ok_def listener_ok_def by (blast intro: p)+
qed

text \<open>At rest nothing is missing, as long as the merge has not returned.\<close>

definition internal_general :: "glabel list" where
  "internal_general = map GStatus [LSleep, LHand, LErr] @ map GQuestion [LSleep, LHand, LErr] @
     [GMergeStatus, GMergeQuestion, GTake]"

lemma general_rest_listeners:
  assumes "\<forall>lb \<in> set internal_general. ListenAndRetry lb g = None" "g_merge g \<noteq> MReturned"
  shows "(\<forall>lb \<in> set internal. ListenStatusAndRetry lb (g_status g) = None) \<and> l_retry (g_status g) \<noteq> RClosed \<and>
    (\<forall>lb \<in> set internal. WaitAndRetry lb (g_question g) = None) \<and> l_retry (g_question g) \<noteq> RClosed \<and>
    in_merge (g_merge g) = []"
proof -
  from assms obtain n where n: "g_merge g = MSelect n"
    by (cases "g_merge g") (auto simp: internal_general_def ListenAndRetry_def merge_exec_def)
  from assms(1) n have "merge_exec GMergeStatus g = None" "merge_exec GMergeQuestion g = None"
    by (simp_all add: internal_general_def ListenAndRetry_def)
  with n have r: "l_retry (g_status g) \<noteq> RClosed" "l_retry (g_question g) \<noteq> RClosed"
    "ListenStatusAndRetry LTake (g_status g) = None" "WaitAndRetry LTake (g_question g) = None"
    by (auto simp: merge_exec_def ListenStatusAndRetry_def WaitAndRetry_def listen_exec_def split: rpc.split_asm)
  with assms(1) n show ?thesis
    by (auto simp: internal_general_def internal_def ListenAndRetry_def)
qed

lemma general_at_rest:
  assumes "general_ok g" "\<forall>lb \<in> set internal_general. ListenAndRetry lb g = None" "g_merge g \<noteq> MReturned"
  shows "lefts (g_out g) = filter (\<lambda>m. \<not> status_keepalive m) (l_received (g_status g)) \<and>
    rights (g_out g) = filter (\<lambda>m. \<not> question_keepalive m) (l_received (g_question g))"
proof -
  note r = general_rest_listeners [OF assms(2,3)]
  from assms(1) have ok: "listener_ok status_keepalive (g_status g)" "listener_ok question_keepalive (g_question g)"
    by (simp_all add: general_ok_def)
  from statuses.at_rest [OF ok(1)] questions.at_rest [OF ok(2)] r assms(1) show ?thesis
    by (simp add: ListenStatusAndRetry_def WaitAndRetry_def general_ok_def)
qed

subsection \<open>After the merge has returned\<close>

text \<open>A forwarding listener waits for its reader, and the returned merge was the only one.\<close>

definition abandoned :: "Question \<Rightarrow> (AgentStatus + Question) list \<Rightarrow> general \<Rightarrow> bool" where
  "abandoned q out g \<longleftrightarrow> g_merge g = MReturned \<and> g_out g = out \<and> l_retry (g_question g) = RForward q"

lemma forward_waits:
  "l_retry l = RForward m \<Longrightarrow> listen_exec recv lb l = Some l' \<Longrightarrow> lb \<noteq> LTake \<Longrightarrow> l_retry l' = RForward m"
  by (cases lb) (auto simp: listen_exec_def split: tpc.split_asm)

lemma abandoned_stays:
  assumes "abandoned q out g" "ListenAndRetry lb g = Some g'"
  shows "abandoned q out g'"
  using assms
  by (cases lb) (auto simp: abandoned_def ListenAndRetry_def merge_exec_def WaitAndRetry_def
      dest: forward_waits split: if_splits)

lemma merge_gives_up:
  assumes "g_merge g = MSelect 0" "l_retry (g_status g) = RClosed" "l_retry (g_question g) = RForward q"
  shows "\<exists>g'. runs_of ListenAndRetry [GMergeStatus, GMergeStatus] g = Some g' \<and> abandoned q (g_out g) g'"
  using assms by (simp add: ListenAndRetry_def merge_exec_def saw_closed_def abandoned_def)

subsection \<open>Waits\<close>

lemma listener_waits:
  assumes "listener_ok keepalive l" "i < length (l_slept l)"
  shows "sint (l_slept l ! i) = 10 * 1000000000 + 2 ^ min 12 (Suc i) * 1000000000"
proof -
  have f: "sint sleeperFloor = 10 * 1000000000" "sl_floor (NewSleeper sleeperFloor) = sleeperFloor"
    "sl_count (NewSleeper sleeperFloor) = 0" by (simp_all add: sleeperFloor_def Second_def NewSleeper_def)
  have ok: "sleeper_ok (NewSleeper sleeperFloor)" by (rule NewSleeper_ok) (simp_all add: f)
  from assms(1) have "sleeps (length (l_slept l)) (NewSleeper sleeperFloor) = (l_slept l, l_sleeper l)"
    by (simp add: listener_ok_def)
  from sleeps_spec [OF ok this] assms(2) f show ?thesis by simp
qed

subsection \<open>Plain listeners\<close>

definition kept :: "('m \<Rightarrow> bool) \<Rightarrow> 'm recv list \<Rightarrow> 'm list" where
  "kept keepalive rs = filter (\<lambda>m. \<not> keepalive m) (concat (map received rs))"

text \<open>The stream has ended, by its end or by an error, exactly when the channel is closed.\<close>

definition pipe_ok :: "('m \<Rightarrow> bool) \<Rightarrow> 'm pipe \<Rightarrow> bool" where
  "pipe_ok keepalive p \<longleftrightarrow>
     pi_out p @ in_transport (pi_transport p) = kept keepalive (pi_received p) \<and>
     (\<forall>e. pi_transport p \<noteq> TErr e) \<and> pi_transport p \<noteq> TDone False \<and>
     (pi_transport p = TDone True \<longleftrightarrow> (\<exists>r \<in> set (pi_received p). received r = []))"

lemma kept_snoc: "kept keepalive (rs @ [r]) = kept keepalive rs @ filter (\<lambda>m. \<not> keepalive m) (received r)"
  by (simp add: kept_def)

lemma pipe_exec_ok:
  assumes "pipe_ok keepalive p" "pipe_exec (transport keepalive False) lb p = Some p'"
  shows "pipe_ok keepalive p'"
proof (cases lb)
  case (PRecv r)
  with assms(2) have "pi_transport p = TRecv"
    "p' = p\<lparr>pi_transport := transport keepalive False r, pi_received := pi_received p @ [r]\<rparr>"
    by (auto simp: pipe_exec_def split: tpc.split_asm)
  with assms(1) show ?thesis by (cases r) (auto simp: pipe_ok_def kept_snoc transport_def received_def)
next
  case PTake
  with assms(2) obtain m where "pi_transport p = TSend m" "p' = p\<lparr>pi_transport := TRecv, pi_out := pi_out p @ [m]\<rparr>"
    by (auto simp: pipe_exec_def split: tpc.split_asm)
  with assms(1) show ?thesis by (auto simp: pipe_ok_def)
qed

lemma new_pipe_ok: "pipe_ok keepalive new_pipe"
  by (simp add: pipe_ok_def new_pipe_def kept_def)

lemma pipe_run_ok:
  "runs_of (pipe_exec (transport keepalive False)) ls new_pipe = Some p \<Longrightarrow> pipe_ok keepalive p"
  by (rule runs_of_invariant [where I = "pipe_ok keepalive", OF pipe_exec_ok new_pipe_ok])

lemma pipe_closed:
  assumes "pipe_ok keepalive p" "pi_transport p = TDone True"
  shows "pi_out p = kept keepalive (pi_received p) \<and> (\<exists>r \<in> set (pi_received p). received r = [])"
  using assms by (simp add: pipe_ok_def)

end
