(* ===== verification/Client_Plain.thy ===== *)
theory Client_Plain
  imports Client_General
begin

text \<open>
  \<open>Listen\<close> of \<open>agency/client/client.go\<close>: the plain listeners of both kinds, without retries, whose channels the merge
  reads. What the user gets of each kind, and what happens when one of the streams ends or fails.
\<close>

record both =
  ln_status :: "AgentStatus pipe"
  ln_question :: "Question pipe"
  ln_merge :: mpc
  ln_out :: "(AgentStatus + Question) list"

definition new_both :: both where
  "new_both = \<lparr>ln_status = new_pipe, ln_question = new_pipe, ln_merge = MSelect 0, ln_out = []\<rparr>"

datatype lnlabel =
    LnStatusRecv "AgentStatus recv"
  | LnQuestionRecv "Question recv"
  | LnMergeStatus
  | LnMergeQuestion
  | LnTake

definition Listen :: "lnlabel \<Rightarrow> both \<Rightarrow> both option" where
  "Listen lb b =
     (case (lb, ln_merge b) of
        (LnStatusRecv r, _) \<Rightarrow> map_option (\<lambda>p. b\<lparr>ln_status := p\<rparr>) (ListenStatus (PRecv r) (ln_status b))
      | (LnQuestionRecv r, _) \<Rightarrow> map_option (\<lambda>p. b\<lparr>ln_question := p\<rparr>) (Wait (PRecv r) (ln_question b))
      | (LnMergeStatus, MSelect n) \<Rightarrow>
          (case pi_transport (ln_status b) of
             TSend m \<Rightarrow> map_option (\<lambda>p. b\<lparr>ln_status := p, ln_merge := MForward n (Inl m)\<rparr>) (ListenStatus PTake (ln_status b))
           | TDone True \<Rightarrow> Some (b\<lparr>ln_merge := saw_closed n\<rparr>)
           | _ \<Rightarrow> None)
      | (LnMergeQuestion, MSelect n) \<Rightarrow>
          (case pi_transport (ln_question b) of
             TSend q \<Rightarrow> map_option (\<lambda>p. b\<lparr>ln_question := p, ln_merge := MForward n (Inr q)\<rparr>) (Wait PTake (ln_question b))
           | TDone True \<Rightarrow> Some (b\<lparr>ln_merge := saw_closed n\<rparr>)
           | _ \<Rightarrow> None)
      | (LnTake, MForward n q) \<Rightarrow> Some (b\<lparr>ln_merge := MSelect n, ln_out := ln_out b @ [q]\<rparr>)
      | _ \<Rightarrow> None)"

definition both_ok :: "both \<Rightarrow> bool" where
  "both_ok b \<longleftrightarrow> pipe_ok status_keepalive (ln_status b) \<and> pipe_ok question_keepalive (ln_question b) \<and>
     lefts (ln_out b @ in_merge (ln_merge b)) = pi_out (ln_status b) \<and>
     rights (ln_out b @ in_merge (ln_merge b)) = pi_out (ln_question b)"

lemma new_both_ok: "both_ok new_both"
  using new_pipe_ok [of status_keepalive] new_pipe_ok [of question_keepalive]
  by (simp add: both_ok_def new_both_def) (simp add: new_pipe_def)

lemma ListenStatus_ok:
  assumes "pipe_ok status_keepalive p" "ListenStatus l p = Some p'"
  shows "pipe_ok status_keepalive p'"
  using assms(2) unfolding ListenStatus_def transportStatus_def by (rule pipe_exec_ok [OF assms(1)])

lemma Wait_ok:
  assumes "pipe_ok question_keepalive p" "Wait l p = Some p'"
  shows "pipe_ok question_keepalive p'"
  using assms(2) unfolding Wait_def transportWait_def by (rule pipe_exec_ok [OF assms(1)])

lemma saw_closed_holds_nothing [simp]: "in_merge (saw_closed n) = []"
  by (simp add: saw_closed_def)

lemma Listen_pipes:
  assumes "pipe_ok status_keepalive (ln_status b)" "pipe_ok question_keepalive (ln_question b)" "Listen lb b = Some b'"
  shows "pipe_ok status_keepalive (ln_status b') \<and> pipe_ok question_keepalive (ln_question b')"
  using assms(3) ListenStatus_ok [OF assms(1)] Wait_ok [OF assms(2)] assms(1,2)
  by (cases lb; cases "ln_merge b") (auto simp: Listen_def split: tpc.split_asm bool.split_asm)

lemma Listen_ok:
  assumes "both_ok b" "Listen lb b = Some b'"
  shows "both_ok b'"
proof -
  from assms have "pipe_ok status_keepalive (ln_status b') \<and> pipe_ok question_keepalive (ln_question b')"
    using Listen_pipes [of b lb b'] by (simp add: both_ok_def)
  with assms show ?thesis
    by (cases lb; cases "ln_merge b") (auto simp: Listen_def both_ok_def ListenStatus_def Wait_def pipe_exec_def
        split: tpc.split_asm bool.split_asm)
qed

lemma Listen_run_ok: "runs_of Listen ls new_both = Some b \<Longrightarrow> both_ok b"
  by (rule runs_of_invariant [where I = both_ok, OF Listen_ok new_both_ok])

text \<open>Of each kind the user reads a prefix of what its stream yielded without the keep-alives.\<close>

lemma Listen_prefixes:
  assumes "both_ok b"
  shows "prefix (lefts (ln_out b)) (kept status_keepalive (pi_received (ln_status b)))"
    and "prefix (rights (ln_out b)) (kept question_keepalive (pi_received (ln_question b)))"
proof -
  have p: "prefix a f" if "b @ x = f" "a @ c = b" for a b c f x :: "'x list"
    using that by (auto intro: prefixI)
  from assms have "lefts (ln_out b) @ lefts (in_merge (ln_merge b)) = pi_out (ln_status b)"
    "rights (ln_out b) @ rights (in_merge (ln_merge b)) = pi_out (ln_question b)" by (simp_all add: both_ok_def)
  with assms show "prefix (lefts (ln_out b)) (kept status_keepalive (pi_received (ln_status b)))"
    "prefix (rights (ln_out b)) (kept question_keepalive (pi_received (ln_question b)))"
    unfolding both_ok_def pipe_ok_def by (blast intro: p)+
qed

text \<open>The end or the failure of the statuses' stream alone can end the whole: the merge sees the same closed
  channel twice, and afterwards nothing is delivered any more.\<close>

lemma Listen_gives_up:
  assumes "ln_merge b = MSelect 0" "pi_transport (ln_status b) = TDone True"
  shows "runs_of Listen [LnMergeStatus, LnMergeStatus] b = Some (b\<lparr>ln_merge := MReturned\<rparr>)"
  using assms by (simp add: Listen_def saw_closed_def)

lemma Listen_returned_stays:
  assumes "runs_of Listen ls b = Some b'" "ln_merge b = MReturned"
  shows "ln_merge b' = MReturned \<and> ln_out b' = ln_out b"
  using assms
proof (induction ls arbitrary: b)
  case (Cons lb ls)
  then obtain x where x: "Listen lb b = Some x" "runs_of Listen ls x = Some b'" by (auto split: option.split_asm)
  from x(1) Cons.prems(2) have "ln_merge x = MReturned \<and> ln_out x = ln_out b" by (cases lb) (auto simp: Listen_def)
  with Cons.IH [OF x(2)] show ?case by simp
qed simp

end
