(* ===== verification/Chat_Service.thy ===== *)
theory Chat_Service
  imports Samples Client_Plain
begin

text \<open>
  The bot as its users start it (\<open>agency/client/chat/bot.go\<close>): machines are read from files and written to them, and
  \<open>Bot.Run\<close> connects the two listeners of the agency with the multiplexer.
\<close>

subsection \<open>Files\<close>

text \<open>What a reader yields, \<open>None\<close> for an error.\<close>

datatype load_error = ReadFailed | ParseFailed | InitFailed init_error

definition LoadFSMMachineData :: "string \<Rightarrow> string option \<Rightarrow> load_error + MachineData" where
  "LoadFSMMachineData fName r =
     (case r of None \<Rightarrow> Inl ReadFailed | Some dat \<Rightarrow> Inr \<lparr>md_FType = fName, md_Data = Some dat\<rparr>)"

definition loadFSMData :: "codec \<Rightarrow> string \<Rightarrow> string \<Rightarrow> Machine option" where
  "loadFSMData cd fName dat =
     (if filepath_Ext fName = ''.json'' then jsonMachine cd (Some dat) else yamlMachine cd (Some dat))"

definition LoadFSM :: "env \<Rightarrow> codec \<Rightarrow> string \<Rightarrow> string option \<Rightarrow> (load_error + Machine) go" where
  "LoadFSM env cd fName r =
     (case r of
        None \<Rightarrow> Inr (Inl ReadFailed)
      | Some dat \<Rightarrow>
          (case loadFSMData cd fName dat of
             None \<Rightarrow> Inr (Inl ParseFailed)
           | Some m \<Rightarrow> bindG (Initialize env m) (\<lambda>i. Inr (case i of Inl e \<Rightarrow> Inl (InitFailed e) | Inr m' \<Rightarrow> Inr m'))))"

text \<open>The two printers; \<open>None\<close> is their error, which is thrown to the handler of \<open>SaveFSM\<close>.\<close>

record printers =
  json_MarshalIndent :: "Machine \<Rightarrow> string option"
  yaml_Marshal :: "Machine \<Rightarrow> string option"

definition marshalFSM :: "printers \<Rightarrow> string \<Rightarrow> Machine \<Rightarrow> string option" where
  "marshalFSM pr fName m = (if filepath_Ext fName = ''.json'' then json_MarshalIndent pr m else yaml_Marshal pr m)"

text \<open>The files of the file system after a write, \<open>None\<close> when it fails.\<close>

definition SaveFSM :: "printers \<Rightarrow> (string \<Rightarrow> string \<Rightarrow> (string \<rightharpoonup> string) \<Rightarrow> (string \<rightharpoonup> string) option) \<Rightarrow>
    Machine \<Rightarrow> string \<Rightarrow> (string \<rightharpoonup> string) \<Rightarrow> (string \<rightharpoonup> string) option" where
  "SaveFSM pr writeFile m fName files =
     (case marshalFSM pr fName m of None \<Rightarrow> None | Some dat \<Rightarrow> writeFile fName dat files)"

text \<open>A saved machine loads to what its initialisation is, when the parsers read what the printers print.\<close>

lemma load_saved:
  assumes "\<And>m' d. json_MarshalIndent pr m' = Some d \<Longrightarrow> jsonMachine cd (Some d) = Some m'"
    and "\<And>m' d. yaml_Marshal pr m' = Some d \<Longrightarrow> yamlMachine cd (Some d) = Some m'"
    and "\<And>n d f f'. writeFile n d f = Some f' \<Longrightarrow> f' = f(n \<mapsto> d)"
    and "SaveFSM pr writeFile m fName files = Some files'"
  shows "LoadFSM env cd fName (files' fName) =
    bindG (Initialize env m) (\<lambda>i. Inr (case i of Inl e \<Rightarrow> Inl (InitFailed e) | Inr m' \<Rightarrow> Inr m'))"
proof -
  from assms(4) obtain d where d: "marshalFSM pr fName m = Some d" "files' fName = Some d"
    using assms(3) by (fastforce simp: SaveFSM_def split: option.split_asm)
  then have "loadFSMData cd fName d = Some m"
    using assms(1,2) by (auto simp: marshalFSM_def loadFSMData_def split: if_splits)
  with d(2) show ?thesis by (simp add: LoadFSM_def)
qed

subsection \<open>Running\<close>

text \<open>Where \<open>Run\<close> is: at its select, at a send to one of the multiplexer's channels, or returned.\<close>

datatype bot_pc = BSelect | BSendStatus AgentStatus | BSendQuestion Question | BReturned

text \<open>\<open>bt_given\<close> and \<open>bt_asked\<close> record what the multiplexer received.\<close>

record bot =
  bt_status :: "AgentStatus pipe"
  bt_question :: "Question pipe"
  bt_pc :: bot_pc
  bt_cancelled :: bool
  bt_chat :: sys
  bt_given :: "AgentStatus list"
  bt_asked :: "Question list"

definition bot_start :: "sys \<Rightarrow> bot" where
  "bot_start s = \<lparr>bt_status = new_pipe, bt_question = new_pipe, bt_pc = BSelect, bt_cancelled = False,
     bt_chat = s, bt_given = [], bt_asked = []\<rparr>"

text \<open>
  \<open>BStatusRecv\<close> and \<open>BQuestionRecv\<close> are the transports, \<open>BStatusCh\<close> and \<open>BQuestionCh\<close> the select on their channels, \<open>BGive\<close> the
  send to the multiplexer, which takes it as its own step, \<open>BIntCh\<close> the select on the interrupt channel and
  \<open>BChat\<close> any other step of the chat.
\<close>

datatype blabel =
    BStatusRecv "AgentStatus recv"
  | BQuestionRecv "Question recv"
  | BStatusCh
  | BQuestionCh
  | BGive
  | BIntCh
  | BChat label

definition fromOutside :: "label \<Rightarrow> bool" where
  "fromOutside l = (case l of LStatus _ \<Rightarrow> True | LQuestion _ \<Rightarrow> True | _ \<Rightarrow> False)"

definition Run :: "env \<Rightarrow> codec \<Rightarrow> MultiplexerInfo \<Rightarrow> blabel \<Rightarrow> bot \<Rightarrow> bot option" where
  "Run env cd info l b =
     (case (l, bt_pc b) of
        (BStatusRecv r, _) \<Rightarrow> map_option (\<lambda>p. b\<lparr>bt_status := p\<rparr>) (ListenStatus (PRecv r) (bt_status b))
      | (BQuestionRecv r, _) \<Rightarrow> map_option (\<lambda>p. b\<lparr>bt_question := p\<rparr>) (Wait (PRecv r) (bt_question b))
      | (BStatusCh, BSelect) \<Rightarrow>
          (case pi_transport (bt_status b) of
             TSend m \<Rightarrow> map_option (\<lambda>p. b\<lparr>bt_status := p, bt_pc := BSendStatus m\<rparr>) (ListenStatus PTake (bt_status b))
           | TDone True \<Rightarrow> Some (b\<lparr>bt_pc := BReturned, bt_cancelled := True\<rparr>)
           | _ \<Rightarrow> None)
      | (BQuestionCh, BSelect) \<Rightarrow>
          (case pi_transport (bt_question b) of
             TSend q \<Rightarrow> map_option (\<lambda>p. b\<lparr>bt_question := p, bt_pc := BSendQuestion q\<rparr>) (Wait PTake (bt_question b))
           | TDone True \<Rightarrow> Some (b\<lparr>bt_pc := BReturned, bt_cancelled := True\<rparr>)
           | _ \<Rightarrow> None)
      | (BGive, BSendStatus m) \<Rightarrow>
          map_option (\<lambda>s. b\<lparr>bt_chat := s, bt_pc := BSelect, bt_given := bt_given b @ [m]\<rparr>)
            (exec env cd info (LStatus m) (bt_chat b))
      | (BGive, BSendQuestion q) \<Rightarrow>
          map_option (\<lambda>s. b\<lparr>bt_chat := s, bt_pc := BSelect, bt_asked := bt_asked b @ [q]\<rparr>)
            (exec env cd info (LQuestion q) (bt_chat b))
      | (BIntCh, BSelect) \<Rightarrow> Some (b\<lparr>bt_cancelled := True\<rparr>)
      | (BChat cl, _) \<Rightarrow>
          (if fromOutside cl then None else map_option (\<lambda>s. b\<lparr>bt_chat := s\<rparr>) (exec env cd info cl (bt_chat b)))
      | _ \<Rightarrow> None)"

subsection \<open>The bot refines the chat\<close>

definition given_ok :: "bot \<Rightarrow> bool" where
  "given_ok b \<longleftrightarrow>
     bt_given b @ (case bt_pc b of BSendStatus m \<Rightarrow> [m] | _ \<Rightarrow> []) = pi_out (bt_status b) \<and>
     bt_asked b @ (case bt_pc b of BSendQuestion q \<Rightarrow> [q] | _ \<Rightarrow> []) = pi_out (bt_question b)"

definition bot_ok :: "env \<Rightarrow> codec \<Rightarrow> MultiplexerInfo \<Rightarrow> bot \<Rightarrow> bool" where
  "bot_ok env cd info b \<longleftrightarrow> reachable env cd info (bt_chat b) \<and>
     pipe_ok status_keepalive (bt_status b) \<and> pipe_ok question_keepalive (bt_question b) \<and> given_ok b"

lemma bot_start_ok: "reachable env cd info s \<Longrightarrow> bot_ok env cd info (bot_start s)"
  using new_pipe_ok [of status_keepalive] new_pipe_ok [of question_keepalive]
  by (simp add: bot_ok_def bot_start_def given_ok_def) (simp add: new_pipe_def)

lemma Run_chat:
  assumes "reachable env cd info (bt_chat b)" "Run env cd info l b = Some b'"
  shows "reachable env cd info (bt_chat b')"
  using assms reachable.step [OF assms(1)]
  by (cases l; cases "bt_pc b") (auto simp: Run_def split: tpc.split_asm bool.split_asm if_splits)

lemma Run_pipes:
  assumes "pipe_ok status_keepalive (bt_status b)" "pipe_ok question_keepalive (bt_question b)"
    and "Run env cd info l b = Some b'"
  shows "pipe_ok status_keepalive (bt_status b') \<and> pipe_ok question_keepalive (bt_question b')"
  using assms(3) ListenStatus_ok [OF assms(1)] Wait_ok [OF assms(2)] assms(1,2)
  by (cases l; cases "bt_pc b") (auto simp: Run_def split: tpc.split_asm bool.split_asm if_splits)

lemma Run_given:
  assumes "given_ok b" "Run env cd info l b = Some b'"
  shows "given_ok b'"
  using assms
  by (cases l; cases "bt_pc b") (auto simp: Run_def given_ok_def ListenStatus_def Wait_def pipe_exec_def
      split: tpc.split_asm bool.split_asm if_splits)

lemma Run_ok: "bot_ok env cd info b \<Longrightarrow> Run env cd info l b = Some b' \<Longrightarrow> bot_ok env cd info b'"
  using Run_chat Run_pipes Run_given unfolding bot_ok_def by blast

lemma bot_run_ok:
  assumes "reachable env cd info s" "runs_of (Run env cd info) ls (bot_start s) = Some b"
  shows "bot_ok env cd info b"
  using runs_of_invariant [where I = "bot_ok env cd info", OF Run_ok bot_start_ok [OF assms(1)] assms(2)] .

text \<open>What the multiplexer received is a prefix of what the stream yielded without the keep-alives.\<close>

lemma given_prefix:
  assumes "bot_ok env cd info b"
  shows "prefix (bt_given b) (kept status_keepalive (pi_received (bt_status b)))"
    and "prefix (bt_asked b) (kept question_keepalive (pi_received (bt_question b)))"
proof -
  have p: "prefix a f" if "b @ x = f" "a @ c = b" for a b c f x :: "'x list" using that by (auto intro: prefixI)
  from assms show "prefix (bt_given b) (kept status_keepalive (pi_received (bt_status b)))"
    "prefix (bt_asked b) (kept question_keepalive (pi_received (bt_question b)))"
    unfolding bot_ok_def pipe_ok_def given_ok_def by (blast intro: p)+
qed

end
