(* ===== verification/X_Utils.thy ===== *)
theory X_Utils
  imports Go_Prelude
begin

text \<open>
  The package \<open>x\<close> (files \<open>x/x.go\<close>, \<open>x/rwmap.go\<close>, \<open>x/rwslice.go\<close>): small generic helpers and the
  two containers behind a read-write lock. Each method of a container is one critical section, so
  it is one state transformer of the container's content.
\<close>

subsection \<open>Ternary, swap and reversal\<close>

definition Whom :: "bool \<Rightarrow> 'a \<Rightarrow> 'a \<Rightarrow> 'a" where
  "Whom b yes no = (if b then yes else no)"

text \<open>\<open>s[i], s[j] = s[j], s[i]\<close>.\<close>

definition swap_at :: "nat \<Rightarrow> nat \<Rightarrow> 'a list \<Rightarrow> 'a list" where
  "swap_at i j s = s[i := s ! j, j := s ! i]"

text \<open>The loop of \<open>SReverse\<close>: \<open>for i := length/2 - 1; i >= 0; i--\<close>. The argument counts the
  iterations that are left, so the index of the next one is its predecessor.\<close>

fun SReverse_loop :: "nat \<Rightarrow> 'a list \<Rightarrow> 'a list" where
  "SReverse_loop 0 s = s"
| "SReverse_loop (Suc i) s = SReverse_loop i (swap_at i (length s - 1 - i) s)"

definition SReverse :: "'a list \<Rightarrow> 'a list" where
  "SReverse s = SReverse_loop (length s div 2) s"

text \<open>The loop of \<open>SSReverse\<close>: two indices that move towards each other; \<open>end\<close> is \<open>-1\<close> for an
  empty slice.\<close>

function SSReverse_loop :: "int \<Rightarrow> int \<Rightarrow> 'a list \<Rightarrow> 'a list" where
  "SSReverse_loop b e s =
     (if b < e then SSReverse_loop (b + 1) (e - 1) (swap_at (nat b) (nat e) s) else s)"
  by pat_completeness auto
termination
  by (relation "measure (\<lambda>(b, e, s). nat (e - b))") auto

declare SSReverse_loop.simps [simp del]

definition SSReverse :: "'a list \<Rightarrow> 'a list" where
  "SSReverse s = SSReverse_loop 0 (int (length s) - 1) s"

lemma length_swap_at [simp]: "length (swap_at i j s) = length s"
  by (simp add: swap_at_def)

lemma nth_swap_at:
  "i < length s \<Longrightarrow> j < length s \<Longrightarrow> k < length s \<Longrightarrow>
   swap_at i j s ! k = (if k = j then s ! i else if k = i then s ! j else s ! k)"
  by (auto simp: swap_at_def nth_list_update)

lemma length_SReverse_loop [simp]: "length (SReverse_loop n s) = length s"
  by (induction n s rule: SReverse_loop.induct) auto

lemma nth_SReverse_loop:
  "2 * n \<le> length s \<Longrightarrow> k < length s \<Longrightarrow>
   SReverse_loop n s ! k =
     (if k < n \<or> length s - 1 - k < n then s ! (length s - 1 - k) else s ! k)"
proof (induction n s arbitrary: k rule: SReverse_loop.induct)
  case (1 s)
  then show ?case by simp
next
  case (2 i s)
  let ?opp = "length s - 1 - i"
  have i: "i < length s" "?opp < length s" and less: "i < ?opp"
    using "2.prems" by auto
  have "SReverse_loop (Suc i) s ! k =
      (if k < i \<or> length s - 1 - k < i then swap_at i ?opp s ! (length s - 1 - k)
       else swap_at i ?opp s ! k)"
    using "2.IH" [of k] "2.prems" by simp
  moreover have "length s - 1 - k < length s"
    using "2.prems" by auto
  moreover have "length s - 1 - ?opp = i" using i by auto
  ultimately show ?case
    using i less "2.prems" by (auto simp: nth_swap_at)
qed

lemma SReverse_rev: "SReverse s = rev s"
proof (rule nth_equalityI)
  fix k assume k: "k < length (SReverse s)"
  then have "k < length s" by (simp add: SReverse_def)
  then show "SReverse s ! k = rev s ! k"
    by (auto simp: SReverse_def nth_SReverse_loop rev_nth intro!: arg_cong [of _ _ "(!) s"])
qed (simp add: SReverse_def)

lemma SSReverse_loop_correct:
  assumes "int b + int e = int (length s) - 1"
  shows "length (SSReverse_loop (int b) (int e) s) = length s \<and>
    (\<forall>k < length s. SSReverse_loop (int b) (int e) s ! k =
       (if b \<le> k \<and> k \<le> e then s ! (length s - 1 - k) else s ! k))"
  using assms
proof (induction "e - b" arbitrary: b e s rule: less_induct)
  case less
  show ?case
  proof (cases "b < e")
    case False
    have "k = length s - 1 - k" if "b \<le> k" "k \<le> e" for k
      using that False less.prems by auto
    with False show ?thesis by (simp add: SSReverse_loop.simps [of "int b"])
  next
    case True
    then obtain e' where e': "e = Suc e'" by (cases e) auto
    let ?t = "swap_at b e s"
    have step: "SSReverse_loop (int b) (int e) s = SSReverse_loop (int (Suc b)) (int e') ?t"
      using True e' by (simp add: SSReverse_loop.simps [of "int b"] nat_add_distrib add.commute)
    have IH: "length (SSReverse_loop (int (Suc b)) (int e') ?t) = length ?t \<and>
      (\<forall>k < length ?t. SSReverse_loop (int (Suc b)) (int e') ?t ! k =
        (if Suc b \<le> k \<and> k \<le> e' then ?t ! (length ?t - 1 - k) else ?t ! k))"
      using less.prems e' True by (intro less.hyps) auto
    have be: "b < length s" "e < length s" using less.prems True by auto
    have opp: "length s - 1 - b = e" "length s - 1 - e = b" using less.prems by auto
    show ?thesis
      unfolding step
    proof (intro conjI allI impI)
      fix k assume k: "k < length s"
      show "SSReverse_loop (int (Suc b)) (int e') ?t ! k =
          (if b \<le> k \<and> k \<le> e then s ! (length s - 1 - k) else s ! k)"
        using IH k be opp e' True by (auto simp: nth_swap_at less_Suc_eq_le)
    qed (use IH in simp)
  qed
qed

lemma SSReverse_rev: "SSReverse s = rev s"
proof (cases s)
  case Nil
  then show ?thesis by (simp add: SSReverse_def SSReverse_loop.simps)
next
  case (Cons x xs)
  then have n: "int (length s) - 1 = int (length s - 1)" by simp
  have "length (SSReverse s) = length s \<and>
      (\<forall>k < length s. SSReverse s ! k = s ! (length s - 1 - k))"
    unfolding SSReverse_def n using SSReverse_loop_correct [of 0 "length s - 1" s] Cons by auto
  then show ?thesis by (auto intro!: nth_equalityI simp: rev_nth)
qed

text \<open>\<open>GetAndSet\<close> and \<open>Swap\<close> work through pointers, which may be the same.\<close>

definition GetAndSet :: "nat \<Rightarrow> 'a \<Rightarrow> 'a heap \<Rightarrow> 'a \<times> 'a heap" where
  "GetAndSet p val h = (let old = cells h p in (old, hmod p (\<lambda>_. val) h))"

definition Swap :: "nat \<Rightarrow> nat \<Rightarrow> 'a heap \<Rightarrow> 'a \<times> 'a heap" where
  "Swap lhs rhs h =
     (let swap = cells h lhs;
          h1 = hmod lhs (\<lambda>_. cells h rhs) h;
          h2 = hmod rhs (\<lambda>_. swap) h1
      in (cells h2 lhs, h2))"

text \<open>C-style helpers need their aliasing case: swapping a cell with itself changes nothing.\<close>

lemma Swap_self: "Swap p p h = (cells h p, h)"
  by (simp add: Swap_def Let_def hmod_def)

end
