(* ===== verification/Base64.thy ===== *)
theory Base64
  imports Go_Prelude
begin

text \<open>
  What the sources use of Go's \<open>encoding/base64\<close>: the raw (unpadded) encoders of the standard and the URL alphabet,
  and the padded and raw decoders. A byte is a character.
\<close>

subsection \<open>Alphabets\<close>

text \<open>The first 62 digits are those of both alphabets, the last two are given.\<close>

definition b64_digits :: string where
  "b64_digits = ''ABCDEFGHIJKLMNOPQRSTUVWXYZabcdefghijklmnopqrstuvwxyz0123456789''"

definition std_alphabet :: string where
  "std_alphabet = b64_digits @ ''+/''"

definition url_alphabet :: string where
  "url_alphabet = b64_digits @ ''-_''"

fun index_of :: "char \<Rightarrow> string \<Rightarrow> nat option" where
  "index_of c [] = None"
| "index_of c (x # xs) = (if x = c then Some 0 else map_option Suc (index_of c xs))"

lemma index_of_nth: "distinct xs \<Longrightarrow> i < length xs \<Longrightarrow> index_of (xs ! i) xs = Some i"
proof (induction xs arbitrary: i)
  case (Cons x xs)
  then show ?case by (cases i) (auto simp: nth_mem)
qed simp

subsection \<open>Digits\<close>

text \<open>Three bytes are four digits; one or two bytes at the end are two or three.\<close>

fun to_digits :: "nat list \<Rightarrow> nat list" where
  "to_digits (a # b # c # r) = a div 4 # (a mod 4 * 16 + b div 16) # (b mod 16 * 4 + c div 64) # c mod 64 # to_digits r"
| "to_digits [a, b] = [a div 4, a mod 4 * 16 + b div 16, b mod 16 * 4]"
| "to_digits [a] = [a div 4, a mod 4 * 16]"
| "to_digits [] = []"

fun of_digits :: "nat list \<Rightarrow> nat list option" where
  "of_digits (a # b # c # d # r) =
     map_option (\<lambda>s. (a * 4 + b div 16) # (b mod 16 * 16 + c div 4) # (c mod 4 * 64 + d) # s) (of_digits r)"
| "of_digits [a, b, c] = Some [a * 4 + b div 16, b mod 16 * 16 + c div 4]"
| "of_digits [a, b] = Some [a * 4 + b div 16]"
| "of_digits [a] = None"
| "of_digits [] = Some []"

lemma to_digits_less: "\<forall>x \<in> set bs. x < 256 \<Longrightarrow> \<forall>d \<in> set (to_digits bs). d < 64"
  by (induction bs rule: to_digits.induct) auto

lemma digit_parts:
  fixes a b c :: nat
  shows "b < 256 \<Longrightarrow> a div 4 * 4 + (a mod 4 * 16 + b div 16) div 16 = a"
    and "b < 256 \<Longrightarrow> c < 256 \<Longrightarrow> (a mod 4 * 16 + b div 16) mod 16 * 16 + (b mod 16 * 4 + c div 64) div 4 = b"
    and "c < 256 \<Longrightarrow> (b mod 16 * 4 + c div 64) mod 4 * 64 + c mod 64 = c"
    and "a div 4 * 4 + a mod 4 * 16 div 16 = a"
    and "b < 256 \<Longrightarrow> (a mod 4 * 16 + b div 16) mod 16 * 16 + b mod 16 * 4 div 4 = b"
proof -
  have d: "x < 256 \<Longrightarrow> x div 16 < 16" "x < 256 \<Longrightarrow> x div 64 < 4" for x :: nat by simp_all
  show "b < 256 \<Longrightarrow> a div 4 * 4 + (a mod 4 * 16 + b div 16) div 16 = a"
    "b < 256 \<Longrightarrow> c < 256 \<Longrightarrow> (a mod 4 * 16 + b div 16) mod 16 * 16 + (b mod 16 * 4 + c div 64) div 4 = b"
    "c < 256 \<Longrightarrow> (b mod 16 * 4 + c div 64) mod 4 * 64 + c mod 64 = c"
    "a div 4 * 4 + a mod 4 * 16 div 16 = a"
    "b < 256 \<Longrightarrow> (a mod 4 * 16 + b div 16) mod 16 * 16 + b mod 16 * 4 div 4 = b"
    using d(1) [of b] d(2) [of c] by (simp_all add: algebra_simps)
qed

lemma of_to_digits: "\<forall>x \<in> set bs. x < 256 \<Longrightarrow> of_digits (to_digits bs) = Some bs"
  by (induction bs rule: to_digits.induct, simp_all only: to_digits.simps of_digits.simps digit_parts list.set
      ball_simps option.map simp_thms insert_iff empty_iff) simp

subsection \<open>Texts\<close>

definition b64_encode :: "string \<Rightarrow> string \<Rightarrow> string" where
  "b64_encode alphabet s = map (\<lambda>d. alphabet ! d) (to_digits (map of_char s))"

fun digits_of :: "string \<Rightarrow> string \<Rightarrow> nat list option" where
  "digits_of alphabet [] = Some []"
| "digits_of alphabet (c # s) =
     (case index_of c alphabet of None \<Rightarrow> None | Some d \<Rightarrow> map_option ((#) d) (digits_of alphabet s))"

text \<open>The decoders skip line ends.\<close>

definition strip_newlines :: "string \<Rightarrow> string" where
  "strip_newlines s = filter (\<lambda>c. c \<noteq> CHR 0x0A \<and> c \<noteq> CHR 0x0D) s"

definition decode_digits :: "string \<Rightarrow> string \<Rightarrow> string option" where
  "decode_digits alphabet s = Option.bind (digits_of alphabet s) (\<lambda>ds. map_option (map char_of) (of_digits ds))"

definition raw_decode :: "string \<Rightarrow> string \<Rightarrow> string option" where
  "raw_decode alphabet s = decode_digits alphabet (strip_newlines s)"

definition padded_decode :: "string \<Rightarrow> string \<Rightarrow> string option" where
  "padded_decode alphabet s =
     (let t = strip_newlines s in
      if length t mod 4 \<noteq> 0 then None
      else if suffix ''=='' t then decode_digits alphabet (butlast (butlast t))
      else if suffix ''='' t then decode_digits alphabet (butlast t)
      else decode_digits alphabet t)"

text \<open>An alphabet for which the encoding is read back: 64 different characters, no line end, no padding.\<close>

definition good_alphabet :: "string \<Rightarrow> bool" where
  "good_alphabet alphabet \<longleftrightarrow> length alphabet = 64 \<and> distinct alphabet \<and>
     set alphabet \<inter> {CHR 0x0A, CHR 0x0D, CHR ''=''} = {}"

lemma good_std [simp]: "good_alphabet std_alphabet"
  by code_simp

lemma good_url [simp]: "good_alphabet url_alphabet"
  by code_simp

lemma digits_of_nth:
  "good_alphabet alphabet \<Longrightarrow> \<forall>d \<in> set ds. d < 64 \<Longrightarrow> digits_of alphabet (map (\<lambda>d. alphabet ! d) ds) = Some ds"
  by (induction ds) (simp_all add: good_alphabet_def index_of_nth)

lemma encoded_digits: "\<forall>d \<in> set (to_digits (map of_char s)). d < 64"
  by (rule to_digits_less) (auto simp: of_char_of)

lemma encode_alphabet:
  assumes "good_alphabet alphabet"
  shows "set (b64_encode alphabet s) \<subseteq> set alphabet"
  using encoded_digits [of s] assms by (auto simp: b64_encode_def good_alphabet_def)

lemma decode_digits_encode:
  assumes "good_alphabet alphabet"
  shows "decode_digits alphabet (b64_encode alphabet s) = Some s"
proof -
  have "of_digits (to_digits (map of_char s)) = Some (map of_char s)"
    by (rule of_to_digits) auto
  with digits_of_nth [OF assms encoded_digits] show ?thesis
    by (simp add: decode_digits_def b64_encode_def comp_def)
qed

lemma strip_encode:
  assumes "good_alphabet alphabet"
  shows "strip_newlines (b64_encode alphabet s) = b64_encode alphabet s"
  using encode_alphabet [OF assms, of s] assms
  by (auto simp: strip_newlines_def filter_id_conv good_alphabet_def)

lemma raw_decode_encode:
  "good_alphabet alphabet \<Longrightarrow> raw_decode alphabet (b64_encode alphabet s) = Some s"
  by (simp add: raw_decode_def strip_encode decode_digits_encode)

text \<open>The padded decoder reads an unpadded text to the same bytes, or not at all.\<close>

lemma padded_decode_encode:
  assumes "good_alphabet alphabet"
  shows "padded_decode alphabet (b64_encode alphabet s) \<in> {None, Some s}"
proof -
  have "\<not> suffix (t @ ''='') (b64_encode alphabet s)" for t
    using encode_alphabet [OF assms, of s] assms by (auto simp: suffix_def good_alphabet_def)
  from this [of "''=''"] this [of "[]"] show ?thesis
    by (simp add: padded_decode_def strip_encode decode_digits_encode assms Let_def)
qed

end
