(* ===== verification/Fsm_Plantuml.thy ===== *)
theory Fsm_Plantuml
  imports Fsm_Types Base64
begin

text \<open>
  The drawing of a machine: its text in PlantUML's language (\<open>String\<close> of \<open>Machine\<close> and \<open>Event\<close> in \<open>agency/fsm\<close>) and
  the link to PlantUML's server that carries it (\<open>agency/fsm/plantuml.go\<close>). The compression of
  \<open>compress/zlib\<close> is a parameter; the result of \<open>GenerateURL\<close> is the text that the code hands to \<open>url.Parse\<close>.
\<close>

subsection \<open>The text\<close>

definition ruleMap :: "(string \<times> string) list" where
  "ruleMap =
     [(TriggerTypeOurMessage, ''STATUS''), (TriggerTypeUseInput, ''<-''),
      (TriggerTypeUseInputSave, '':=''), (TriggerTypeUseInputSaveConnID, '':=''), (TriggerTypeUseInputSaveSessionID, '':=''),
      (TriggerTypeFormat, ''''), (TriggerTypeFormatFromMem, ''%s''), (TriggerTypePIN, ''new PIN''), (TriggerTypeData, ''''),
      (TriggerTypeValidateInputEqual, ''==''), (TriggerTypeValidateInputNotEqual, ''!=''), (TriggerTypeInputEqual, ''==''),
      (TriggerTypeAcceptAndInputValues, ''ACCEPT''), (TriggerTypeNotAcceptValues, ''DECLINE'')]"

definition removeLF :: "string \<Rightarrow> string" where
  "removeLF s = replaceChar (CHR 0x0A) '' '' s"

text \<open>\<open>%.12s\<close> takes twelve characters; a text in ASCII has one per byte.\<close>

definition Event_String :: "Event \<Rightarrow> string" where
  "Event_String e =
     e_Protocol e @ ''{'' @ (case map_of ruleMap (e_Rule e) of Some r \<Rightarrow> r | None \<Rightarrow> []) @ '' '' @ [CHR 0x22] @
     take 12 (removeLF (e_Data e)) @ [CHR 0x22] @ ''}''"

definition stateWidthInChar :: nat where
  "stateWidthInChar = 100"

definition pad_right :: "nat \<Rightarrow> string \<Rightarrow> string" where
  "pad_right n s = s @ replicate (n - length s) (CHR '' '')"

definition pad_left :: "nat \<Rightarrow> string \<Rightarrow> string" where
  "pad_left n s = replicate (n - length s) (CHR '' '') @ s"

definition padStr :: "string \<Rightarrow> string" where
  "padStr s = pad_left stateWidthInChar (pad_right (stateWidthInChar div 2 + length s div 2) s)"

definition send_String :: "Event \<Rightarrow> string" where
  "send_String e = ''{'' @ Event_String e @ ''} ==>'' @ [CHR 0x5C] @ ''n''"

definition transition_String :: "string \<Rightarrow> Transition \<Rightarrow> string go" where
  "transition_String stateName t = bindG (deref (t_Trigger t)) (\<lambda>trg.
     Inr (stateName @ '' --> '' @ t_Target t @ '': **'' @ Event_String trg @ ''**'' @ [CHR 0x5C] @ ''n'' @
          concat (map send_String (t_Sends t)) @ [CHR 0x0A]))"

fun transitions_String :: "string \<Rightarrow> Transition list \<Rightarrow> string go" where
  "transitions_String stateName [] = Inr []"
| "transitions_String stateName (t # ts) =
     bindG (transition_String stateName t) (\<lambda>a. bindG (transitions_String stateName ts) (\<lambda>b. Inr (a @ b)))"

definition state_String :: "string \<times> State \<Rightarrow> string go" where
  "state_String = (\<lambda>(stateName, state).
     bindG (transitions_String stateName (s_Transitions state)) (\<lambda>ts.
     Inr (''state '' @ [CHR 0x22] @ padStr stateName @ [CHR 0x22] @ '' as '' @ stateName @ [CHR 0x0A] @ ts @
          (if s_Terminate state then stateName @ '' --> [*]'' @ [CHR 0x0A] else [CHR 0x0A]))))"

fun states_String :: "(string \<times> State) list \<Rightarrow> string go" where
  "states_String [] = Inr []"
| "states_String (s # ss) = bindG (state_String s) (\<lambda>a. bindG (states_String ss) (\<lambda>b. Inr (a @ b)))"

definition Machine_String :: "Machine \<Rightarrow> string go" where
  "Machine_String m = bindG (deref (m_Initial m)) (\<lambda>ini. bindG (states_String (m_States m)) (\<lambda>ss.
     Inr ((if m_Name m \<noteq> [] then ''title '' @ m_Name m @ [CHR 0x0A] else []) @
          ''[*] --> '' @ t_Target ini @ [CHR 0x0A] @ ss)))"

lemma length_padStr: "length s \<le> 100 \<Longrightarrow> length (padStr s) = 100"
  by (simp add: padStr_def pad_left_def pad_right_def stateWidthInChar_def)

text \<open>A shorter name is in the middle, with at most one more space on its left.\<close>

lemma padStr_middle:
  assumes "length s \<le> 100"
  shows "\<exists>l r. padStr s = replicate l (CHR '' '') @ s @ replicate r (CHR '' '') \<and> l + r + length s = 100 \<and>
    r \<le> l \<and> l \<le> Suc r"
proof -
  let ?r = "50 + length s div 2 - length s"
  let ?l = "100 - (length s + ?r)"
  have "padStr s = replicate ?l (CHR '' '') @ s @ replicate ?r (CHR '' '')"
    by (simp add: padStr_def pad_left_def pad_right_def stateWidthInChar_def)
  moreover have "?l + ?r + length s = 100" "?r \<le> ?l" "?l \<le> Suc ?r" using assms by presburger+
  ultimately show ?thesis by blast
qed

subsection \<open>The link\<close>

definition trans_rune :: "char \<Rightarrow> char" where
  "trans_rune r =
     (let c = of_char r :: nat in
      if 65 \<le> c \<and> c \<le> 74 then char_of (48 + (c - 65))
      else if 75 \<le> c \<and> c \<le> 90 then char_of (65 + (c - 75))
      else if 97 \<le> c \<and> c \<le> 106 then char_of (81 + (c - 97))
      else if 107 \<le> c \<and> c \<le> 122 then char_of (97 + (c - 107))
      else if 48 \<le> c \<and> c \<le> 57 then char_of (113 + (c - 48))
      else if r = CHR ''+'' then CHR ''-''
      else if r = CHR ''/'' then CHR ''_''
      else r)"

definition translate :: "string \<Rightarrow> string" where
  "translate b64 = map trans_rune b64"

definition GenerateURL :: "(string \<Rightarrow> string) \<Rightarrow> string \<Rightarrow> Machine \<Rightarrow> string go" where
  "GenerateURL deflate subPath m =
     bindG (Machine_String m) (\<lambda>rawPlantModel.
     let deflated = deflate rawPlantModel in
     bindG (if length deflated < 6 then Inl SliceBounds
            else Inr (drop 2 (take (length deflated - 4) deflated))) (\<lambda>body.
     Inr (''http://www.plantuml.com/plantuml/'' @ subPath @ ''/'' @ translate (b64_encode std_alphabet body))))"

text \<open>The alphabet that PlantUML documents; encoding and translating is encoding with it.\<close>

definition plant_alphabet :: string where
  "plant_alphabet = ''0123456789ABCDEFGHIJKLMNOPQRSTUVWXYZabcdefghijklmnopqrstuvwxyz-_''"

lemma translate_alphabet: "translate std_alphabet = plant_alphabet"
  by code_simp

lemma good_plant [simp]: "good_alphabet plant_alphabet"
  by code_simp

lemma translate_encode: "translate (b64_encode std_alphabet s) = b64_encode plant_alphabet s"
proof -
  have "trans_rune (std_alphabet ! d) = plant_alphabet ! d" if "d < 64" for d
  proof -
    have "length std_alphabet = 64" by code_simp
    with that have "translate std_alphabet ! d = trans_rune (std_alphabet ! d)" by (simp add: translate_def)
    then show ?thesis by (simp add: translate_alphabet)
  qed
  with encoded_digits [of s] show ?thesis by (simp add: translate_def b64_encode_def)
qed

end
