(* ===== verification/Fsm_Properties.thy ===== *)
theory Fsm_Properties
  imports Samples Fsm_Plantuml
begin

text \<open>
  The properties of the state machines of \<open>agency/fsm\<close>: loading, the choice and the effect of a
  transition, what building its events may change, the rules of the file format, and the
  substitution of links. Each is stated over the operations of the code and rests on the lemmas of
  its component.
\<close>

section \<open>Loading\<close>

text \<open>C13: A closed machine without links is initialised: triggers and events are resolved, the memory is
  empty, the current state is the target of the initial transition, the states are those of the
  file, and the result is a well-formed machine.\<close>

theorem machine_initialises:
  assumes "closed_machine m" "plain_machine m"
  shows "\<exists>m'. Initialize env m = Inr (Inr m') \<and> initialisedMachine m m' \<and> wf_machine m' \<and>
    map fst (m_States m') = map fst (m_States m)"
  using Initialize_plain [OF assms, of env] Initialize_wf [OF assms(1)] Initialize_initialised
    initialisedMachine_keys by blast

theorem machine_initialises_witness:
  "\<exists>m'. Initialize env0 ReqProofMachine = Inr (Inr m') \<and> wf_machine m'"
  using machine_initialises [of ReqProofMachine env0] ReqProof_plain by blast

section \<open>Choosing and making a transition\<close>

text \<open>C14: On a machine without Lua triggers the search for a status is the first transition of the
  current state whose trigger is enabled, in the order of the file, and it changes nothing. The
  enabling condition is a predicate of the status, the rule and the memory.\<close>

theorem first_enabled_transition:
  assumes "wf_machine m" "lua_free m" "status_ok s"
  shows "Triggers env (Some s) m = Inr (firstFound (\<lambda>trg. statusEnabled s trg (m_Memory m)) m, m)"
proof -
  from assms(1) obtain st where st: "CurrentState m = Some st" by (rule wf_machine_stateOf)
  show ?thesis by (rule Triggers_first [OF assms(1,3) st]) (rule lua_freeD [OF assms(2) st])
qed

theorem first_enabled_transition_witness:
  "Triggers env0 (Some (said ''hi'')) issuer =
     Inr (firstFound (\<lambda>trg. statusEnabled (said ''hi'') trg (m_Memory issuer)) issuer, issuer)"
  by (rule first_enabled_transition [OF issuer_wf issuer_lua_free])
    (simp add: said_def protocolStatus_def status_ok_def)



text \<open>C16: The memory is cleared at most once in the life of a machine: after the first step to the
  initial state no later step clears it, although the comment in \<open>Step\<close> says that coming back to the
  initial state clears the memory by default.\<close>

theorem memory_cleared_at_most_once:
  assumes "m_Initial m = Some t0" "f_Target f = t_Target t0" "Step f m = Inr (m1, sig)"
    and "m_KeepMemoryReported m2 = m_KeepMemoryReported m1" "Step g m2 = Inr (m3, sig')"
  shows "m_Memory m3 = m_Memory m2 \<and> m_KeepMemoryReported m3"
proof -
  from Step_Inr [OF assms(3)] assms(1,2,4) have "m_KeepMemoryReported m2" by (simp add: stepped_def)
  with Step_Inr [OF assms(5)] show ?thesis by (simp add: stepped_def clearsMemory_def)
qed

theorem memory_cleared_at_most_once_witness:
  "\<exists>m1 m3. Step \<lparr>f_place = InitialPlace, f_Target = ''A''\<rparr> endMachine = Inr (m1, False) \<and>
     Step \<lparr>f_place = InitialPlace, f_Target = ''A''\<rparr> (m1\<lparr>m_Memory := [''k'' \<mapsto> ''v'']\<rparr>) = Inr (m3, False) \<and>
     m_Memory m3 = [''k'' \<mapsto> ''v'']"
proof -
  let ?f = "\<lparr>f_place = InitialPlace, f_Target = ''A''\<rparr>"
  let ?m1 = "stepped ?f endMachine"
  let ?m2 = "?m1\<lparr>m_Memory := [''k'' \<mapsto> ''v'']\<rparr>"
  have 1: "Step ?f endMachine = Inr (?m1, False)" "Step ?f ?m2 = Inr (stepped ?f ?m2, False)"
    by (simp_all add: Step_eq stateOf_def endMachine_def mkMachine_def stepped_def)
  have i: "m_Initial endMachine = Some \<lparr>t_Trigger = None, t_Sends = [], t_Target = ''A''\<rparr>"
    by (simp add: endMachine_def mkMachine_def)
  have "m_Memory (stepped ?f ?m2) = m_Memory ?m2"
    using memory_cleared_at_most_once [OF i _ 1(1) _ 1(2)] by simp
  with 1 show ?thesis by simp
qed

section \<open>Building events\<close>

text \<open>C17: A conversation machine whose trigger for a backend message saves the session id panics: the
  input event of a conversation machine has no backend data, and the code writes through that nil
  pointer.\<close>

theorem saving_session_id_panics:
  assumes "triggerAt m p = Some trg" "e_Rule trg = TriggerTypeUseInputSaveSessionID"
    and "m_Type m = MachineTypeConversation"
  shows "BuildSendEventsFromBackendData env p (Some dp) m h = Inl NilDeref"
  using assms by (simp add: BuildSendEventsFromBackendData_def ed_basic_def EventData_zero_def Let_def)

theorem saving_session_id_panics_witness:
  "BuildSendEventsFromBackendData env0 InitialPlace (Some 0)
     (mkMachine ''m'' \<lparr>t_Trigger = Some (mkEvent ''backend'' [] ''INPUT_SAVE_SESSION_ID'' []), t_Sends = [],
        t_Target = ''A''\<rparr> []) heap0 = Inl NilDeref"
  by (rule saving_session_id_panics [where trg = "mkEvent ''backend'' [] ''INPUT_SAVE_SESSION_ID'' []"])
    (simp_all add: triggerAt_def transitionAt_def mkMachine_def mkEvent_def go_consts)

section \<open>Rules of the file format\<close>

text \<open>C18: A trigger with the rule \<open>NOT_ACCEPT_VALUES\<close> fires on a proof to verify exactly when the number of
  presented attributes differs from the number of attributes it lists, or one that it lists was not
  presented under its name and credential definition; the memory is not touched.\<close>

theorem not_accept_rule:
  assumes "q_TypeID q = Question_PROOF_VERIFY_WAITS" "e_ProtocolType e = Protocol_PRESENT_PROOF"
    and "unmarshalProofAttrs env (e_Data e) = Some vals" "q_ProofVerify q = Some attrs"
    and "e_Rule e = TriggerTypeNotAcceptValues"
  shows "Event_Answers env e q m =
    Inr (length vals \<noteq> length attrs \<or> (\<exists>v \<in> set vals. \<not> presented attrs v), m)"
  by (rule Answers_not_accept [OF assms])

theorem not_accept_rule_witness:
  "Event_Answers env0 ((mkEvent ''present_proof'' [] ''NOT_ACCEPT_VALUES'' [])\<lparr>e_ProtocolType := 3\<rparr>) proofQuestion issuer =
     Inr (False, issuer)"
  using not_accept_rule [of proofQuestion "(mkEvent ''present_proof'' [] ''NOT_ACCEPT_VALUES'' [])\<lparr>e_ProtocolType := 3\<rparr>" env0
    _ _ issuer]
  by (simp add: proofQuestion_def env0_def mkEvent_def go_consts presented_def)

text \<open>C19: A trigger with the rule \<open>ACCEPT_AND_INPUT_VALUES\<close> that lists every name once fires exactly when
  every presented attribute has a listed name, which says nothing of the credential definitions and
  does not ask that every listed name is presented. Whether it fires or not, it writes the value of
  every presented attribute that it lists to the memory.\<close>

theorem accept_rule:
  assumes "q_TypeID q = Question_PROOF_VERIFY_WAITS" "e_ProtocolType e = Protocol_PRESENT_PROOF"
    and "unmarshalProofAttrs env (e_Data e) = Some vals" "q_ProofVerify q = Some attrs"
    and "e_Rule e = TriggerTypeAcceptAndInputValues" "distinct (map pa_Name vals)"
  shows "Event_Answers env e q m =
    Inr (at_Name ` set attrs \<subseteq> pa_Name ` set vals, m\<lparr>m_Memory := acceptedValues attrs vals (m_Memory m)\<rparr>)"
  by (simp only: Answers_accept [OF assms(1-5)] accept_sum_distinct [OF assms(6)])

theorem accept_rule_witness:
  "\<exists>m'. Event_Answers env0 ((mkEvent ''present_proof'' [] ''ACCEPT_AND_INPUT_VALUES'' [])\<lparr>e_ProtocolType := 3\<rparr>)
     (proofQuestion\<lparr>q_ProofVerify := Some [\<lparr>at_Value = ''a@b'', at_Name = ''email'', at_CredDefID = ''other''\<rparr>]\<rparr>) issuer =
     Inr (True, m')"
  using accept_rule [of "proofQuestion\<lparr>q_ProofVerify := Some [\<lparr>at_Value = ''a@b'', at_Name = ''email'',
      at_CredDefID = ''other''\<rparr>]\<rparr>" "(mkEvent ''present_proof'' [] ''ACCEPT_AND_INPUT_VALUES'' [])\<lparr>e_ProtocolType := 3\<rparr>"
      env0 _ _ issuer]
  by (simp add: proofQuestion_def env0_def mkEvent_def go_consts)

text \<open>C20: The PIN that an \<open>email\<close> event with the rule \<open>GEN_PIN\<close> stores is always a number of six digits: it is never
  shorter, since the draw starts at the smallest number of six digits.\<close>

theorem pin_has_six_digits:
  assumes "draws_below env"
  shows "\<exists>p. m_Memory (GenPIN env m) PIN_REGISTER = Some p \<and> length p = 6"
proof -
  have "digitsInPIN = Suc 5" by (simp add: go_consts)
  then show ?thesis using pin_digits [OF assms, of "m_rndDraws m" 5] by (simp add: GenPIN_def)
qed

theorem pin_has_six_digits_witness:
  "\<exists>p. m_Memory (GenPIN env0 issuer) PIN_REGISTER = Some p \<and> length p = 6"
  by (rule pin_has_six_digits) (simp add: draws_below_def env0_def)

text \<open>C21: A Lua trigger whose script runs and sets no register answers with what an earlier script left:
  it fires when the register \<open>OUTPUT\<close> still holds \<open>OK\<close>, and it goes to the target left in \<open>TARGET\<close>.\<close>

theorem lua_trigger_reads_stale_registers:
  assumes "m_luaState m = Some h" "filterFilelink env (e_Data e) = Inr script"
    and "luaDo env h script ((m_Memory m)(LUA_INPUT \<mapsto> content)) = ([], True)"
    and "m_Memory m LUA_OUTPUT = Some out"
  shows "fst (ExecLua env e content [] m) = (out, mget (m_Memory m) LUA_TARGET, out = LUA_OK)"
  by (rule ExecLua_silent [OF assms])

theorem lua_trigger_reads_stale_registers_witness:
  "fst (ExecLua env0 (mkEvent ''basic_message'' [] ''LUA'' ''x = 1'') ''hi'' []
     ((InitLua issuer)\<lparr>m_Memory := [LUA_OUTPUT \<mapsto> ''OK'', LUA_TARGET \<mapsto> ''IDLE'']\<rparr>)) = (''OK'', ''IDLE'', True)"
proof -
  let ?m = "(InitLua issuer)\<lparr>m_Memory := [LUA_OUTPUT \<mapsto> ''OK'', LUA_TARGET \<mapsto> ''IDLE'']\<rparr>"
  let ?e = "mkEvent ''basic_message'' [] ''LUA'' ''x = 1''"
  have f: "filterFilelink env0 (e_Data ?e) = Inr ''x = 1''" by (simp add: mkEvent_def) code_simp
  have l: "\<exists>h. m_luaState ?m = Some h" by (simp add: InitLua_def)
  then obtain h where h: "m_luaState ?m = Some h" ..
  show ?thesis
    using lua_trigger_reads_stale_registers [OF h f, of "''hi''" "''OK''"]
    by (simp add: env0_def mget_def go_consts)
qed

section \<open>Links\<close>

text \<open>C22: With two links the text between them is lost and so is the text after the second one.\<close>

theorem two_links_lose_text:
  assumes "CHR ''$'' \<notin> set (k1 @ mid @ k2 @ post)" "CHR ''}'' \<notin> set (k1 @ k2 @ post)"
    and "getter k1 \<noteq> []" "getter k2 \<noteq> []"
  shows "filterLink (''${'' @ (k1 @ ''}'' @ mid) @ ''${'' @ (k2 @ ''}'' @ post)) ''$'' getter =
    Inr (getter k1 @ getter k2)"
  by (rule filterLink_two_links [where getter = getter, OF assms])

theorem two_links_lose_text_witness:
  "filterLink ''${A} and ${B} end'' ''$'' (\<lambda>k. if k = ''A'' then ''1'' else ''2'') = Inr ''12''"
  using two_links_lose_text [of "''A''" "'' and ''" "''B''" "'' end''"
      "\<lambda>k. if k = ''A'' then ''1'' else ''2''"] by simp

section \<open>Names and numbers\<close>

text \<open>The two tables between the protocol names of the file format and the numbers are inverse to each
  other, and the names of the machine types parse back; any other name is an error.\<close>

lemma names_round_trip:
  "(\<forall>(name, t) \<in> set ProtocolType_table. ProtocolType name = t \<and> toFileProtocolType t = name) \<and>
   (\<forall>(name, t) \<in> set machineTypeValues. ParseMachineType (MachineType_String t) = Some t \<and>
      MachineType_String t = name) \<and>
   (\<forall>name. name \<notin> fst ` set machineTypeValues \<longrightarrow> ParseMachineType name = None)"
  by (auto simp: ProtocolType_def toFileProtocolType_def ParseMachineType_def MachineType_String_def go_consts)

section \<open>The drawing\<close>

text \<open>C23: The link to the drawing of a machine carries its text: after PlantUML's address and the kind of the
  drawing comes a text in PlantUML's alphabet that decodes to the compressed text of the machine
  without the two bytes of zlib's header and the four of its checksum.\<close>

theorem plantuml_link_decodes:
  assumes "GenerateURL deflate sub m = Inr url"
  shows "\<exists>drawn coded. Machine_String m = Inr drawn \<and> url = ''http://www.plantuml.com/plantuml/'' @ sub @ ''/'' @ coded \<and>
    set coded \<subseteq> set plant_alphabet \<and>
    raw_decode plant_alphabet coded = Some (drop 2 (take (length (deflate drawn) - 4) (deflate drawn)))"
  using assms encode_alphabet [OF good_plant] raw_decode_encode [OF good_plant]
  by (auto simp: GenerateURL_def translate_encode Let_def split: if_split_asm)

theorem plantuml_link_decodes_witness:
  "\<exists>url drawn coded. GenerateURL (\<lambda>s. ''xx'' @ s @ ''yyyy'') ''svg'' endMachine = Inr url \<and>
     url = ''http://www.plantuml.com/plantuml/svg/'' @ coded \<and> Machine_String endMachine = Inr drawn \<and>
     raw_decode plant_alphabet coded = Some drawn"
proof -
  obtain drawn where drawn: "Machine_String endMachine = Inr drawn"
    by (auto simp: Machine_String_def endMachine_def mkMachine_def state_String_def transition_String_def)
  then obtain url where url: "GenerateURL (\<lambda>s. ''xx'' @ s @ ''yyyy'') ''svg'' endMachine = Inr url"
    by (simp add: GenerateURL_def)
  from plantuml_link_decodes [OF url] drawn url show ?thesis by auto
qed

end
