(* ===== verification/Db_Data.thy ===== *)
theory Db_Data
  imports Go_Prelude "HOL-Library.Word" "HOL-Library.AList"
begin

text \<open>
  The data elements of \<open>crypto/db\<close> (\<open>Data\<close>, \<open>Filter\<close> and \<open>Use\<close> of \<open>db.go\<close>), the errors and the on/off
  switch that both implementations of \<open>Handle\<close> have (\<open>handle.go\<close>), and the interface itself as a
  contract over an abstract store of buckets.
\<close>

subsection \<open>Bytes and data elements\<close>

type_synonym bytes = "8 word list"
type_synonym Filter = "bytes \<Rightarrow> bytes"

text \<open>\<open>Use\<close> returns an \<open>interface{}\<close>, of any type \<open>'u\<close>; nil is \<open>None\<close>. A nil slice is the empty one.\<close>

record 'u Data =
  d_Data :: bytes
  d_Read :: "Filter option"
  d_Write :: "Filter option"
  d_Use :: "(bytes \<Rightarrow> 'u option) option"
  d_Result :: "'u option"

definition Data_get :: "'u Data \<Rightarrow> bytes" where
  "Data_get d = (case d_Read d of None \<Rightarrow> d_Data d | Some f \<Rightarrow> f (d_Data d))"

text \<open>Go's \<open>copy\<close>: as many bytes as both slices have.\<close>

definition go_copy :: "'a list \<Rightarrow> 'a list \<Rightarrow> 'a list" where
  "go_copy dst src = take (length dst) src @ drop (length src) dst"

definition Data_set :: "bytes \<Rightarrow> 'u Data \<Rightarrow> 'u Data" where
  "Data_set b d =
     (case d_Write d of
        None \<Rightarrow>
          (case d_Use d of
             Some use \<Rightarrow> d\<lparr>d_Result := use b\<rparr>
           | None \<Rightarrow> d\<lparr>d_Data := go_copy (d_Data d) b\<rparr>)
      | Some write \<Rightarrow>
          (let d1 = d\<lparr>d_Data := write b\<rparr> in
           case d_Use d of
             Some use \<Rightarrow> d1\<lparr>d_Result := use (d_Data d1)\<rparr>
           | None \<Rightarrow> d1))"

lemma length_go_copy [simp]: "length (go_copy dst src) = length dst"
  by (simp add: go_copy_def)

lemma go_copy_same_length: "length dst = length src \<Longrightarrow> go_copy dst src = src"
  by (simp add: go_copy_def)

lemma go_copy_Nil [simp]: "go_copy [] src = []"
  by (simp add: go_copy_def)

lemma go_copy_nth:
  "i < length dst \<Longrightarrow> go_copy dst src ! i = (if i < length src then src ! i else dst ! i)"
  by (simp add: go_copy_def nth_append min_def)

lemma Data_set_write: "d_Write d = Some w \<Longrightarrow> d_Data (Data_set b d) = w b"
  by (simp add: Data_set_def Let_def split: option.split)

text \<open>Without a write filter and without a use function only the length of the placeholder arrives.\<close>

lemma Data_set_plain: "d_Write d = None \<Longrightarrow> d_Use d = None \<Longrightarrow> d_Data (Data_set b d) = go_copy (d_Data d) b"
  by (simp add: Data_set_def)

subsection \<open>The switch\<close>

text \<open>Errors of a database: it is turned off, or an error of the store or the file system.\<close>

datatype dberr = ErrDisabledDB | StoreErr string

text \<open>\<open>on\<close> is a function of the user: its \<open>i\<close>-th call may return anything. \<open>asked\<close> counts the calls.\<close>

record status =
  on :: "(nat \<Rightarrow> bool) option"
  asked :: nat

definition isOn :: "status \<Rightarrow> bool \<times> status" where
  "isOn st = (case on st of None \<Rightarrow> (True, st) | Some f \<Rightarrow> (f (asked st), st\<lparr>asked := Suc (asked st)\<rparr>))"

definition checkIsOn :: "status \<Rightarrow> dberr option \<times> status" where
  "checkIsOn st = (let (b, st') = isOn st in (if \<not> b then Some ErrDisabledDB else None, st'))"

definition always_on :: "status \<Rightarrow> bool" where
  "always_on st \<longleftrightarrow> (case on st of None \<Rightarrow> True | Some f \<Rightarrow> \<forall>i. f i)"

lemma checkIsOn_cases:
  obtains st' where "checkIsOn st = (None, st')" "on st' = on st"
  | st' where "checkIsOn st = (Some ErrDisabledDB, st')" "on st' = on st"
proof (cases "fst (isOn st)")
  case True
  with that(1) [of "snd (isOn st)"] show thesis
    by (auto simp: checkIsOn_def isOn_def Let_def split: option.split_asm)
next
  case False
  with that(2) [of "snd (isOn st)"] show thesis
    by (auto simp: checkIsOn_def isOn_def Let_def split: option.split_asm)
qed

lemma checkIsOn_always: "always_on st \<Longrightarrow> \<exists>st'. checkIsOn st = (None, st') \<and> always_on st'"
  by (auto simp: checkIsOn_def isOn_def always_on_def split: option.split)

subsection \<open>The contract of a handle\<close>

text \<open>
  What a handle stores: its buckets, each a map from keys to values. An operation returns its result
  or an error with the handle it leaves, or it panics. A successful operation does to the view what
  its name says, an error leaves the view as it was, and on a bucket that exists none of them
  panics. \<open>okKey\<close> is the restriction that an implementation has on keys and values, and \<open>valid\<close> its
  invariant.
\<close>

type_synonym view = "bytes \<Rightarrow> (bytes \<rightharpoonup> bytes) option"

type_synonym ('s, 'a) dbop = "'s \<Rightarrow> ((dberr + 'a) \<times> 's) go"

definition transformed :: "Filter list \<Rightarrow> bytes \<Rightarrow> bytes" where
  "transformed ts v = foldl (\<lambda>r t. t r) v ts"

text \<open>The result of one operation on a bucket that holds \<open>m\<close>, as the interface promises it.\<close>

definition kv_result :: "('s \<Rightarrow> bool) \<Rightarrow> ('s \<Rightarrow> view) \<Rightarrow> 's \<Rightarrow> ((dberr + 'a) \<times> 's) go \<Rightarrow> view \<Rightarrow>
    ('a \<Rightarrow> bool) \<Rightarrow> bool" where
  "kv_result valid vw s r v' P \<longleftrightarrow>
     (\<exists>res s'. r = Inr (res, s') \<and> valid s' \<and>
        (case res of Inl e \<Rightarrow> vw s' = vw s | Inr x \<Rightarrow> vw s' = v' \<and> P x))"

text \<open>Operations as data, and what a run of them does to an abstract store.\<close>

datatype 'u kvop =
    OpAdd bytes "'u Data" "'u Data"
  | OpRm bytes "'u Data"
  | OpGet bytes "'u Data" "'u Data"

datatype 'u kvres = RDone | RGot bool "'u Data" | RErr dberr

fun op_bucket :: "'u kvop \<Rightarrow> bytes" where
  "op_bucket (OpAdd b _ _) = b"
| "op_bucket (OpRm b _) = b"
| "op_bucket (OpGet b _ _) = b"

text \<open>One operation on the abstract store; \<open>None\<close> is a bucket that does not exist.\<close>

fun spec_op :: "'u kvop \<Rightarrow> view \<Rightarrow> ('u kvres \<times> view) option" where
  "spec_op (OpAdd b kv ix) v =
     map_option (\<lambda>m. (RDone, v(b \<mapsto> m(Data_get ix \<mapsto> Data_get kv)))) (v b)"
| "spec_op (OpRm b ix) v = map_option (\<lambda>m. (RDone, v(b \<mapsto> m(Data_get ix := None)))) (v b)"
| "spec_op (OpGet b ix kv) v =
     map_option (\<lambda>m. ((case m (Data_get ix) of None \<Rightarrow> RGot False kv | Some x \<Rightarrow> RGot True (Data_set x kv)), v)) (v b)"

text \<open>A run in which any operation may also fail, with an error and without an effect.\<close>

fun spec_run :: "'u kvop list \<Rightarrow> 'u kvres list \<Rightarrow> view \<Rightarrow> view \<Rightarrow> bool" where
  "spec_run [] [] v v' \<longleftrightarrow> v' = v"
| "spec_run (p # ps) (r # rs) v v' \<longleftrightarrow>
     ((\<exists>e. r = RErr e) \<and> spec_run ps rs v v') \<or>
     (\<exists>v1. spec_op p v = Some (r, v1) \<and> spec_run ps rs v1 v')"
| "spec_run _ _ _ _ \<longleftrightarrow> False"

text \<open>A run of operations on an implementation, and the operations that the contract covers.\<close>

definition run_op :: "(bytes \<Rightarrow> 'u Data \<Rightarrow> 'u Data \<Rightarrow> ('s, unit) dbop) \<Rightarrow> (bytes \<Rightarrow> 'u Data \<Rightarrow> ('s, unit) dbop) \<Rightarrow>
    (bytes \<Rightarrow> 'u Data \<Rightarrow> 'u Data \<Rightarrow> ('s, bool \<times> 'u Data) dbop) \<Rightarrow> 'u kvop \<Rightarrow> 's \<Rightarrow> ('u kvres \<times> 's) go" where
  "run_op add rm fetch p s =
     (case p of
        OpAdd b kv ix \<Rightarrow> bindG (add b kv ix s) (\<lambda>(r, s'). Inr (case r of Inl e \<Rightarrow> RErr e | Inr _ \<Rightarrow> RDone, s'))
      | OpRm b ix \<Rightarrow> bindG (rm b ix s) (\<lambda>(r, s'). Inr (case r of Inl e \<Rightarrow> RErr e | Inr _ \<Rightarrow> RDone, s'))
      | OpGet b ix kv \<Rightarrow> bindG (fetch b ix kv s) (\<lambda>(r, s'). Inr (case r of Inl e \<Rightarrow> RErr e
          | Inr (f, d) \<Rightarrow> RGot f d, s')))"

fun run_ops :: "(bytes \<Rightarrow> 'u Data \<Rightarrow> 'u Data \<Rightarrow> ('s, unit) dbop) \<Rightarrow> (bytes \<Rightarrow> 'u Data \<Rightarrow> ('s, unit) dbop) \<Rightarrow>
    (bytes \<Rightarrow> 'u Data \<Rightarrow> 'u Data \<Rightarrow> ('s, bool \<times> 'u Data) dbop) \<Rightarrow> 'u kvop list \<Rightarrow> 's \<Rightarrow>
    ('u kvres list \<times> 's) go" where
  "run_ops add rm fetch [] s = Inr ([], s)"
| "run_ops add rm fetch (p # ps) s =
     bindG (run_op add rm fetch p s) (\<lambda>(r, s1).
     bindG (run_ops add rm fetch ps s1) (\<lambda>(rs, s2). Inr (r # rs, s2)))"

definition op_ok :: "(bytes \<Rightarrow> bytes \<Rightarrow> bool) \<Rightarrow> view \<Rightarrow> 'u kvop \<Rightarrow> bool" where
  "op_ok keyOk v p \<longleftrightarrow> v (op_bucket p) \<noteq> None \<and>
     (case p of OpAdd b kv ix \<Rightarrow> keyOk (Data_get ix) (Data_get kv) | _ \<Rightarrow> True)"

lemma kv_resultE:
  assumes "kv_result valid vw s r v' P"
  obtains e s' where "r = Inr (Inl e, s')" "valid s'" "vw s' = vw s"
  | x s' where "r = Inr (Inr x, s')" "valid s'" "vw s' = v'" "P x"
proof -
  from assms obtain res s' where r: "r = Inr (res, s')" "valid s'"
    "case res of Inl e \<Rightarrow> vw s' = vw s | Inr x \<Rightarrow> vw s' = v' \<and> P x"
    unfolding kv_result_def by blast
  show thesis
  proof (cases res)
    case (Inl e)
    with r that(1) show thesis by simp
  next
    case (Inr x)
    with r that(2) show thesis by simp
  qed
qed

locale kv_handle =
  fixes add :: "bytes \<Rightarrow> 'u Data \<Rightarrow> 'u Data \<Rightarrow> ('s, unit) dbop"
    and rm :: "bytes \<Rightarrow> 'u Data \<Rightarrow> ('s, unit) dbop"
    and fetch :: "bytes \<Rightarrow> 'u Data \<Rightarrow> 'u Data \<Rightarrow> ('s, bool \<times> 'u Data) dbop"
    and fetch_all :: "bytes \<Rightarrow> Filter list \<Rightarrow> ('s, bytes list) dbop"
    and vw :: "'s \<Rightarrow> view"
    and valid :: "'s \<Rightarrow> bool"
    and okKey :: "bytes \<Rightarrow> bytes \<Rightarrow> bool"
  assumes add_spec: "valid s \<Longrightarrow> vw s b = Some m \<Longrightarrow> okKey (Data_get ix) (Data_get kv) \<Longrightarrow>
      kv_result valid vw s (add b kv ix s) ((vw s)(b \<mapsto> m(Data_get ix \<mapsto> Data_get kv))) (\<lambda>_. True)"
    and rm_spec: "valid s \<Longrightarrow> vw s b = Some m \<Longrightarrow>
      kv_result valid vw s (rm b ix s) ((vw s)(b \<mapsto> m(Data_get ix := None))) (\<lambda>_. True)"
    and fetch_spec: "valid s \<Longrightarrow> vw s b = Some m \<Longrightarrow>
      kv_result valid vw s (fetch b ix kv s) (vw s) (\<lambda>r. r =
        (case m (Data_get ix) of None \<Rightarrow> (False, kv) | Some v \<Rightarrow> (True, Data_set v kv)))"
    and fetch_all_spec: "valid s \<Longrightarrow> vw s b = Some m \<Longrightarrow>
      kv_result valid vw s (fetch_all b ts s) (vw s) (\<lambda>vs. \<exists>ks. distinct ks \<and> set ks = dom m \<and>
        vs = map (\<lambda>k. transformed ts (the (m k))) ks)"
begin

text \<open>What is written is read, what is removed is gone, and other keys and buckets are left alone.\<close>

lemma read_back:
  assumes "valid s" "vw s b = Some m" "okKey (Data_get ix) (Data_get kv)"
    and "add b kv ix s = Inr (Inr (), s1)" "fetch b ix kv' s1 = Inr (Inr r, s2)"
  shows "r = (True, Data_set (Data_get kv) kv')"
proof -
  from add_spec [OF assms(1-3)] assms(4)
  have "valid s1" "vw s1 b = Some (m(Data_get ix \<mapsto> Data_get kv))" by (auto simp: kv_result_def)
  from fetch_spec [OF this, of ix kv'] assms(5) show ?thesis by (auto simp: kv_result_def)
qed

text \<open>Encrypted on the way in, decrypted on the way out.\<close>

lemma read_back_decoded:
  assumes "valid s" "vw s b = Some m" "okKey (Data_get ix) (Data_get kv)"
    and "add b kv ix s = Inr (Inr (), s1)" "fetch b ix kv' s1 = Inr (Inr (found, kv''), s2)"
    and "d_Read kv = Some enc" "d_Write kv' = Some dec" "dec (enc (d_Data kv)) = d_Data kv"
  shows "found \<and> d_Data kv'' = d_Data kv"
  using read_back [OF assms(1-5)] assms(6-8) by (simp add: Data_set_write Data_get_def)

lemma removed_gone:
  assumes "valid s" "vw s b = Some m" "rm b ix s = Inr (Inr (), s1)" "fetch b ix kv s1 = Inr (Inr r, s2)"
  shows "r = (False, kv)"
proof -
  from rm_spec [OF assms(1,2), of ix] assms(3) have "valid s1" "vw s1 b = Some (m(Data_get ix := None))"
    by (auto simp: kv_result_def)
  from fetch_spec [OF this, of ix kv] assms(4) show ?thesis by (auto simp: kv_result_def)
qed

lemma other_key_kept:
  assumes "valid s" "vw s b = Some m" "okKey (Data_get ix) (Data_get kv)"
    and "add b kv ix s = Inr (res, s1)" "Data_get ix' \<noteq> Data_get ix" "fetch b ix' kv' s1 = Inr (Inr r, s2)"
  shows "r = (case m (Data_get ix') of None \<Rightarrow> (False, kv') | Some v \<Rightarrow> (True, Data_set v kv'))"
proof -
  from add_spec [OF assms(1-3)] assms(2,4,5) obtain m' where
    "valid s1" "vw s1 b = Some m'" "m' (Data_get ix') = m (Data_get ix')"
    by (cases res) (auto simp: kv_result_def)
  with fetch_spec [OF this(1,2), of ix' kv'] assms(6) show ?thesis by (auto simp: kv_result_def)
qed

text \<open>
  Refinement: a run of any operations on existing buckets returns, its results are those of the
  abstract store, where an operation may also fail without an effect, and the views agree at the end.
\<close>

lemma run_op_spec:
  assumes "valid s" "op_ok okKey (vw s) p"
  shows "\<exists>r s'. run_op add rm fetch p s = Inr (r, s') \<and> valid s' \<and> dom (vw s') = dom (vw s) \<and>
    ((\<exists>e. r = RErr e) \<and> vw s' = vw s \<or> spec_op p (vw s) = Some (r, vw s'))"
proof (cases p)
  case (OpAdd b kv ix)
  with assms(2) obtain m where m: "vw s b = Some m" "okKey (Data_get ix) (Data_get kv)"
    by (auto simp: op_ok_def)
  from add_spec [OF assms(1) m] show ?thesis
    by (rule kv_resultE) (use OpAdd m in \<open>auto simp: run_op_def\<close>)
next
  case (OpRm b ix)
  with assms(2) obtain m where m: "vw s b = Some m" by (auto simp: op_ok_def)
  from rm_spec [OF assms(1) m, of ix] show ?thesis
    by (rule kv_resultE) (use OpRm m in \<open>auto simp: run_op_def\<close>)
next
  case (OpGet b ix kv)
  with assms(2) obtain m where m: "vw s b = Some m" by (auto simp: op_ok_def)
  from fetch_spec [OF assms(1) m, of ix kv] show ?thesis
    by (rule kv_resultE) (use OpGet m in \<open>auto simp: run_op_def split: option.split\<close>)
qed

lemma run_ops_refine:
  assumes "valid s" "\<forall>p \<in> set ps. op_ok okKey (vw s) p"
  shows "\<exists>rs s'. run_ops add rm fetch ps s = Inr (rs, s') \<and> valid s' \<and> spec_run ps rs (vw s) (vw s')"
  using assms
proof (induction ps arbitrary: s)
  case Nil
  then show ?case by simp
next
  case (Cons p ps)
  from run_op_spec [OF Cons.prems(1), of p] Cons.prems(2) obtain r s1 where
    r: "run_op add rm fetch p s = Inr (r, s1)" "valid s1" "dom (vw s1) = dom (vw s)"
    "(\<exists>e. r = RErr e) \<and> vw s1 = vw s \<or> spec_op p (vw s) = Some (r, vw s1)" by auto
  have "\<forall>p \<in> set ps. op_ok okKey (vw s1) p"
    using Cons.prems(2) r(3) by (force simp: op_ok_def)
  from Cons.IH [OF r(2) this] obtain rs s' where
    "run_ops add rm fetch ps s1 = Inr (rs, s')" "valid s'" "spec_run ps rs (vw s1) (vw s')" by blast
  with r show ?case by auto
qed

end

end
