(* ===== verification/Db_Files.thy ===== *)
theory Db_Files
  imports Db_Data
begin

text \<open>
  File names and file copies: what the database uses of \<open>path/filepath\<close>, and the package \<open>backup\<close>
  (\<open>backup/backup.go\<close>). The file system is a record of functions over a state of any type.
\<close>

subsection \<open>Paths\<close>

definition slash :: char where
  "slash = CHR ''/''"

definition filepath_Split :: "string \<Rightarrow> string \<times> string" where
  "filepath_Split path =
     (let file = rev (takeWhile (\<lambda>c. c \<noteq> slash) (rev path))
      in (take (length path - length file) path, file))"

definition filepath_Base :: "string \<Rightarrow> string" where
  "filepath_Base path =
     (if path = [] then ''.''
      else
        (let stripped = rev (dropWhile (\<lambda>c. c = slash) (rev path));
             base = snd (filepath_Split stripped)
         in if base = [] then ''/'' else base))"

text \<open>\<open>filepath.Clean\<close>: the elements that are left, last one first.\<close>

definition clean_step :: "bool \<Rightarrow> string list \<Rightarrow> string \<Rightarrow> string list" where
  "clean_step rooted out elem =
     (if elem = [] \<or> elem = ''.'' then out
      else if elem = ''..'' then
        (case out of
           e1 # rest \<Rightarrow> if e1 \<noteq> ''..'' then rest else elem # out
         | [] \<Rightarrow> if rooted then [] else [elem])
      else elem # out)"

definition filepath_Clean :: "string \<Rightarrow> string" where
  "filepath_Clean path =
     (if path = [] then ''.''
      else
        (let rooted = (hd path = slash);
             out = rev (foldl (clean_step rooted) [] (strings_Split path ''/''))
         in if rooted then ''/'' @ join ''/'' out
            else if out = [] then ''.'' else join ''/'' out))"

definition filepath_Join :: "string \<Rightarrow> string \<Rightarrow> string" where
  "filepath_Join dir file =
     (if dir \<noteq> [] then filepath_Clean (dir @ ''/'' @ file)
      else if file \<noteq> [] then filepath_Clean file
      else [])"

definition PrefixName :: "string \<Rightarrow> string \<Rightarrow> string" where
  "PrefixName pre name = (let (dir, base) = filepath_Split name in filepath_Join dir (pre @ ''_'' @ base))"

lemma slash_Split: "slash \<notin> set (snd (filepath_Split path))"
  by (auto simp: filepath_Split_def Let_def dest: set_takeWhileD)

lemma filepath_Split_eq: "fst (filepath_Split path) @ snd (filepath_Split path) = path"
proof -
  have "rev (takeWhile P (rev path)) = drop (length path - length (takeWhile P (rev path))) path" for P
    by (metis append_take_drop_id length_rev rev_append rev_rev_ident rev_swap takeWhile_eq_take take_rev)
  then show ?thesis by (simp add: filepath_Split_def Let_def)
qed

lemma filepath_Split_last:
  assumes "slash \<notin> set f" "d = [] \<or> last d = slash"
  shows "filepath_Split (d @ f) = (d, f)"
proof -
  have "takeWhile (\<lambda>c. c \<noteq> slash) (rev f @ rev d) = rev f"
  proof (cases d rule: rev_cases)
    case Nil
    with assms(1) show ?thesis by (auto simp: takeWhile_eq_all_conv)
  next
    case (snoc ds c)
    with assms have "c = slash" by simp
    have "\<forall>x \<in> set (rev f). x \<noteq> slash" using assms(1) by auto
    then have "takeWhile (\<lambda>c. c \<noteq> slash) (rev f @ rev d) = rev f @ takeWhile (\<lambda>c. c \<noteq> slash) (rev d)"
      using takeWhile_append2 [of "rev f" "\<lambda>c. c \<noteq> slash" "rev d"] by simp
    with snoc \<open>c = slash\<close> show ?thesis by simp
  qed
  then show ?thesis by (simp add: filepath_Split_def Let_def)
qed

lemma splitAux_slash:
  "slash \<notin> set c \<Longrightarrow> splitAux ''/'' acc (a @ ''/'' @ c) = splitAux ''/'' acc a @ [c]"
proof (induction a arbitrary: acc)
  case Nil
  have "\<not> sublist ''/'' c" using Nil by (auto simp: slash_def dest: set_mono_sublist)
  then show ?case by (simp add: splitAux_no_sep)
next
  case (Cons x a)
  show ?case
  proof (cases "x = CHR ''/''")
    case True
    from Cons.IH [OF Cons.prems, of "[]"] show ?thesis unfolding True by simp
  next
    case False
    with Cons.IH [OF Cons.prems, of "x # acc"] show ?thesis by auto
  qed
qed

lemma split_slash:
  "slash \<notin> set c \<Longrightarrow> strings_Split (a @ ''/'' @ c) ''/'' = strings_Split a ''/'' @ [c]"
  unfolding strings_Split_def by (rule splitAux_slash)

lemma split_no_slash: "slash \<notin> set c \<Longrightarrow> strings_Split c ''/'' = [c]"
  by (rule split_no_sep) (auto simp: contains_def slash_def dest: set_mono_sublist)

text \<open>A path that ends in a proper file name keeps that name when it is cleaned.\<close>

definition proper :: "string \<Rightarrow> bool" where
  "proper c \<longleftrightarrow> slash \<notin> set c \<and> c \<notin> {[], ''.'', ''..''}"

lemma clean_step_proper: "proper c \<Longrightarrow> clean_step r out c = c # out"
  by (simp add: clean_step_def proper_def)

lemma join_snoc: "\<exists>d. join ''/'' (out @ [c]) = d @ c \<and> (d = [] \<or> last d = slash)"
proof (induction out)
  case Nil
  then show ?case by (simp add: join_def)
next
  case (Cons x out)
  then obtain d where d: "join ''/'' (out @ [c]) = d @ c" "d = [] \<or> last d = slash" by blast
  then show ?case
    by (intro exI [of _ "x @ ''/'' @ d"]) (auto simp: join_Cons_ne slash_def)
qed

lemma Clean_proper:
  assumes "strings_Split path ''/'' = es @ [c]" "proper c" "path \<noteq> []"
  shows "snd (filepath_Split (filepath_Clean path)) = c"
proof -
  let ?out = "rev (foldl (clean_step (hd path = slash)) [] es)"
  have out: "rev (foldl (clean_step (hd path = slash)) [] (strings_Split path ''/'')) = ?out @ [c]"
    using assms by (simp add: clean_step_proper)
  obtain d where d: "join ''/'' (?out @ [c]) = d @ c" "d = [] \<or> last d = slash" using join_snoc by blast
  have c: "slash \<notin> set c" using assms(2) by (simp add: proper_def)
  show ?thesis
  proof (cases "hd path = slash")
    case True
    with d assms(3) out have "filepath_Clean path = (''/'' @ d) @ c" by (simp add: filepath_Clean_def)
    moreover have "last (''/'' @ d) = slash" using d by (auto simp: slash_def)
    ultimately show ?thesis using filepath_Split_last [OF c, of "''/'' @ d"] by simp
  next
    case False
    with d assms(3) out have "filepath_Clean path = d @ c" by (simp add: filepath_Clean_def)
    with filepath_Split_last [OF c d(2)] show ?thesis by simp
  qed
qed

lemma PrefixName_file:
  assumes "slash \<notin> set pre"
  shows "snd (filepath_Split (PrefixName pre name)) = pre @ ''_'' @ snd (filepath_Split name)"
proof -
  obtain dir base where n: "filepath_Split name = (dir, base)" by fastforce
  let ?c = "pre @ ''_'' @ base"
  have "slash \<notin> set base" using slash_Split [of name] n by simp
  with assms have c: "proper ?c" by (auto simp: proper_def slash_def Cons_eq_append_conv append_eq_Cons_conv)
  then have s: "slash \<notin> set ?c" by (simp add: proper_def)
  show ?thesis
  proof (cases "dir = []")
    case True
    with Clean_proper [of ?c "[]" ?c] c split_no_slash [OF s] n show ?thesis
      by (simp add: PrefixName_def filepath_Join_def)
  next
    case False
    with Clean_proper [of "dir @ ''/'' @ ?c" "strings_Split dir ''/''" ?c] c split_slash [OF s, of dir] n
    show ?thesis by (simp add: PrefixName_def filepath_Join_def)
  qed
qed

subsection \<open>Copying a file\<close>

text \<open>The operations on files that the sources call, with the text of their error.\<close>

record 'w fs =
  os_Open :: "string \<Rightarrow> 'w \<Rightarrow> string option"
  os_Create :: "string \<Rightarrow> 'w \<Rightarrow> string option \<times> 'w"
  io_Copy :: "string \<Rightarrow> string \<Rightarrow> 'w \<Rightarrow> string option \<times> 'w"
  os_Remove :: "string \<Rightarrow> 'w \<Rightarrow> 'w"
  os_RemoveAll :: "string \<Rightarrow> 'w \<Rightarrow> string option \<times> 'w"
  nowRFC3339 :: "'w \<Rightarrow> string"

definition FileCopy :: "'w fs \<Rightarrow> string \<Rightarrow> string \<Rightarrow> 'w \<Rightarrow> string option \<times> 'w" where
  "FileCopy fs src dst w =
     (case os_Open fs src w of
        Some e \<Rightarrow> (Some e, w)
      | None \<Rightarrow>
          (case os_Create fs dst w of
             (Some e, w1) \<Rightarrow> (Some e, w1)
           | (None, w1) \<Rightarrow>
               (case io_Copy fs src dst w1 of
                  (Some e, w2) \<Rightarrow> (Some e, os_Remove fs dst w2)
                | (None, w2) \<Rightarrow> (None, w2))))"

end
