(* ===== verification/Db_Managed.thy ===== *)
theory Db_Managed
  imports Db_Files
begin

text \<open>
  The managed database (\<open>Mgd\<close> of \<open>crypto/db/db.go\<close>): it opens its Bolt file when an operation needs
  it, closes it for a backup, and copies the file only when something was done since the last one.
  Bolt is a package outside the repository: its calls are a record of functions over the state of
  the disk and over transactions. Every operation holds the lock of the database, so it is one step.
\<close>

subsection \<open>State\<close>

record Cfg =
  c_Filename :: string
  c_BackupName :: string
  c_Buckets :: "bytes list"

text \<open>\<open>g_bdb\<close>: whether \<open>bdb\<close> is not nil.\<close>

record Mgd =
  g_Cfg :: Cfg
  g_bdb :: bool
  g_dirty :: bool
  g_status :: status

text \<open>
  The calls of Bolt. An update runs a function on a transaction and commits what it returns, or
  reports its error; a view runs a function that only reads. Reading a bucket that does not exist
  yields nil, which is \<open>tx_Bucket\<close> being false.
\<close>

record ('w, 't) bolt =
  bo_Open :: "string \<Rightarrow> 'w \<Rightarrow> string option \<times> 'w"
  bo_Close :: "string \<Rightarrow> 'w \<Rightarrow> string option \<times> 'w"
  bo_Update :: "string \<Rightarrow> ('t \<Rightarrow> (string + 't) go) \<Rightarrow> 'w \<Rightarrow> (string option \<times> 'w) go"
  bo_View :: "string \<Rightarrow> ('t \<Rightarrow> (string + bytes list) go) \<Rightarrow> 'w \<Rightarrow> (string + bytes list) go"
  tx_Bucket :: "'t \<Rightarrow> bytes \<Rightarrow> bool"
  tx_CreateBucketIfNotExists :: "bytes \<Rightarrow> 't \<Rightarrow> string + 't"
  tx_Put :: "bytes \<Rightarrow> bytes \<Rightarrow> bytes \<Rightarrow> 't \<Rightarrow> string + 't"
  tx_Delete :: "bytes \<Rightarrow> bytes \<Rightarrow> 't \<Rightarrow> string + 't"
  tx_Get :: "bytes \<Rightarrow> bytes \<Rightarrow> 't \<Rightarrow> bytes option"
  tx_ForEach :: "bytes \<Rightarrow> 't \<Rightarrow> (bytes \<times> bytes) list"

definition Mgd_checkIsOn :: "Mgd \<Rightarrow> dberr option \<times> Mgd" where
  "Mgd_checkIsOn g = (let (e, st) = checkIsOn (g_status g) in (e, g\<lparr>g_status := st\<rparr>))"

subsection \<open>Opening and closing\<close>

fun create_buckets :: "('w, 't) bolt \<Rightarrow> bytes list \<Rightarrow> 't \<Rightarrow> string + 't" where
  "create_buckets bo [] t = Inr t"
| "create_buckets bo (b # bs) t =
     (case tx_CreateBucketIfNotExists bo b t of Inl e \<Rightarrow> Inl e | Inr t' \<Rightarrow> create_buckets bo bs t')"

text \<open>The file is open from \<open>bolt.Open\<close> on, also when the buckets cannot be created.\<close>

definition Mgd_open :: "('w, 't) bolt \<Rightarrow> (Mgd \<times> 'w, unit) dbop" where
  "Mgd_open bo = (\<lambda>(g, w).
     let (e, g1) = Mgd_checkIsOn g in
     case e of
       Some e \<Rightarrow> Inr (Inl e, g1, w)
     | None \<Rightarrow>
         (case bo_Open bo (c_Filename (g_Cfg g1)) w of
            (Some e, w1) \<Rightarrow> Inr (Inl (StoreErr e), g1, w1)
          | (None, w1) \<Rightarrow>
              (let g2 = g1\<lparr>g_bdb := True\<rparr> in
               bindG (bo_Update bo (c_Filename (g_Cfg g2)) (\<lambda>t. Inr (create_buckets bo (c_Buckets (g_Cfg g2)) t)) w1)
                 (\<lambda>(e, w2). case e of
                    Some e \<Rightarrow> Inr (Inl (StoreErr e), g2, w2)
                  | None \<Rightarrow> Inr (Inr (), g2, w2)))))"

definition Mgd_close :: "('w, 't) bolt \<Rightarrow> Mgd \<times> 'w \<Rightarrow> dberr option \<times> Mgd \<times> 'w" where
  "Mgd_close bo = (\<lambda>(g, w).
     case bo_Close bo (c_Filename (g_Cfg g)) w of
       (Some e, w1) \<Rightarrow> (Some (StoreErr e), g, w1)
     | (None, w1) \<Rightarrow> (None, g\<lparr>g_bdb := False\<rparr>, w1))"

subsection \<open>Operations\<close>

definition operate ::
  "('w, 't) bolt \<Rightarrow> (string \<Rightarrow> 'w \<Rightarrow> ((dberr + 'a) \<times> 'w) go) \<Rightarrow> (Mgd \<times> 'w, 'a) dbop" where
  "operate bo f = (\<lambda>(g, w).
     let (e, g1) = Mgd_checkIsOn g in
     case e of
       Some e \<Rightarrow> Inr (Inl e, g1, w)
     | None \<Rightarrow>
         (let g2 = g1\<lparr>g_dirty := True\<rparr> in
          bindG (if \<not> g_bdb g2 then Mgd_open bo (g2, w) else Inr (Inr (), g2, w)) (\<lambda>(r, g3, w3).
          case r of
            Inl e \<Rightarrow> Inr (Inl e, g3, w3)
          | Inr _ \<Rightarrow> bindG (f (c_Filename (g_Cfg g3)) w3) (\<lambda>(r, w4). Inr (r, g3, w4)))))"

text \<open>
  A write. The function that \<open>operate\<close> runs has a handler of its own, which takes the error of the
  update and writes it to the result variable of the enclosing method; the function itself returns
  nil, and the method then returns what \<open>operate\<close> returns. So the error of the update is lost.
\<close>

definition write_fn :: "('w, 't) bolt \<Rightarrow> ('t \<Rightarrow> (string + 't) go) \<Rightarrow> string \<Rightarrow> 'w \<Rightarrow>
    ((dberr + unit) \<times> 'w) go" where
  "write_fn bo f fn w = bindG (bo_Update bo fn f w) (\<lambda>(_, w'). Inr (Inr (), w'))"

definition Mgd_AddKeyValueToBucket :: "('w, 't) bolt \<Rightarrow> bytes \<Rightarrow> 'u Data \<Rightarrow> 'u Data \<Rightarrow>
    (Mgd \<times> 'w, unit) dbop" where
  "Mgd_AddKeyValueToBucket bo bucket keyValue index =
     operate bo (write_fn bo (\<lambda>t.
       if \<not> tx_Bucket bo t bucket then Inl NilDeref
       else Inr (tx_Put bo bucket (Data_get index) (Data_get keyValue) t)))"

definition Mgd_RmKeyValueFromBucket :: "('w, 't) bolt \<Rightarrow> bytes \<Rightarrow> 'u Data \<Rightarrow> (Mgd \<times> 'w, unit) dbop" where
  "Mgd_RmKeyValueFromBucket bo bucket index =
     operate bo (write_fn bo (\<lambda>t.
       if \<not> tx_Bucket bo t bucket then Inl NilDeref
       else Inr (tx_Delete bo bucket (Data_get index) t)))"

text \<open>A read. What the function of the view finds is the list of the values it sets or appends.\<close>

definition read_fn :: "('w, 't) bolt \<Rightarrow> ('t \<Rightarrow> (string + bytes list) go) \<Rightarrow> string \<Rightarrow> 'w \<Rightarrow>
    ((dberr + bytes list) \<times> 'w) go" where
  "read_fn bo f fn w = bindG (bo_View bo fn f w) (\<lambda>r.
     Inr (case r of Inl e \<Rightarrow> Inl (StoreErr e) | Inr vs \<Rightarrow> Inr vs, w))"

definition map_result :: "('a \<Rightarrow> 'b) \<Rightarrow> ((dberr + 'a) \<times> 's) go \<Rightarrow> ((dberr + 'b) \<times> 's) go" where
  "map_result f r = bindG r (\<lambda>(r, s). Inr (case r of Inl e \<Rightarrow> Inl e | Inr x \<Rightarrow> Inr (f x), s))"

definition Mgd_GetKeyValueFromBucket :: "('w, 't) bolt \<Rightarrow> bytes \<Rightarrow> 'u Data \<Rightarrow> 'u Data \<Rightarrow>
    (Mgd \<times> 'w, bool \<times> 'u Data) dbop" where
  "Mgd_GetKeyValueFromBucket bo bucket index keyValue s =
     map_result (\<lambda>vs. case vs of [] \<Rightarrow> (False, keyValue) | d # _ \<Rightarrow> (True, Data_set d keyValue))
       (operate bo (read_fn bo (\<lambda>t.
          if \<not> tx_Bucket bo t bucket then Inl NilDeref
          else (case tx_Get bo bucket (Data_get index) t of
                  None \<Rightarrow> Inr (Inr [])
                | Some d \<Rightarrow> Inr (Inr [d])))) s)"

definition Mgd_GetAllValuesFromBucket :: "('w, 't) bolt \<Rightarrow> bytes \<Rightarrow> Filter list \<Rightarrow>
    (Mgd \<times> 'w, bytes list) dbop" where
  "Mgd_GetAllValuesFromBucket bo bucket transforms =
     operate bo (read_fn bo (\<lambda>t.
       if \<not> tx_Bucket bo t bucket then Inl NilDeref
       else Inr (Inr (map (\<lambda>(_, v). transformed transforms v) (tx_ForEach bo bucket t)))))"

definition backupName :: "'w fs \<Rightarrow> Mgd \<Rightarrow> 'w \<Rightarrow> string" where
  "backupName fs g w = PrefixName (nowRFC3339 fs w) (c_BackupName (g_Cfg g))"

definition Mgd_Backup :: "('w, 't) bolt \<Rightarrow> 'w fs \<Rightarrow> (Mgd \<times> 'w, bool) dbop" where
  "Mgd_Backup bo fs = (\<lambda>(g, w).
     let (e, g1) = Mgd_checkIsOn g in
     case e of
       Some e \<Rightarrow> Inr (Inl e, g1, w)
     | None \<Rightarrow>
         if \<not> g_dirty g1 then Inr (Inr False, g1, w)
         else
           (case (if g_bdb g1 then Mgd_close bo (g1, w) else (None, g1, w)) of
              (Some e, g2, w2) \<Rightarrow> Inr (Inl e, g2, w2)
            | (None, g2, w2) \<Rightarrow>
                (case FileCopy fs (c_Filename (g_Cfg g2)) (backupName fs g2 w2) w2 of
                   (Some e, w3) \<Rightarrow> Inr (Inl (StoreErr e), g2, w3)
                 | (None, w3) \<Rightarrow> Inr (Inr True, g2\<lparr>g_dirty := False\<rparr>, w3))))"

text \<open>A tick of the backup ticker: errors are logged.\<close>

definition backup_tick :: "('w, 't) bolt \<Rightarrow> 'w fs \<Rightarrow> Mgd \<times> 'w \<Rightarrow> (Mgd \<times> 'w) go" where
  "backup_tick bo fs s = bindG (Mgd_Backup bo fs s) (\<lambda>(_, s'). Inr s')"

definition Mgd_Wipe :: "('w, 't) bolt \<Rightarrow> 'w fs \<Rightarrow> (Mgd \<times> 'w, unit) dbop" where
  "Mgd_Wipe bo fs = (\<lambda>(g, w).
     let (e, g1) = Mgd_checkIsOn g in
     case e of
       Some e \<Rightarrow> Inr (Inl e, g1, w)
     | None \<Rightarrow>
         (case (if g_bdb g1 then Mgd_close bo (g1, w) else (None, g1, w)) of
            (Some e, g2, w2) \<Rightarrow> Inr (Inl e, g2, w2)
          | (None, g2, w2) \<Rightarrow>
              (case os_RemoveAll fs (c_Filename (g_Cfg g2)) w2 of
                 (Some e, w3) \<Rightarrow> Inr (Inl (StoreErr e), g2, w3)
               | (None, w3) \<Rightarrow> Inr (Inr (), g2, w3))))"

definition Mgd_Close :: "('w, 't) bolt \<Rightarrow> (Mgd \<times> 'w, unit) dbop" where
  "Mgd_Close bo = (\<lambda>(g, w).
     if g_bdb g then
       (case Mgd_close bo (g, w) of (Some e, g1, w1) \<Rightarrow> Inr (Inl e, g1, w1)
        | (None, g1, w1) \<Rightarrow> Inr (Inr (), g1, w1))
     else Inr (Inr (), g, w))"

definition Mgd_SetStatusFn :: "(nat \<Rightarrow> bool) option \<Rightarrow> Mgd \<Rightarrow> Mgd" where
  "Mgd_SetStatusFn f g = g\<lparr>g_status := (g_status g)\<lparr>on := f\<rparr>\<rparr>"

lemma Mgd_checkIsOn_cases:
  obtains g' where "Mgd_checkIsOn g = (None, g')" "g_Cfg g' = g_Cfg g" "g_bdb g' = g_bdb g"
      "g_dirty g' = g_dirty g"
  | g' where "Mgd_checkIsOn g = (Some ErrDisabledDB, g')" "g_Cfg g' = g_Cfg g" "g_bdb g' = g_bdb g"
      "g_dirty g' = g_dirty g"
  by (rule checkIsOn_cases [of "g_status g"]) (auto simp: Mgd_checkIsOn_def Let_def)

end
