(* ===== verification/Db_Mem.thy ===== *)
theory Db_Mem
  imports Db_Data
begin

text \<open>
  The database in memory (\<open>crypto/db/mem.go\<close>). A bucket is a Go map; the list of its entries is in the
  order in which a \<open>range\<close> over it runs, which the operations that look up or store do not see. Each
  operation holds the lock of its bucket, so it is one step.
\<close>

record memDB =
  mb_buckets :: "bytes \<rightharpoonup> (bytes \<times> bytes) list"
  mb_name :: bytes
  mb_status :: status

text \<open>\<open>NewMemDB\<close>: a bucket per name, the first of the optional arguments is the name.\<close>

definition NewMemDB :: "bytes list \<Rightarrow> bytes list \<Rightarrow> memDB" where
  "NewMemDB bucketNames a =
     \<lparr>mb_buckets = foldl (\<lambda>bs id. bs(id \<mapsto> [])) Map.empty bucketNames,
      mb_name = (if 0 < length a then a ! 0 else []), mb_status = \<lparr>on = None, asked = 0\<rparr>\<rparr>"

definition memDB_checkIsOn :: "memDB \<Rightarrow> dberr option \<times> memDB" where
  "memDB_checkIsOn db = (let (e, st) = checkIsOn (mb_status db) in (e, db\<lparr>mb_status := st\<rparr>))"

text \<open>The common part of the operations: an error when the database is off; then the bucket, whose
  lock is a field of it, so that a missing bucket is a nil pointer that is followed.\<close>

definition on_bucket :: "bytes \<Rightarrow> ((bytes \<times> bytes) list \<Rightarrow> 'a \<times> (bytes \<times> bytes) list) \<Rightarrow> (memDB, 'a) dbop" where
  "on_bucket bucket f db =
     (let (e, db1) = memDB_checkIsOn db in
      case e of
        Some e \<Rightarrow> Inr (Inl e, db1)
      | None \<Rightarrow>
          bindG (deref (mb_buckets db1 bucket)) (\<lambda>b.
          let (r, b') = f b in Inr (Inr r, db1\<lparr>mb_buckets := (mb_buckets db1)(bucket \<mapsto> b')\<rparr>)))"

definition memDB_AddKeyValueToBucket :: "bytes \<Rightarrow> 'u Data \<Rightarrow> 'u Data \<Rightarrow> (memDB, unit) dbop" where
  "memDB_AddKeyValueToBucket bucket keyValue index =
     on_bucket bucket (\<lambda>b. ((), AList.update (Data_get index) (Data_get keyValue) b))"

definition memDB_RmKeyValueFromBucket :: "bytes \<Rightarrow> 'u Data \<Rightarrow> (memDB, unit) dbop" where
  "memDB_RmKeyValueFromBucket bucket index = on_bucket bucket (\<lambda>b. ((), AList.delete (Data_get index) b))"

definition memDB_GetKeyValueFromBucket :: "bytes \<Rightarrow> 'u Data \<Rightarrow> 'u Data \<Rightarrow> (memDB, bool \<times> 'u Data) dbop" where
  "memDB_GetKeyValueFromBucket bucket index keyValue =
     on_bucket bucket (\<lambda>b.
       (case map_of b (Data_get index) of
          None \<Rightarrow> (False, keyValue)
        | Some d \<Rightarrow> (True, Data_set d keyValue), b))"

definition memDB_GetAllValuesFromBucket :: "bytes \<Rightarrow> Filter list \<Rightarrow> (memDB, bytes list) dbop" where
  "memDB_GetAllValuesFromBucket bucket transforms =
     on_bucket bucket (\<lambda>b. (map (\<lambda>(_, res). transformed transforms res) b, b))"

text \<open>Nothing to back up, nothing to wipe, nothing to close.\<close>

definition memDB_Backup :: "(memDB, bool) dbop" where
  "memDB_Backup db = (let (e, db1) = memDB_checkIsOn db in
     Inr (case e of Some e \<Rightarrow> Inl e | None \<Rightarrow> Inr False, db1))"

definition memDB_Wipe :: "(memDB, unit) dbop" where
  "memDB_Wipe db = (let (e, db1) = memDB_checkIsOn db in
     Inr (case e of Some e \<Rightarrow> Inl e | None \<Rightarrow> Inr (), db1))"

definition memDB_Close :: "(memDB, unit) dbop" where
  "memDB_Close db = Inr (Inr (), db)"

definition memDB_SetStatusFn :: "(nat \<Rightarrow> bool) option \<Rightarrow> memDB \<Rightarrow> memDB" where
  "memDB_SetStatusFn f db = db\<lparr>mb_status := (mb_status db)\<lparr>on := f\<rparr>\<rparr>"

subsection \<open>The contract\<close>

definition mem_view :: "memDB \<Rightarrow> view" where
  "mem_view db b = map_option map_of (mb_buckets db b)"

definition mem_valid :: "memDB \<Rightarrow> bool" where
  "mem_valid db \<longleftrightarrow> (\<forall>b es. mb_buckets db b = Some es \<longrightarrow> distinct (map fst es))"

lemma memDB_checkIsOn_cases:
  obtains db' where "memDB_checkIsOn db = (None, db')" "mb_buckets db' = mb_buckets db"
  | db' where "memDB_checkIsOn db = (Some ErrDisabledDB, db')" "mb_buckets db' = mb_buckets db"
  by (rule checkIsOn_cases [of "mb_status db"]) (auto simp: memDB_checkIsOn_def Let_def)

lemma on_bucket_spec:
  assumes valid: "mem_valid db" and m: "mem_view db bucket = Some m"
    and f: "\<And>b. distinct (map fst b) \<Longrightarrow> map_of b = m \<Longrightarrow>
      distinct (map fst (snd (f b))) \<and> map_of (snd (f b)) = m' \<and> P (fst (f b))"
  shows "kv_result mem_valid mem_view db (on_bucket bucket f db) ((mem_view db)(bucket \<mapsto> m')) P"
proof -
  from m obtain b where b: "mb_buckets db bucket = Some b" "map_of b = m"
    by (auto simp: mem_view_def)
  with valid have d: "distinct (map fst b)" by (simp add: mem_valid_def)
  note f = f [OF d b(2)]
  show ?thesis
  proof (rule memDB_checkIsOn_cases [of db])
    fix db1
    assume c: "memDB_checkIsOn db = (Some ErrDisabledDB, db1)" "mb_buckets db1 = mb_buckets db"
    with valid show ?thesis by (auto simp: kv_result_def on_bucket_def mem_view_def mem_valid_def)
  next
    fix db1
    assume c: "memDB_checkIsOn db = (None, db1)" "mb_buckets db1 = mb_buckets db"
    let ?db' = "db1\<lparr>mb_buckets := (mb_buckets db1)(bucket \<mapsto> snd (f b))\<rparr>"
    from c b have "on_bucket bucket f db = Inr (Inr (fst (f b)), ?db')"
      by (simp add: on_bucket_def split_def Let_def)
    moreover have "mem_valid ?db'" using valid c f by (auto simp: mem_valid_def)
    moreover have "mem_view ?db' = (mem_view db)(bucket \<mapsto> m')"
      using c f by (auto simp: mem_view_def)
    ultimately show ?thesis using f by (simp add: kv_result_def)
  qed
qed

interpretation memory: kv_handle memDB_AddKeyValueToBucket memDB_RmKeyValueFromBucket
  memDB_GetKeyValueFromBucket memDB_GetAllValuesFromBucket mem_view mem_valid "\<lambda>_ _. True"
proof
  fix s b m and ix kv :: "'a Data"
  assume s: "mem_valid s" "mem_view s b = Some m"
  show "kv_result mem_valid mem_view s (memDB_AddKeyValueToBucket b kv ix s)
      ((mem_view s)(b \<mapsto> m(Data_get ix \<mapsto> Data_get kv))) (\<lambda>_. True)"
    unfolding memDB_AddKeyValueToBucket_def
    by (rule on_bucket_spec [OF s]) (auto simp: distinct_update update_conv')
  show "kv_result mem_valid mem_view s (memDB_RmKeyValueFromBucket b ix s)
      ((mem_view s)(b \<mapsto> m(Data_get ix := None))) (\<lambda>_. True)"
    unfolding memDB_RmKeyValueFromBucket_def
    by (rule on_bucket_spec [OF s]) (auto simp: distinct_delete delete_conv')
  have "(mem_view s)(b \<mapsto> m) = mem_view s" using s(2) by auto
  then show "kv_result mem_valid mem_view s (memDB_GetKeyValueFromBucket b ix kv s) (mem_view s)
      (\<lambda>r. r = (case m (Data_get ix) of None \<Rightarrow> (False, kv) | Some v \<Rightarrow> (True, Data_set v kv)))"
    unfolding memDB_GetKeyValueFromBucket_def
    using on_bucket_spec [OF s, of "\<lambda>b. (case map_of b (Data_get ix) of None \<Rightarrow> (False, kv)
        | Some d \<Rightarrow> (True, Data_set d kv), b)" m] by simp
next
  fix s b m ts
  assume s: "mem_valid s" "mem_view s b = Some m"
  have same: "(mem_view s)(b \<mapsto> m) = mem_view s" using s(2) by auto
  have all: "\<exists>ks. distinct ks \<and> set ks = dom (map_of es) \<and>
      map (\<lambda>(_, res). transformed ts res) es = map (\<lambda>k. transformed ts (the (map_of es k))) ks"
    if "distinct (map fst es)" for es :: "(bytes \<times> bytes) list"
    using that by (intro exI [of _ "map fst es"]) (auto simp: dom_map_of_conv_image_fst)
  have "kv_result mem_valid mem_view s (memDB_GetAllValuesFromBucket b ts s) ((mem_view s)(b \<mapsto> m))
      (\<lambda>vs. \<exists>ks. distinct ks \<and> set ks = dom m \<and> vs = map (\<lambda>k. transformed ts (the (m k))) ks)"
    unfolding memDB_GetAllValuesFromBucket_def
  proof (rule on_bucket_spec [OF s])
    fix es
    assume "distinct (map fst es)" "map_of es = m"
    with all [of es] show "distinct (map fst (snd (map (\<lambda>(_, res). transformed ts res) es, es))) \<and>
        map_of (snd (map (\<lambda>(_, res). transformed ts res) es, es)) = m \<and>
        (\<exists>ks. distinct ks \<and> set ks = dom m \<and> fst (map (\<lambda>(_, res). transformed ts res) es, es) =
          map (\<lambda>k. transformed ts (the (m k))) ks)" by simp
  qed
  then show "kv_result mem_valid mem_view s (memDB_GetAllValuesFromBucket b ts s) (mem_view s)
      (\<lambda>vs. \<exists>ks. distinct ks \<and> set ks = dom m \<and> vs = map (\<lambda>k. transformed ts (the (m k))) ks)"
    unfolding same .
qed

text \<open>A new database has its buckets, all empty.\<close>

lemma NewMemDB_buckets:
  "mb_buckets (NewMemDB names a) = (\<lambda>b. if b \<in> set names then Some [] else None)"
proof -
  have "foldl (\<lambda>bs id. bs(id \<mapsto> [])) bs names = (\<lambda>b. if b \<in> set names then Some [] else bs b)" for bs
    by (induction names arbitrary: bs) auto
  then show ?thesis by (simp add: NewMemDB_def)
qed

lemma NewMemDB_valid: "mem_valid (NewMemDB names a)"
  by (simp add: mem_valid_def NewMemDB_buckets split: if_split_asm)

lemma NewMemDB_view: "mem_view (NewMemDB names a) b = (if b \<in> set names then Some Map.empty else None)"
  by (simp add: mem_view_def NewMemDB_buckets)

text \<open>An operation on a bucket that does not exist panics, and \<open>Wipe\<close> keeps everything.\<close>

lemma no_bucket_panics:
  assumes "mem_view db b = None" "always_on (mb_status db)"
  shows "on_bucket b f db = Inl NilDeref"
  using checkIsOn_always [OF assms(2)] assms(1)
  by (auto simp: on_bucket_def memDB_checkIsOn_def mem_view_def Let_def)

lemma mem_Wipe_keeps:
  assumes "memDB_Wipe db = Inr (r, db')"
  shows "mem_view db' = mem_view db"
  by (rule memDB_checkIsOn_cases [of db])
    (use assms in \<open>auto simp: memDB_Wipe_def mem_view_def fun_eq_iff\<close>)

end
