(* ===== verification/Db_Contract.thy ===== *)
theory Db_Contract
  imports Db_Managed Db_Mem
begin

text \<open>
  The managed database keeps the contract of a handle when Bolt does what it documents and the disk
  does not fail: a locale states what the code relies on, the contract follows from it, and a store
  of lists is an instance. Without the reliability of the disk a failed write is reported as done.
\<close>

subsection \<open>What the code relies on\<close>

text \<open>
  \<open>disk w fn\<close> is the content of file \<open>fn\<close> as a database, \<open>rd t\<close> what a transaction sees. Bolt limits the
  size of keys and values and refuses empty keys and bucket names.
\<close>

definition okKey :: "bytes \<Rightarrow> bytes \<Rightarrow> bool" where
  "okKey k v \<longleftrightarrow> k \<noteq> [] \<and> length k \<le> 32768 \<and> length v \<le> 2147483646"

locale bolt_laws =
  fixes bo :: "('w, 't) bolt"
    and disk :: "'w \<Rightarrow> string \<Rightarrow> view" and rd :: "'t \<Rightarrow> view"
    and begin_tx :: "string \<Rightarrow> 'w \<Rightarrow> 't" and commit_tx :: "string \<Rightarrow> 't \<Rightarrow> 'w \<Rightarrow> 'w"
  assumes open_law: "bo_Open bo fn w = (e, w') \<Longrightarrow> disk w' = disk w"
    and close_law: "bo_Close bo fn w = (e, w') \<Longrightarrow> disk w' = disk w"
    and update_law: "bo_Update bo fn f w =
      (case f (begin_tx fn w) of
         Inl p \<Rightarrow> Inl p
       | Inr (Inl e) \<Rightarrow> Inr (Some e, w)
       | Inr (Inr t) \<Rightarrow> Inr (None, commit_tx fn t w))"
    and view_law: "bo_View bo fn h w = h (begin_tx fn w)"
    and begin_law: "rd (begin_tx fn w) = disk w fn"
    and commit_law: "disk (commit_tx fn t w) = (disk w)(fn := rd t)"
    and bucket_law: "tx_Bucket bo t b \<longleftrightarrow> rd t b \<noteq> None"
    and create_law: "b \<noteq> [] \<Longrightarrow> \<exists>t'. tx_CreateBucketIfNotExists bo b t = Inr t' \<and>
      rd t' = (rd t)(b := Some (case rd t b of None \<Rightarrow> Map.empty | Some m \<Rightarrow> m))"
    and put_law: "rd t b = Some m \<Longrightarrow> okKey k v \<Longrightarrow>
      \<exists>t'. tx_Put bo b k v t = Inr t' \<and> rd t' = (rd t)(b \<mapsto> m(k \<mapsto> v))"
    and delete_law: "rd t b = Some m \<Longrightarrow>
      \<exists>t'. tx_Delete bo b k t = Inr t' \<and> rd t' = (rd t)(b \<mapsto> m(k := None))"
    and get_law: "rd t b = Some m \<Longrightarrow> tx_Get bo b k t = m k"
    and foreach_law: "rd t b = Some m \<Longrightarrow> distinct (map fst (tx_ForEach bo b t)) \<and>
      map_of (tx_ForEach bo b t) = m"

text \<open>What the database stores: the content of its file, and its buckets once it is opened.\<close>

definition stored :: "view \<Rightarrow> bytes list \<Rightarrow> view" where
  "stored v bs b = (case v b of Some m \<Rightarrow> Some m | None \<Rightarrow> if b \<in> set bs then Some Map.empty else None)"

definition mgd_view :: "('w \<Rightarrow> string \<Rightarrow> view) \<Rightarrow> Mgd \<times> 'w \<Rightarrow> view" where
  "mgd_view disk = (\<lambda>(g, w). stored (disk w (c_Filename (g_Cfg g))) (c_Buckets (g_Cfg g)))"

definition mgd_valid :: "('w \<Rightarrow> string \<Rightarrow> view) \<Rightarrow> Mgd \<times> 'w \<Rightarrow> bool" where
  "mgd_valid disk = (\<lambda>(g, w). (\<forall>b \<in> set (c_Buckets (g_Cfg g)). b \<noteq> []) \<and>
     (g_bdb g \<longrightarrow> (\<forall>b \<in> set (c_Buckets (g_Cfg g)). disk w (c_Filename (g_Cfg g)) b \<noteq> None)))"

lemma stored_id: "(\<forall>b \<in> set bs. v b \<noteq> None) \<Longrightarrow> stored v bs = v"
  by (auto simp: stored_def fun_eq_iff split: option.split)

lemma stored_idem [simp]: "stored (stored v bs) bs = stored v bs"
  by (auto simp: stored_def fun_eq_iff split: option.split)

lemma stored_upd: "stored (v(b \<mapsto> m)) bs = (stored v bs)(b \<mapsto> m)"
  by (auto simp: stored_def fun_eq_iff split: option.split)

context bolt_laws
begin

lemma create_buckets_law:
  "\<forall>b \<in> set bs. b \<noteq> [] \<Longrightarrow> \<exists>t'. create_buckets bo bs t = Inr t' \<and> rd t' = stored (rd t) bs"
proof (induction bs arbitrary: t)
  case Nil
  then show ?case by (simp add: stored_id)
next
  case (Cons b bs)
  from Cons.prems create_law [of b t] obtain t1 where t1: "tx_CreateBucketIfNotExists bo b t = Inr t1"
    "rd t1 = (rd t)(b := Some (case rd t b of None \<Rightarrow> Map.empty | Some m \<Rightarrow> m))" by auto
  from Cons.IH [of t1] Cons.prems obtain t' where "create_buckets bo bs t1 = Inr t'"
    "rd t' = stored (rd t1) bs" by auto
  with t1 show ?case by (auto simp: stored_def fun_eq_iff split: option.split)
qed

text \<open>Opening: an error that changes nothing, or the file with all its buckets.\<close>

lemma open_spec:
  assumes "mgd_valid disk (g, w)" "\<not> g_bdb g"
  shows "kv_result (mgd_valid disk) (mgd_view disk) (g, w) (Mgd_open bo (g, w)) (mgd_view disk (g, w)) (\<lambda>_. True) \<and>
    (\<forall>r g' w'. Mgd_open bo (g, w) = Inr (r, g', w') \<longrightarrow> g_Cfg g' = g_Cfg g \<and> (r = Inr () \<longrightarrow> g_bdb g'))"
proof (rule Mgd_checkIsOn_cases [of g])
  fix g1
  assume "Mgd_checkIsOn g = (Some ErrDisabledDB, g1)" "g_Cfg g1 = g_Cfg g" "g_bdb g1 = g_bdb g"
  with assms show ?thesis by (auto simp: Mgd_open_def kv_result_def mgd_valid_def mgd_view_def)
next
  fix g1
  assume c: "Mgd_checkIsOn g = (None, g1)" "g_Cfg g1 = g_Cfg g" "g_bdb g1 = g_bdb g"
  let ?fn = "c_Filename (g_Cfg g)" and ?bs = "c_Buckets (g_Cfg g)"
  obtain e w1 where o: "bo_Open bo ?fn w = (e, w1)" by fastforce
  note d = open_law [OF o]
  show ?thesis
  proof (cases e)
    case (Some e)
    with c o d assms show ?thesis
      by (auto simp: Mgd_open_def kv_result_def mgd_valid_def mgd_view_def)
  next
    case None
    from assms have "\<forall>b \<in> set ?bs. b \<noteq> []" by (simp add: mgd_valid_def)
    from create_buckets_law [OF this, of "begin_tx ?fn w1"] obtain t' where
      t': "create_buckets bo ?bs (begin_tx ?fn w1) = Inr t'" "rd t' = stored (disk w ?fn) ?bs"
      by (auto simp: begin_law d)
    let ?w2 = "commit_tx ?fn t' w1"
    from c o None t' have "Mgd_open bo (g, w) = Inr (Inr (), g1\<lparr>g_bdb := True\<rparr>, ?w2)"
      by (simp add: Mgd_open_def update_law Let_def)
    moreover have "disk ?w2 ?fn = stored (disk w ?fn) ?bs" by (simp add: commit_law t')
    ultimately show ?thesis
      using assms c by (auto simp: kv_result_def mgd_valid_def mgd_view_def stored_def split: option.split)
  qed
qed

text \<open>Every operation: the switch, the file, then a function that runs on a file with its buckets.\<close>

lemma operate_spec:
  assumes s: "mgd_valid disk (g, w)"
    and f: "\<And>w1. \<forall>b \<in> set (c_Buckets (g_Cfg g)). disk w1 (c_Filename (g_Cfg g)) b \<noteq> None \<Longrightarrow>
      disk w1 (c_Filename (g_Cfg g)) = mgd_view disk (g, w) \<Longrightarrow>
      \<exists>r w2. f (c_Filename (g_Cfg g)) w1 = Inr (r, w2) \<and>
        (case r of Inl e \<Rightarrow> disk w2 = disk w1
         | Inr x \<Rightarrow> disk w2 = (disk w1)(c_Filename (g_Cfg g) := v') \<and> P x)"
    and v': "\<And>b. b \<in> set (c_Buckets (g_Cfg g)) \<Longrightarrow> v' b \<noteq> None"
  shows "kv_result (mgd_valid disk) (mgd_view disk) (g, w) (operate bo f (g, w)) v' P"
proof (rule Mgd_checkIsOn_cases [of g])
  fix g1
  assume "Mgd_checkIsOn g = (Some ErrDisabledDB, g1)" "g_Cfg g1 = g_Cfg g" "g_bdb g1 = g_bdb g"
  with s show ?thesis by (auto simp: operate_def kv_result_def mgd_valid_def mgd_view_def)
next
  fix g1
  assume c: "Mgd_checkIsOn g = (None, g1)" "g_Cfg g1 = g_Cfg g" "g_bdb g1 = g_bdb g"
  let ?g2 = "g1\<lparr>g_dirty := True\<rparr>" and ?fn = "c_Filename (g_Cfg g)" and ?bs = "c_Buckets (g_Cfg g)"
  have s2: "mgd_valid disk (?g2, w)" "mgd_view disk (?g2, w) = mgd_view disk (g, w)"
    using s c by (simp_all add: mgd_valid_def mgd_view_def)
  have run: "kv_result (mgd_valid disk) (mgd_view disk) (g, w)
      (bindG (f ?fn w3) (\<lambda>(r, w4). Inr (r, g3, w4))) v' P"
    if v3: "mgd_valid disk (g3, w3)" "mgd_view disk (g3, w3) = mgd_view disk (g, w)" "g_bdb g3" "g_Cfg g3 = g_Cfg g"
    for g3 w3
  proof -
    have b: "\<forall>b \<in> set ?bs. disk w3 ?fn b \<noteq> None" using v3 by (simp add: mgd_valid_def)
    have d: "disk w3 ?fn = mgd_view disk (g, w)"
      using v3(2,4) stored_id [OF b] by (simp add: mgd_view_def)
    from f [OF b d] obtain r w4 where r: "f ?fn w3 = Inr (r, w4)"
      "case r of Inl e \<Rightarrow> disk w4 = disk w3 | Inr x \<Rightarrow> disk w4 = (disk w3)(?fn := v') \<and> P x" by blast
    show ?thesis
    proof (cases r)
      case (Inl e)
      with r v3 show ?thesis by (simp add: kv_result_def mgd_valid_def mgd_view_def)
    next
      case (Inr x)
      have "stored v' ?bs = v'" by (rule stored_id) (use v' in blast)
      with r v3 Inr v' show ?thesis by (simp add: kv_result_def mgd_valid_def mgd_view_def)
    qed
  qed
  show ?thesis
  proof (cases "g_bdb g")
    case True
    with c run [OF s2] show ?thesis by (simp add: operate_def)
  next
    case False
    with c have no: "\<not> g_bdb ?g2" by simp
    note o = open_spec [OF s2(1) no]
    from o [THEN conjunct1] show ?thesis
    proof (rule kv_resultE)
      fix e s'
      assume e: "Mgd_open bo (?g2, w) = Inr (Inl e, s')" "mgd_valid disk s'" "mgd_view disk s' = mgd_view disk (?g2, w)"
      obtain g3 w3 where "s' = (g3, w3)" by fastforce
      with e c no s2 show ?thesis by (simp add: operate_def kv_result_def)
    next
      fix x s'
      assume e: "Mgd_open bo (?g2, w) = Inr (Inr x, s')" "mgd_valid disk s'" "mgd_view disk s' = mgd_view disk (?g2, w)"
      obtain g3 w3 where s': "s' = (g3, w3)" by fastforce
      from o [THEN conjunct2] e(1) s' c have g3: "g_Cfg g3 = g_Cfg g" "g_bdb g3" by auto
      with run [of g3 w3] e s2 s' have "kv_result (mgd_valid disk) (mgd_view disk) (g, w)
          (bindG (f ?fn w3) (\<lambda>(r, w4). Inr (r, g3, w4))) v' P" by simp
      with c no e(1) s' g3 show ?thesis by (simp add: operate_def)
    qed
  qed
qed

lemma view_buckets: "b \<in> set (c_Buckets (g_Cfg g)) \<Longrightarrow> mgd_view disk (g, w) b \<noteq> None"
  by (simp add: mgd_view_def stored_def split: option.split)

text \<open>A write that the store accepts.\<close>

lemma write_spec:
  assumes s: "mgd_valid disk s" and m: "mgd_view disk s b = Some m"
    and f: "\<And>t. rd t b = Some m \<Longrightarrow> \<exists>t'. f t = Inr (Inr t') \<and> rd t' = (rd t)(b \<mapsto> m')"
  shows "kv_result (mgd_valid disk) (mgd_view disk) s (operate bo (write_fn bo f) s)
    ((mgd_view disk s)(b \<mapsto> m')) (\<lambda>_. True)"
proof -
  obtain g w where gw: "s = (g, w)" by fastforce
  show ?thesis unfolding gw
  proof (rule operate_spec)
    show "mgd_valid disk (g, w)" using s gw by simp
  next
    fix w1
    let ?fn = "c_Filename (g_Cfg g)"
    assume d: "disk w1 ?fn = mgd_view disk (g, w)"
    with m gw have "rd (begin_tx ?fn w1) b = Some m" by (simp add: begin_law)
    from f [OF this] d obtain t' where "f (begin_tx ?fn w1) = Inr (Inr t')"
      "rd t' = (mgd_view disk (g, w))(b \<mapsto> m')" by (auto simp: begin_law)
    then show "\<exists>r w2. write_fn bo f ?fn w1 = Inr (r, w2) \<and>
        (case r of Inl e \<Rightarrow> disk w2 = disk w1
         | Inr x \<Rightarrow> disk w2 = (disk w1)(?fn := (mgd_view disk (g, w))(b \<mapsto> m')) \<and> True)"
      by (simp add: write_fn_def update_law commit_law)
  next
    fix b'
    assume "b' \<in> set (c_Buckets (g_Cfg g))"
    with view_buckets show "((mgd_view disk (g, w))(b \<mapsto> m')) b' \<noteq> None" by simp
  qed
qed

lemma read_spec:
  assumes s: "mgd_valid disk s" and m: "mgd_view disk s b = Some m"
    and f: "\<And>t. rd t b = Some m \<Longrightarrow> \<exists>vs. h t = Inr (Inr vs) \<and> P vs"
  shows "kv_result (mgd_valid disk) (mgd_view disk) s (operate bo (read_fn bo h) s) (mgd_view disk s) P"
proof -
  obtain g w where gw: "s = (g, w)" by fastforce
  show ?thesis unfolding gw
  proof (rule operate_spec)
    show "mgd_valid disk (g, w)" using s gw by simp
  next
    fix w1
    let ?fn = "c_Filename (g_Cfg g)"
    assume d: "disk w1 ?fn = mgd_view disk (g, w)"
    with m gw have "rd (begin_tx ?fn w1) b = Some m" by (simp add: begin_law)
    from f [OF this] d show "\<exists>r w2. read_fn bo h ?fn w1 = Inr (r, w2) \<and>
        (case r of Inl e \<Rightarrow> disk w2 = disk w1
         | Inr x \<Rightarrow> disk w2 = (disk w1)(?fn := mgd_view disk (g, w)) \<and> P x)"
      by (auto simp: read_fn_def view_law fun_upd_idem)
  next
    fix b'
    assume "b' \<in> set (c_Buckets (g_Cfg g))"
    with view_buckets show "mgd_view disk (g, w) b' \<noteq> None" by simp
  qed
qed

lemma kv_result_map:
  "kv_result valid vw s r v' (\<lambda>x. P (f x)) \<Longrightarrow> kv_result valid vw s (map_result f r) v' P"
  by (erule kv_resultE) (simp_all add: kv_result_def map_result_def)

end

sublocale bolt_laws \<subseteq> managed: kv_handle "Mgd_AddKeyValueToBucket bo" "Mgd_RmKeyValueFromBucket bo"
  "Mgd_GetKeyValueFromBucket bo" "Mgd_GetAllValuesFromBucket bo" "mgd_view disk" "mgd_valid disk" okKey
proof
  fix s b m and ix kv :: "'c Data"
  assume s: "mgd_valid disk s" "mgd_view disk s b = Some m"
  show "kv_result (mgd_valid disk) (mgd_view disk) s (Mgd_AddKeyValueToBucket bo b kv ix s)
      ((mgd_view disk s)(b \<mapsto> m(Data_get ix \<mapsto> Data_get kv))) (\<lambda>_. True)"
    if ok: "okKey (Data_get ix) (Data_get kv)"
    unfolding Mgd_AddKeyValueToBucket_def
    by (rule write_spec [OF s]) (use put_law [OF _ ok] in \<open>auto simp: bucket_law\<close>)
  show "kv_result (mgd_valid disk) (mgd_view disk) s (Mgd_RmKeyValueFromBucket bo b ix s)
      ((mgd_view disk s)(b \<mapsto> m(Data_get ix := None))) (\<lambda>_. True)"
    unfolding Mgd_RmKeyValueFromBucket_def
    by (rule write_spec [OF s]) (use delete_law in \<open>auto simp: bucket_law\<close>)
  show "kv_result (mgd_valid disk) (mgd_view disk) s (Mgd_GetKeyValueFromBucket bo b ix kv s) (mgd_view disk s)
      (\<lambda>r. r = (case m (Data_get ix) of None \<Rightarrow> (False, kv) | Some v \<Rightarrow> (True, Data_set v kv)))"
    unfolding Mgd_GetKeyValueFromBucket_def
    by (rule kv_result_map, rule read_spec [OF s])
      (auto simp: bucket_law get_law split: option.split)
next
  fix s b m ts
  assume s: "mgd_valid disk s" "mgd_view disk s b = Some m"
  show "kv_result (mgd_valid disk) (mgd_view disk) s (Mgd_GetAllValuesFromBucket bo b ts s) (mgd_view disk s)
      (\<lambda>vs. \<exists>ks. distinct ks \<and> set ks = dom m \<and> vs = map (\<lambda>k. transformed ts (the (m k))) ks)"
    unfolding Mgd_GetAllValuesFromBucket_def
  proof (rule read_spec [OF s])
    fix t
    assume t: "rd t b = Some m"
    let ?es = "tx_ForEach bo b t"
    from foreach_law [OF t] have e: "distinct (map fst ?es)" "map_of ?es = m" by simp_all
    then have "map (\<lambda>(_, v). transformed ts v) ?es = map (\<lambda>k. transformed ts (the (m k))) (map fst ?es)"
      by (auto simp: map_of_is_SomeI)
    moreover have "set (map fst ?es) = dom m" using e(2) dom_map_of_conv_image_fst [of ?es] by simp
    ultimately show "\<exists>vs. (if \<not> tx_Bucket bo t b then Inl NilDeref
          else Inr (Inr (map (\<lambda>(_, v). transformed ts v) ?es))) = Inr (Inr vs) \<and>
        (\<exists>ks. distinct ks \<and> set ks = dom m \<and> vs = map (\<lambda>k. transformed ts (the (m k))) ks)"
      using e(1) t by (auto simp: bucket_law intro!: exI [of _ "map fst ?es"])
  qed
qed

end
