(* ===== verification/Db_Store.thy ===== *)
theory Db_Store
  imports Db_Contract
begin

text \<open>
  The rest of the life of a managed database: errors of writes, the switch, closing, backups and
  wiping; and a disk of lists as an instance of what the code relies on.
\<close>

subsection \<open>Without any assumption on Bolt\<close>

text \<open>A failed write is reported as done.\<close>

lemma write_error_lost:
  assumes "always_on (g_status g)" "g_bdb g" "bo_Update bo (c_Filename (g_Cfg g)) f w = Inr (Some e, w')"
  shows "\<exists>g'. operate bo (write_fn bo f) (g, w) = Inr (Inr (), g', w') \<and> g_Cfg g' = g_Cfg g \<and> g_bdb g'"
  using checkIsOn_always [OF assms(1)] assms(2,3)
  by (auto simp: operate_def Mgd_checkIsOn_def write_fn_def Let_def)

text \<open>A database that is clean after an operation was not touched by it.\<close>

lemma operate_clean:
  assumes "operate bo f (g, w) = Inr (r, g', w')" "\<not> g_dirty g'"
  shows "w' = w \<and> r = Inl ErrDisabledDB"
proof (rule Mgd_checkIsOn_cases [of g])
  fix g1
  assume "Mgd_checkIsOn g = (Some ErrDisabledDB, g1)"
  with assms show ?thesis by (simp add: operate_def)
next
  fix g1
  assume c: "Mgd_checkIsOn g = (None, g1)"
  have o: "g_dirty g3" if o: "Mgd_open bo (g1\<lparr>g_dirty := True\<rparr>, w) = Inr (r3, g3, w3)" for r3 g3 w3
  proof (rule Mgd_checkIsOn_cases [of "g1\<lparr>g_dirty := True\<rparr>"])
    fix g2
    assume "Mgd_checkIsOn (g1\<lparr>g_dirty := True\<rparr>) = (Some ErrDisabledDB, g2)"
      "g_dirty g2 = g_dirty (g1\<lparr>g_dirty := True\<rparr>)"
    with o show ?thesis by (auto simp: Mgd_open_def)
  next
    fix g2
    assume "Mgd_checkIsOn (g1\<lparr>g_dirty := True\<rparr>) = (None, g2)"
      "g_dirty g2 = g_dirty (g1\<lparr>g_dirty := True\<rparr>)"
    with o show ?thesis
      by (auto simp: Mgd_open_def Let_def split: prod.split_asm option.split_asm)
  qed
  let ?X = "if \<not> g_bdb (g1\<lparr>g_dirty := True\<rparr>) then Mgd_open bo (g1\<lparr>g_dirty := True\<rparr>, w)
    else Inr (Inr (), g1\<lparr>g_dirty := True\<rparr>, w)"
  from assms(1) c have "bindG ?X (\<lambda>(r, g3, w3). case r of Inl e \<Rightarrow> Inr (Inl e, g3, w3)
      | Inr _ \<Rightarrow> bindG (f (c_Filename (g_Cfg g3)) w3) (\<lambda>(r, w4). Inr (r, g3, w4))) = Inr (r, g', w')"
    by (simp add: operate_def Let_def)
  then obtain r3 g3 w3 where x: "?X = Inr (r3, g3, w3)" and
    k: "(case r3 of Inl e \<Rightarrow> Inr (Inl e, g3, w3)
      | Inr _ \<Rightarrow> bindG (f (c_Filename (g_Cfg g3)) w3) (\<lambda>(r, w4). Inr (r, g3, w4))) = Inr (r, g', w')"
    unfolding bindG_eq_Inr by fastforce
  from x o have "g_dirty g3" by (auto split: if_split_asm)
  moreover from k have g': "g' = g3" by (cases r3) auto
  ultimately show ?thesis using assms(2) by simp
qed

text \<open>Nothing to back up: nothing happens. A successful backup leaves the database closed and clean.\<close>

lemma Backup_clean:
  "always_on (g_status g) \<Longrightarrow> \<not> g_dirty g \<Longrightarrow> \<exists>g'. Mgd_Backup bo fs (g, w) = Inr (Inr False, g', w)"
  using checkIsOn_always [of "g_status g"]
  by (fastforce simp: Mgd_Backup_def Mgd_checkIsOn_def Let_def)

lemma Mgd_close_fields:
  assumes "Mgd_close bo (g, w) = (e, g', w')"
  shows "g_Cfg g' = g_Cfg g \<and> g_dirty g' = g_dirty g \<and> g_status g' = g_status g \<and>
    (e = None \<longrightarrow> \<not> g_bdb g') \<and> (\<exists>e'. bo_Close bo (c_Filename (g_Cfg g)) w = (e', w'))"
  using assms by (auto simp: Mgd_close_def split: prod.split_asm option.split_asm)

text \<open>What a wipe and a backup have in common: the file is closed when they act on it.\<close>

lemma closed_for:
  assumes "(if g_bdb g then Mgd_close bo (g, w) else (None, g, w)) = (None, g', w')"
  shows "\<not> g_bdb g' \<and> g_Cfg g' = g_Cfg g \<and> g_dirty g' = g_dirty g \<and>
    (w' = w \<or> (\<exists>e. bo_Close bo (c_Filename (g_Cfg g)) w = (e, w')))"
  using assms Mgd_close_fields [of bo g w None g' w'] by (auto split: if_split_asm)

lemma Backup_did:
  assumes "Mgd_Backup bo fs (g, w) = Inr (Inr True, g', w')"
  shows "g_dirty g \<and> \<not> g_dirty g' \<and> \<not> g_bdb g' \<and> g_Cfg g' = g_Cfg g \<and>
    (\<exists>w1. (w1 = w \<or> (\<exists>e. bo_Close bo (c_Filename (g_Cfg g)) w = (e, w1))) \<and>
       FileCopy fs (c_Filename (g_Cfg g)) (PrefixName (nowRFC3339 fs w1) (c_BackupName (g_Cfg g))) w1 = (None, w'))"
proof (rule Mgd_checkIsOn_cases [of g])
  fix g1
  assume "Mgd_checkIsOn g = (Some ErrDisabledDB, g1)"
  with assms show ?thesis by (simp add: Mgd_Backup_def)
next
  fix g1
  assume c: "Mgd_checkIsOn g = (None, g1)" "g_Cfg g1 = g_Cfg g" "g_bdb g1 = g_bdb g" "g_dirty g1 = g_dirty g"
  obtain e g2 w2 where cl: "(if g_bdb g1 then Mgd_close bo (g1, w) else (None, g1, w)) = (e, g2, w2)"
    by (metis prod_cases3)
  with assms c have d: "g_dirty g" "e = None"
    by (auto simp: Mgd_Backup_def Let_def split: if_split_asm option.split_asm)
  note k = closed_for [OF cl [unfolded d]]
  from assms c cl d have "FileCopy fs (c_Filename (g_Cfg g2)) (backupName fs g2 w2) w2 = (None, w')"
    "g' = g2\<lparr>g_dirty := False\<rparr>"
    by (auto simp: Mgd_Backup_def Let_def split: prod.split_asm option.split_asm)
  with k c d show ?thesis by (auto simp: backupName_def)
qed

lemma Wipe_did:
  assumes "Mgd_Wipe bo fs (g, w) = Inr (Inr (), g', w')"
  shows "g_dirty g' = g_dirty g \<and> \<not> g_bdb g' \<and> g_Cfg g' = g_Cfg g \<and>
    (\<exists>w1. os_RemoveAll fs (c_Filename (g_Cfg g)) w1 = (None, w'))"
proof (rule Mgd_checkIsOn_cases [of g])
  fix g1
  assume "Mgd_checkIsOn g = (Some ErrDisabledDB, g1)"
  with assms show ?thesis by (simp add: Mgd_Wipe_def)
next
  fix g1
  assume c: "Mgd_checkIsOn g = (None, g1)" "g_Cfg g1 = g_Cfg g" "g_bdb g1 = g_bdb g" "g_dirty g1 = g_dirty g"
  obtain e g2 w2 where cl: "(if g_bdb g1 then Mgd_close bo (g1, w) else (None, g1, w)) = (e, g2, w2)"
    by (metis prod_cases3)
  with assms c have d: "e = None" by (auto simp: Mgd_Wipe_def Let_def split: option.split_asm)
  note k = closed_for [OF cl [unfolded d]]
  from assms c cl d have "os_RemoveAll fs (c_Filename (g_Cfg g2)) w2 = (None, w')" "g' = g2"
    by (auto simp: Mgd_Wipe_def Let_def split: prod.split_asm option.split_asm)
  with k c show ?thesis by auto
qed

text \<open>A file that cannot be opened is not copied, so a backup right after a wipe fails.\<close>

lemma Backup_missing_file:
  assumes "always_on (g_status g)" "g_dirty g" "\<not> g_bdb g" "os_Open fs (c_Filename (g_Cfg g)) w = Some e"
  shows "\<exists>g'. Mgd_Backup bo fs (g, w) = Inr (Inl (StoreErr e), g', w) \<and> g_dirty g'"
  using checkIsOn_always [OF assms(1)] assms(2-4)
  by (auto simp: Mgd_Backup_def Mgd_checkIsOn_def FileCopy_def Let_def)

subsection \<open>Files under the laws\<close>

locale disk_laws = bolt_laws bo disk rd begin_tx commit_tx
  for bo :: "('w, 't) bolt" and disk rd begin_tx commit_tx +
  fixes fs :: "'w fs"
  assumes create_file_law: "os_Create fs fn w = (e, w') \<Longrightarrow> fn' \<noteq> fn \<Longrightarrow> disk w' fn' = disk w fn'"
    and copy_law: "io_Copy fs src dst w = (e, w') \<Longrightarrow>
      (\<forall>fn. fn \<noteq> dst \<longrightarrow> disk w' fn = disk w fn) \<and> (e = None \<longrightarrow> disk w' dst = disk w src)"
begin

lemma FileCopy_spec:
  assumes "FileCopy fs src dst w = (None, w')" "src \<noteq> dst"
  shows "disk w' dst = disk w src \<and> disk w' src = disk w src"
proof -
  from assms(1) obtain w1 where c: "os_Create fs dst w = (None, w1)" "io_Copy fs src dst w1 = (None, w')"
    by (auto simp: FileCopy_def split: prod.split_asm option.split_asm)
  from create_file_law [OF c(1)] copy_law [OF c(2)] assms(2) show ?thesis by auto
qed

text \<open>A backup is the database: the copy has its content, and the database keeps it.\<close>

lemma Backup_spec:
  assumes "Mgd_Backup bo fs (g, w) = Inr (Inr True, g', w')"
    and "\<And>w. PrefixName (nowRFC3339 fs w) (c_BackupName (g_Cfg g)) \<noteq> c_Filename (g_Cfg g)"
  shows "(\<exists>w1. disk w' (PrefixName (nowRFC3339 fs w1) (c_BackupName (g_Cfg g))) = disk w (c_Filename (g_Cfg g))) \<and>
    mgd_view disk (g', w') = mgd_view disk (g, w)"
proof -
  from Backup_did [OF assms(1)] obtain w1 where
    w1: "w1 = w \<or> (\<exists>e. bo_Close bo (c_Filename (g_Cfg g)) w = (e, w1))" and g': "g_Cfg g' = g_Cfg g"
    and c: "FileCopy fs (c_Filename (g_Cfg g)) (PrefixName (nowRFC3339 fs w1) (c_BackupName (g_Cfg g))) w1 = (None, w')"
    by blast
  have "disk w1 = disk w" using w1 close_law by blast
  with FileCopy_spec [OF c] assms(2) [of w1] g' show ?thesis by (auto simp: mgd_view_def)
qed

end

context bolt_laws
begin

lemma Close_spec:
  assumes "mgd_valid disk s" "Mgd_Close bo s = Inr (r, s')"
  shows "mgd_view disk s' = mgd_view disk s \<and> mgd_valid disk s'"
proof -
  obtain g w where s: "s = (g, w)" by fastforce
  obtain g' w' where s': "s' = (g', w')" by fastforce
  show ?thesis
  proof (cases "g_bdb g")
    case False
    with assms s show ?thesis by (simp add: Mgd_Close_def)
  next
    case True
    then obtain e where "Mgd_close bo (g, w) = (e, g', w')"
      using assms(2) s s' by (auto simp: Mgd_Close_def split: prod.split_asm option.split_asm)
    from Mgd_close_fields [OF this] close_law have d: "g_Cfg g' = g_Cfg g" "disk w' = disk w"
      by auto
    with True assms(1) s s' show ?thesis by (simp add: mgd_view_def mgd_valid_def)
  qed
qed

end

subsection \<open>An instance\<close>

text \<open>A disk whose files are maps of buckets that list their entries.\<close>

type_synonym dbfile = "bytes \<rightharpoonup> (bytes \<times> bytes) list"
type_synonym disk0 = "string \<rightharpoonup> dbfile"

definition file_view :: "dbfile \<Rightarrow> view" where
  "file_view t b = map_option map_of (t b)"

definition read_disk0 :: "disk0 \<Rightarrow> string \<Rightarrow> view" where
  "read_disk0 w fn = (case w fn of None \<Rightarrow> (\<lambda>_. None) | Some t \<Rightarrow> file_view t)"

definition begin0 :: "string \<Rightarrow> disk0 \<Rightarrow> dbfile" where
  "begin0 fn w = (case w fn of None \<Rightarrow> Map.empty | Some t \<Rightarrow> t)"

definition bolt0 :: "(disk0, dbfile) bolt" where
  "bolt0 = \<lparr>bo_Open = (\<lambda>fn w. (None, w(fn \<mapsto> begin0 fn w))), bo_Close = (\<lambda>fn w. (None, w)),
     bo_Update = (\<lambda>fn f w. case f (begin0 fn w) of
        Inl p \<Rightarrow> Inl p
      | Inr (Inl e) \<Rightarrow> Inr (Some e, w)
      | Inr (Inr t) \<Rightarrow> Inr (None, w(fn \<mapsto> t))),
     bo_View = (\<lambda>fn f w. f (begin0 fn w)),
     tx_Bucket = (\<lambda>t b. t b \<noteq> None),
     tx_CreateBucketIfNotExists = (\<lambda>b t. if b = [] then Inl ''bucket name required''
        else Inr (case t b of None \<Rightarrow> t(b \<mapsto> []) | Some _ \<Rightarrow> t)),
     tx_Put = (\<lambda>b k v t. if \<not> okKey k v then Inl ''key required''
        else Inr (t(b := map_option (AList.update k v) (t b)))),
     tx_Delete = (\<lambda>b k t. Inr (t(b := map_option (AList.delete k) (t b)))),
     tx_Get = (\<lambda>b k t. case t b of None \<Rightarrow> None | Some es \<Rightarrow> map_of es k),
     tx_ForEach = (\<lambda>b t. case t b of None \<Rightarrow> [] | Some es \<Rightarrow> AList.clearjunk es)\<rparr>"

definition fs0 :: "disk0 fs" where
  "fs0 = \<lparr>os_Open = (\<lambda>fn w. if w fn = None then Some ''no such file'' else None),
     os_Create = (\<lambda>fn w. (None, w(fn \<mapsto> Map.empty))),
     io_Copy = (\<lambda>src dst w. (None, w(dst := w src))),
     os_Remove = (\<lambda>fn w. w(fn := None)),
     os_RemoveAll = (\<lambda>fn w. (None, w(fn := None))),
     nowRFC3339 = (\<lambda>_. ''2024-01-01T00:00:00Z'')\<rparr>"

lemma file_view_upd: "file_view (t(b \<mapsto> es)) = (file_view t)(b \<mapsto> map_of es)"
  by (auto simp: file_view_def)

lemma file_view_Some: "file_view t b = Some m \<Longrightarrow> \<exists>es. t b = Some es \<and> map_of es = m"
  by (auto simp: file_view_def)

lemma read_begin0: "file_view (begin0 fn w) = read_disk0 w fn"
  by (auto simp: read_disk0_def begin0_def file_view_def fun_eq_iff split: option.split)

lemma read_disk0_upd: "read_disk0 (w(fn \<mapsto> t)) = (read_disk0 w)(fn := file_view t)"
  by (auto simp: read_disk0_def fun_eq_iff)

interpretation disk0: disk_laws bolt0 read_disk0 file_view begin0 "\<lambda>fn t w. w(fn \<mapsto> t)" fs0
proof
  fix fn :: string and w w' :: disk0 and e
  assume "bo_Open bolt0 fn w = (e, w')"
  then have "w' = w(fn \<mapsto> begin0 fn w)" by (simp add: bolt0_def)
  then show "read_disk0 w' = read_disk0 w" using read_disk0_upd [of w fn] by (simp add: read_begin0)
next
  fix b :: bytes and t :: dbfile
  assume "b \<noteq> []"
  then have c: "tx_CreateBucketIfNotExists bolt0 b t = Inr (case t b of None \<Rightarrow> t(b \<mapsto> []) | Some _ \<Rightarrow> t)"
    by (simp add: bolt0_def)
  have "file_view (case t b of None \<Rightarrow> t(b \<mapsto> []) | Some _ \<Rightarrow> t) =
      (file_view t)(b := Some (case file_view t b of None \<Rightarrow> Map.empty | Some m \<Rightarrow> m))"
    by (cases "t b") (auto simp: file_view_def fun_eq_iff)
  with c show "\<exists>t'. tx_CreateBucketIfNotExists bolt0 b t = Inr t' \<and>
      file_view t' = (file_view t)(b := Some (case file_view t b of None \<Rightarrow> Map.empty | Some m \<Rightarrow> m))"
    by blast
next
  fix t :: dbfile and b k v :: bytes and m
  assume "file_view t b = Some m" "okKey k v"
  then obtain es where "t b = Some es" "map_of es = m" using file_view_Some by blast
  with \<open>okKey k v\<close> show "\<exists>t'. tx_Put bolt0 b k v t = Inr t' \<and> file_view t' = (file_view t)(b \<mapsto> m(k \<mapsto> v))"
    by (simp add: bolt0_def file_view_upd update_conv')
next
  fix t :: dbfile and b k :: bytes and m
  assume "file_view t b = Some m"
  then obtain es where "t b = Some es" "map_of es = m" using file_view_Some by blast
  then show "\<exists>t'. tx_Delete bolt0 b k t = Inr t' \<and> file_view t' = (file_view t)(b \<mapsto> m(k := None))"
    by (simp add: bolt0_def file_view_upd delete_conv')
next
  fix t :: dbfile and b :: bytes and m
  assume "file_view t b = Some m"
  then obtain es where "t b = Some es" "map_of es = m" using file_view_Some by blast
  then show "distinct (map fst (tx_ForEach bolt0 b t)) \<and> map_of (tx_ForEach bolt0 b t) = m"
    by (simp add: bolt0_def distinct_clearjunk map_of_clearjunk)
next
  fix t :: dbfile and b k :: bytes and m
  assume "file_view t b = Some m"
  then show "tx_Get bolt0 b k t = m k" by (auto simp: bolt0_def file_view_def)
next
  fix src dst :: string and w w' :: disk0 and e
  assume "io_Copy fs0 src dst w = (e, w')"
  then show "(\<forall>fn. fn \<noteq> dst \<longrightarrow> read_disk0 w' fn = read_disk0 w fn) \<and>
      (e = None \<longrightarrow> read_disk0 w' dst = read_disk0 w src)"
    by (auto simp: fs0_def read_disk0_def)
next
  fix fn fn' :: string and w w' :: disk0 and e
  assume "os_Create fs0 fn w = (e, w')" "fn' \<noteq> fn"
  then show "read_disk0 w' fn' = read_disk0 w fn'" by (auto simp: fs0_def read_disk0_def)
qed (simp_all add: bolt0_def read_begin0 read_disk0_upd file_view_def)

end
