(* ===== verification/X_Containers.thy ===== *)
theory X_Containers
  imports Go_Prelude
begin

text \<open>
  The two locked containers of the package \<open>x\<close> (\<open>rwmap.go\<close>, \<open>rwslice.go\<close>). A method holds the lock from
  its first line to its return, so it is one step on the content; a callback of \<open>Tx\<close> runs under the
  write lock and one of \<open>Rx\<close> under the read lock.
\<close>

subsection \<open>\<open>RWMap\<close>\<close>

text \<open>\<open>zero\<close> is the zero value of the element type, which Go yields for a missing key.\<close>

definition NewRWMap :: "nat list \<Rightarrow> ('k \<rightharpoonup> 'v)" where
  "NewRWMap sz = Map.empty"

definition RWMap_Tx :: "(('k \<rightharpoonup> 'v) \<Rightarrow> ('k \<rightharpoonup> 'v)) \<Rightarrow> ('k \<rightharpoonup> 'v) \<Rightarrow> ('k \<rightharpoonup> 'v)" where
  "RWMap_Tx f m = f m"

definition RWMap_Set :: "'k \<Rightarrow> 'v \<Rightarrow> ('k \<rightharpoonup> 'v) \<Rightarrow> 'v \<times> ('k \<rightharpoonup> 'v)" where
  "RWMap_Set key val m = (val, m(key \<mapsto> val))"

definition RWMap_Get :: "'v \<Rightarrow> 'k \<Rightarrow> ('k \<rightharpoonup> 'v) \<Rightarrow> 'v" where
  "RWMap_Get zero key m = (case m key of None \<Rightarrow> zero | Some v \<Rightarrow> v)"

definition RWMap_Del :: "'v \<Rightarrow> 'k \<Rightarrow> ('k \<rightharpoonup> 'v) \<Rightarrow> 'v \<times> ('k \<rightharpoonup> 'v)" where
  "RWMap_Del zero key m =
     (case m key of None \<Rightarrow> (zero, m) | Some val \<Rightarrow> (val, m(key := None)))"

definition RWMap_Rx :: "(('k \<rightharpoonup> 'v) \<Rightarrow> 'r) \<Rightarrow> ('k \<rightharpoonup> 'v) \<Rightarrow> 'r" where
  "RWMap_Rx f m = f m"

lemma RWMap_laws:
  "RWMap_Get z k (snd (RWMap_Set k' v m)) = (if k = k' then v else RWMap_Get z k m)"
  "RWMap_Get z k (snd (RWMap_Del z k' m)) = (if k = k' then z else RWMap_Get z k m)"
  "fst (RWMap_Del z k m) = RWMap_Get z k m"
  "RWMap_Get z k (NewRWMap sz) = z"
  by (simp_all add: RWMap_Get_def RWMap_Set_def RWMap_Del_def NewRWMap_def split: option.split)

subsection \<open>\<open>RWSlice\<close>\<close>

text \<open>The optional arguments are a length and a capacity, which \<open>make\<close> checks; without an argument the
  constructor reads past the end of the empty list.\<close>

definition NewRWSlice :: "'a \<Rightarrow> nat list \<Rightarrow> 'a list go" where
  "NewRWSlice zero sz =
     (if length sz = 2 then
        (if sz ! 1 < sz ! 0 then Inl SliceBounds else Inr (replicate (sz ! 0) zero))
      else if sz = [] then Inl SliceBounds
      else Inr (replicate (sz ! 0) zero))"

text \<open>The callback sees the elements, not the slice header, so it cannot change the length.\<close>

definition RWSlice_Tx :: "('a list \<Rightarrow> 'a list) \<Rightarrow> 'a list \<Rightarrow> 'a list" where
  "RWSlice_Tx f s = (let s' = f s in take (length s) s' @ drop (length s') s)"

definition RWSlice_Add :: "'a \<Rightarrow> 'a list \<Rightarrow> 'a \<times> 'a list" where
  "RWSlice_Add val s = (val, s @ [val])"

definition RWSlice_Set :: "nat \<Rightarrow> 'a \<Rightarrow> 'a list \<Rightarrow> ('a \<times> 'a list) go" where
  "RWSlice_Set index val s = (if index < length s then Inr (val, s[index := val]) else Inl SliceBounds)"

definition RWSlice_Rx :: "('a list \<Rightarrow> 'r) \<Rightarrow> 'a list \<Rightarrow> 'r" where
  "RWSlice_Rx f s = f s"

definition RWSlice_Get :: "nat \<Rightarrow> 'a list \<Rightarrow> 'a go" where
  "RWSlice_Get index s = (if index < length s then Inr (s ! index) else Inl SliceBounds)"

lemma RWSlice_Tx_length [simp]: "length (RWSlice_Tx f s) = length s"
  by (simp add: RWSlice_Tx_def Let_def)

lemma RWSlice_Get_Set:
  assumes "RWSlice_Set i v s = Inr (r, s')"
  shows "r = v \<and> RWSlice_Get j s' = (if j = i then Inr v else RWSlice_Get j s)"
  using assms by (auto simp: RWSlice_Set_def RWSlice_Get_def split: if_split_asm)

lemma RWSlice_Get_Add:
  "RWSlice_Get i (snd (RWSlice_Add v s)) =
     (if i = length s then Inr v else RWSlice_Get i s)"
  by (auto simp: RWSlice_Add_def RWSlice_Get_def nth_append)

end
