(* ===== verification/Db_Package.thy ===== *)
theory Db_Package
  imports Db_Store X_Containers
begin

text \<open>
  The package \<open>db\<close> as its users see it: \<open>New\<close> chooses the implementation by the file name, every
  instance is recorded so that \<open>GracefulStop\<close> can close it, and the functions of the package work on
  the instance that \<open>Init\<close> made. A handle is a pointer that the record and its users share, so it is
  its index in the record.
\<close>

subsection \<open>Handles\<close>

datatype handle = HMem memDB | HFile Mgd

record 'w pkg =
  p_instances :: "handle list"
  p_mgedDB :: "nat option"
  p_world :: 'w

text \<open>The calls of the interface, by implementation.\<close>

definition lift_mem :: "(memDB, 'a) dbop \<Rightarrow> memDB \<Rightarrow> 'w \<Rightarrow> ((dberr + 'a) \<times> handle \<times> 'w) go" where
  "lift_mem f db w = bindG (f db) (\<lambda>(r, db'). Inr (r, HMem db', w))"

definition lift_file :: "(Mgd \<times> 'w, 'a) dbop \<Rightarrow> Mgd \<Rightarrow> 'w \<Rightarrow> ((dberr + 'a) \<times> handle \<times> 'w) go" where
  "lift_file f g w = bindG (f (g, w)) (\<lambda>(r, g', w'). Inr (r, HFile g', w'))"

definition by_kind :: "(memDB, 'a) dbop \<Rightarrow> (Mgd \<times> 'w, 'a) dbop \<Rightarrow> (handle \<times> 'w, 'a) dbop" where
  "by_kind f g = (\<lambda>(h, w). case h of HMem db \<Rightarrow> lift_mem f db w | HFile m \<Rightarrow> lift_file g m w)"

definition handle_Add :: "('w, 't) bolt \<Rightarrow> bytes \<Rightarrow> 'u Data \<Rightarrow> 'u Data \<Rightarrow> (handle \<times> 'w, unit) dbop" where
  "handle_Add bo b kv ix = by_kind (memDB_AddKeyValueToBucket b kv ix) (Mgd_AddKeyValueToBucket bo b kv ix)"

definition handle_Rm :: "('w, 't) bolt \<Rightarrow> bytes \<Rightarrow> 'u Data \<Rightarrow> (handle \<times> 'w, unit) dbop" where
  "handle_Rm bo b ix = by_kind (memDB_RmKeyValueFromBucket b ix) (Mgd_RmKeyValueFromBucket bo b ix)"

definition handle_Get :: "('w, 't) bolt \<Rightarrow> bytes \<Rightarrow> 'u Data \<Rightarrow> 'u Data \<Rightarrow> (handle \<times> 'w, bool \<times> 'u Data) dbop" where
  "handle_Get bo b ix kv = by_kind (memDB_GetKeyValueFromBucket b ix kv) (Mgd_GetKeyValueFromBucket bo b ix kv)"

definition handle_GetAll :: "('w, 't) bolt \<Rightarrow> bytes \<Rightarrow> Filter list \<Rightarrow> (handle \<times> 'w, bytes list) dbop" where
  "handle_GetAll bo b ts = by_kind (memDB_GetAllValuesFromBucket b ts) (Mgd_GetAllValuesFromBucket bo b ts)"

definition handle_Backup :: "('w, 't) bolt \<Rightarrow> 'w fs \<Rightarrow> (handle \<times> 'w, bool) dbop" where
  "handle_Backup bo fs = by_kind memDB_Backup (Mgd_Backup bo fs)"

definition handle_Wipe :: "('w, 't) bolt \<Rightarrow> 'w fs \<Rightarrow> (handle \<times> 'w, unit) dbop" where
  "handle_Wipe bo fs = by_kind memDB_Wipe (Mgd_Wipe bo fs)"

definition handle_Close :: "('w, 't) bolt \<Rightarrow> (handle \<times> 'w, unit) dbop" where
  "handle_Close bo = by_kind memDB_Close (Mgd_Close bo)"

subsection \<open>The package\<close>

definition MEM_PREFIX :: string where
  "MEM_PREFIX = ''MEMORY_''"

text \<open>The names of memory databases, which only logs show, are strings of bytes.\<close>

definition name_bytes :: "string \<Rightarrow> bytes" where
  "name_bytes = map (\<lambda>c. of_nat (of_char c))"

definition addInstance :: "handle \<Rightarrow> 'w pkg \<Rightarrow> nat \<times> 'w pkg" where
  "addInstance h p = (let (h, hs) = RWSlice_Add h (p_instances p)
     in (length (p_instances p), p\<lparr>p_instances := hs\<rparr>))"

definition New :: "Cfg \<Rightarrow> 'w pkg \<Rightarrow> nat \<times> 'w pkg" where
  "New cfg p =
     (let base = filepath_Base (c_Filename cfg) in
      if hasPrefix base MEM_PREFIX
      then addInstance (HMem (NewMemDB (c_Buckets cfg) [name_bytes (c_Filename cfg)])) p
      else addInstance (HFile \<lparr>g_Cfg = cfg, g_bdb = False, g_dirty = False,
        g_status = \<lparr>on = None, asked = 0\<rparr>\<rparr>) p)"

definition Init :: "Cfg \<Rightarrow> 'w pkg \<Rightarrow> 'w pkg" where
  "Init cfg p = (let (i, p') = New cfg p in p'\<lparr>p_mgedDB := Some i\<rparr>)"

text \<open>\<open>GracefulStop\<close> closes the instances in order; an error is logged.\<close>

fun close_all :: "('w, 't) bolt \<Rightarrow> handle list \<Rightarrow> 'w \<Rightarrow> (handle list \<times> 'w) go" where
  "close_all bo [] w = Inr ([], w)"
| "close_all bo (h # hs) w =
     bindG (handle_Close bo (h, w)) (\<lambda>(_, h', w1).
     bindG (close_all bo hs w1) (\<lambda>(hs', w2). Inr (h' # hs', w2)))"

definition GracefulStop :: "('w, 't) bolt \<Rightarrow> 'w pkg \<Rightarrow> 'w pkg go" where
  "GracefulStop bo p = bindG (close_all bo (p_instances p) (p_world p))
     (\<lambda>(hs, w). Inr (p\<lparr>p_instances := hs, p_world := w\<rparr>))"

text \<open>A function of the package: the method of the one instance. Some of them assert that there is one,
  the others call a method of a nil interface.\<close>

definition on_mgedDB :: "panic \<Rightarrow> (handle \<times> 'w, 'a) dbop \<Rightarrow> ('w pkg, 'a) dbop" where
  "on_mgedDB e f p =
     (case p_mgedDB p of
        None \<Rightarrow> Inl e
      | Some i \<Rightarrow> bindG (f (p_instances p ! i, p_world p)) (\<lambda>(r, h', w').
          Inr (r, p\<lparr>p_instances := (p_instances p)[i := h'], p_world := w'\<rparr>)))"

definition pkg_AddKeyValueToBucket :: "('w, 't) bolt \<Rightarrow> bytes \<Rightarrow> 'u Data \<Rightarrow> 'u Data \<Rightarrow> ('w pkg, unit) dbop" where
  "pkg_AddKeyValueToBucket bo b kv ix = on_mgedDB NilDeref (handle_Add bo b kv ix)"

definition pkg_RmKeyValueFromBucket :: "('w, 't) bolt \<Rightarrow> bytes \<Rightarrow> 'u Data \<Rightarrow> ('w pkg, unit) dbop" where
  "pkg_RmKeyValueFromBucket bo b ix = on_mgedDB NilDeref (handle_Rm bo b ix)"

definition pkg_GetKeyValueFromBucket ::
  "('w, 't) bolt \<Rightarrow> bytes \<Rightarrow> 'u Data \<Rightarrow> 'u Data \<Rightarrow> ('w pkg, bool \<times> 'u Data) dbop" where
  "pkg_GetKeyValueFromBucket bo b ix kv = on_mgedDB NilDeref (handle_Get bo b ix kv)"

definition pkg_GetAllValuesFromBucket :: "('w, 't) bolt \<Rightarrow> bytes \<Rightarrow> Filter list \<Rightarrow> ('w pkg, bytes list) dbop" where
  "pkg_GetAllValuesFromBucket bo b ts = on_mgedDB NilDeref (handle_GetAll bo b ts)"

definition pkg_Backup :: "('w, 't) bolt \<Rightarrow> 'w fs \<Rightarrow> ('w pkg, bool) dbop" where
  "pkg_Backup bo fs = on_mgedDB AssertFailed (handle_Backup bo fs)"

definition pkg_Wipe :: "('w, 't) bolt \<Rightarrow> 'w fs \<Rightarrow> ('w pkg, unit) dbop" where
  "pkg_Wipe bo fs = on_mgedDB AssertFailed (handle_Wipe bo fs)"

definition pkg_Close :: "('w, 't) bolt \<Rightarrow> ('w pkg, unit) dbop" where
  "pkg_Close bo = on_mgedDB AssertFailed (handle_Close bo)"

subsection \<open>Any handle keeps the contract\<close>

definition handle_view :: "('w \<Rightarrow> string \<Rightarrow> view) \<Rightarrow> handle \<times> 'w \<Rightarrow> view" where
  "handle_view disk = (\<lambda>(h, w). case h of HMem db \<Rightarrow> mem_view db | HFile g \<Rightarrow> mgd_view disk (g, w))"

definition handle_valid :: "('w \<Rightarrow> string \<Rightarrow> view) \<Rightarrow> handle \<times> 'w \<Rightarrow> bool" where
  "handle_valid disk = (\<lambda>(h, w). case h of HMem db \<Rightarrow> mem_valid db | HFile g \<Rightarrow> mgd_valid disk (g, w))"

lemma kv_result_mem:
  assumes "kv_result mem_valid mem_view db (f db) v' P"
  shows "kv_result (handle_valid disk) (handle_view disk) (HMem db, w) (by_kind f g (HMem db, w)) v' P"
  using assms
  by (rule kv_resultE)
    (simp_all add: kv_result_def by_kind_def lift_mem_def handle_valid_def handle_view_def)

lemma kv_result_file:
  assumes "kv_result (mgd_valid disk) (mgd_view disk) (m, w) (g (m, w)) v' P"
  shows "kv_result (handle_valid disk) (handle_view disk) (HFile m, w) (by_kind f g (HFile m, w)) v' P"
  using assms
proof (rule kv_resultE)
  fix e s'
  assume "g (m, w) = Inr (Inl e, s')" "mgd_valid disk s'" "mgd_view disk s' = mgd_view disk (m, w)"
  then show ?thesis
    by (cases s') (simp add: kv_result_def by_kind_def lift_file_def handle_valid_def handle_view_def)
next
  fix x s'
  assume "g (m, w) = Inr (Inr x, s')" "mgd_valid disk s'" "mgd_view disk s' = v'" "P x"
  then show ?thesis
    by (cases s') (simp add: kv_result_def by_kind_def lift_file_def handle_valid_def handle_view_def)
qed

lemma handle_parts [simp]:
  "handle_view disk (HMem db, w) = mem_view db" "handle_view disk (HFile m, w) = mgd_view disk (m, w)"
  "handle_valid disk (HMem db, w) = mem_valid db" "handle_valid disk (HFile m, w) = mgd_valid disk (m, w)"
  by (simp_all add: handle_view_def handle_valid_def)

text \<open>An operation keeps the contract when both implementations do.\<close>

lemma kv_result_kind:
  assumes "handle_valid disk s" "handle_view disk s b = Some m"
    and "\<And>db. mem_valid db \<Longrightarrow> mem_view db b = Some m \<Longrightarrow> kv_result mem_valid mem_view db (f db) (U (mem_view db)) P"
    and "\<And>t. mgd_valid disk t \<Longrightarrow> mgd_view disk t b = Some m \<Longrightarrow>
      kv_result (mgd_valid disk) (mgd_view disk) t (g t) (U (mgd_view disk t)) P"
  shows "kv_result (handle_valid disk) (handle_view disk) s (by_kind f g s) (U (handle_view disk s)) P"
proof -
  obtain h w where hw: "s = (h, w)" by fastforce
  show ?thesis
  proof (cases h)
    case (HMem db)
    with assms(1,2) hw have "kv_result mem_valid mem_view db (f db) (U (mem_view db)) P" by (intro assms(3)) auto
    from kv_result_mem [where f = f and db = db, OF this] HMem hw show ?thesis by simp
  next
    case (HFile m)
    with assms(1,2) hw have "kv_result (mgd_valid disk) (mgd_view disk) (m, w) (g (m, w)) (U (mgd_view disk (m, w))) P"
      by (intro assms(4)) auto
    from kv_result_file [where g = g and m = m, OF this] HFile hw show ?thesis by simp
  qed
qed

sublocale bolt_laws \<subseteq> any: kv_handle "handle_Add bo" "handle_Rm bo" "handle_Get bo" "handle_GetAll bo"
  "handle_view disk" "handle_valid disk" okKey
proof
  fix s b m and ix kv :: "'c Data"
  assume s: "handle_valid disk s" "handle_view disk s b = Some m"
  show "kv_result (handle_valid disk) (handle_view disk) s (handle_Add bo b kv ix s)
      ((handle_view disk s)(b \<mapsto> m(Data_get ix \<mapsto> Data_get kv))) (\<lambda>_. True)"
    if "okKey (Data_get ix) (Data_get kv)"
    unfolding handle_Add_def
    by (rule kv_result_kind [where U = "\<lambda>v. v(b \<mapsto> m(Data_get ix \<mapsto> Data_get kv))", OF s])
      (use that in \<open>auto intro: memory.add_spec managed.add_spec\<close>)
  show "kv_result (handle_valid disk) (handle_view disk) s (handle_Rm bo b ix s)
      ((handle_view disk s)(b \<mapsto> m(Data_get ix := None))) (\<lambda>_. True)"
    unfolding handle_Rm_def
    by (rule kv_result_kind [where U = "\<lambda>v. v(b \<mapsto> m(Data_get ix := None))", OF s])
      (auto intro: memory.rm_spec managed.rm_spec)
  show "kv_result (handle_valid disk) (handle_view disk) s (handle_Get bo b ix kv s) (handle_view disk s)
      (\<lambda>r. r = (case m (Data_get ix) of None \<Rightarrow> (False, kv) | Some v \<Rightarrow> (True, Data_set v kv)))"
    unfolding handle_Get_def
    by (rule kv_result_kind [where U = "\<lambda>v. v", OF s]) (auto intro: memory.fetch_spec managed.fetch_spec)
next
  fix s b m ts
  assume s: "handle_valid disk s" "handle_view disk s b = Some m"
  show "kv_result (handle_valid disk) (handle_view disk) s (handle_GetAll bo b ts s) (handle_view disk s)
      (\<lambda>vs. \<exists>ks. distinct ks \<and> set ks = dom m \<and> vs = map (\<lambda>k. transformed ts (the (m k))) ks)"
    unfolding handle_GetAll_def
    by (rule kv_result_kind [where U = "\<lambda>v. v", OF s]) (auto intro: memory.fetch_all_spec managed.fetch_all_spec)
qed

text \<open>The client's lemmas for any handle, and for a managed database that is closed in between.\<close>

context bolt_laws
begin

lemmas any_refines = any.run_ops_refine
lemmas any_decoded = any.read_back_decoded

lemma managed_added:
  assumes "mgd_valid disk s" "mgd_view disk s b = Some m" "okKey (Data_get ix) (Data_get kv)"
    and "Mgd_AddKeyValueToBucket bo b kv ix s = Inr (Inr (), s1)"
  shows "mgd_valid disk s1 \<and> mgd_view disk s1 b = Some (m(Data_get ix \<mapsto> Data_get kv))"
  using managed.add_spec [OF assms(1-3)] assms(4) by (auto simp: kv_result_def)

lemma managed_persists:
  assumes "mgd_valid disk s" "mgd_view disk s b = Some m" "okKey (Data_get ix) (Data_get kv)"
    and "Mgd_AddKeyValueToBucket bo b kv ix s = Inr (Inr (), s1)" "Mgd_Close bo s1 = Inr (r, s2)"
    and "Mgd_GetKeyValueFromBucket bo b ix kv' s2 = Inr (Inr (found, kv''), s3)"
  shows "found \<and> kv'' = Data_set (Data_get kv) kv'"
proof -
  from managed_added [OF assms(1-4)] have s1: "mgd_valid disk s1"
    "mgd_view disk s1 b = Some (m(Data_get ix \<mapsto> Data_get kv))" by simp_all
  with Close_spec [OF s1(1) assms(5)] have s2: "mgd_valid disk s2"
    "mgd_view disk s2 b = Some (m(Data_get ix \<mapsto> Data_get kv))" by simp_all
  from managed.fetch_spec [OF s2, of ix kv'] assms(6) show ?thesis by (auto simp: kv_result_def)
qed

end

subsection \<open>New instances and the end\<close>

text \<open>What \<open>New\<close> makes, and that it keeps the instances there were.\<close>

definition fresh_cfg :: "Cfg \<Rightarrow> bool" where
  "fresh_cfg cfg \<longleftrightarrow> (\<forall>b \<in> set (c_Buckets cfg). b \<noteq> [])"

lemma New_spec:
  assumes "New cfg p = (i, p')"
  shows "i = length (p_instances p) \<and> length (p_instances p') = Suc i \<and> take i (p_instances p') = p_instances p \<and>
    p_world p' = p_world p \<and>
    (case p_instances p' ! i of
       HMem db \<Rightarrow> hasPrefix (filepath_Base (c_Filename cfg)) MEM_PREFIX \<and>
         (\<forall>b. mem_view db b = (if b \<in> set (c_Buckets cfg) then Some Map.empty else None))
     | HFile g \<Rightarrow> \<not> hasPrefix (filepath_Base (c_Filename cfg)) MEM_PREFIX \<and> g_Cfg g = cfg \<and> \<not> g_bdb g \<and> \<not> g_dirty g)"
  using assms
  by (auto simp: New_def addInstance_def RWSlice_Add_def Let_def NewMemDB_view split: if_split_asm)

lemma New_valid:
  assumes "New cfg p = (i, p')" "fresh_cfg cfg"
  shows "handle_valid disk (p_instances p' ! i, p_world p')"
  using assms
  by (auto simp: New_def addInstance_def RWSlice_Add_def Let_def handle_valid_def NewMemDB_valid mgd_valid_def
      fresh_cfg_def split: if_split_asm)

text \<open>After the stop no file is open, when closing does not fail.\<close>

definition file_closed :: "handle \<Rightarrow> bool" where
  "file_closed h \<longleftrightarrow> (case h of HMem _ \<Rightarrow> True | HFile g \<Rightarrow> \<not> g_bdb g)"

lemma handle_Close_closed:
  assumes "\<And>fn w. fst (bo_Close bo fn w) = None"
  shows "\<exists>h' w'. handle_Close bo (h, w) = Inr (Inr (), h', w') \<and> file_closed h'"
proof (cases h)
  case (HMem db)
  then show ?thesis
    by (simp add: handle_Close_def by_kind_def lift_mem_def memDB_Close_def file_closed_def)
next
  case (HFile g)
  obtain e w1 where c: "bo_Close bo (c_Filename (g_Cfg g)) w = (e, w1)" by fastforce
  with assms [of "c_Filename (g_Cfg g)" w] have "e = None" by simp
  with c HFile show ?thesis
    by (simp add: handle_Close_def by_kind_def lift_file_def Mgd_Close_def Mgd_close_def file_closed_def)
qed

lemma close_all_closed:
  assumes "\<And>fn w. fst (bo_Close bo fn w) = None"
  shows "\<exists>hs' w'. close_all bo hs w = Inr (hs', w') \<and> length hs' = length hs \<and> list_all file_closed hs'"
proof (induction hs arbitrary: w)
  case Nil
  then show ?case by simp
next
  case (Cons h hs)
  from handle_Close_closed [where bo = bo, OF assms] obtain h' w1 where
    h: "handle_Close bo (h, w) = Inr (Inr (), h', w1)" "file_closed h'" by blast
  from Cons.IH obtain hs' w' where "close_all bo hs w1 = Inr (hs', w')" "length hs' = length hs"
    "list_all file_closed hs'" by blast
  with h show ?case by simp
qed

end
