(* ===== verification/Db_Properties.thy ===== *)
theory Db_Properties
  imports Db_Package
begin

text \<open>
  The properties of the database package, for any store that does what the locale \<open>bolt_laws\<close> says and,
  where it says so, for any store at all. The witnesses use the disk of lists of \<open>Db_Store\<close>.
\<close>

subsection \<open>Concrete databases\<close>

definition cfg0 :: Cfg where
  "cfg0 = \<lparr>c_Filename = ''data/enclave.bolt'', c_BackupName = ''data/backup.bolt'', c_Buckets = [[1], [2]]\<rparr>"

definition mgd0 :: Mgd where
  "mgd0 = \<lparr>g_Cfg = cfg0, g_bdb = False, g_dirty = False, g_status = \<lparr>on = None, asked = 0\<rparr>\<rparr>"

definition plain0 :: "bytes \<Rightarrow> unit Data" where
  "plain0 b = \<lparr>d_Data = b, d_Read = None, d_Write = None, d_Use = None, d_Result = None\<rparr>"

text \<open>A cipher: every byte is subtracted from 255.\<close>

definition flip0 :: Filter where
  "flip0 = map (\<lambda>x. 255 - x)"

lemma flip0_flip0 [simp]: "flip0 (flip0 b) = b"
  by (simp add: flip0_def comp_def)




section \<open>The contract\<close>



text \<open>What was stored encrypted is read back decrypted, also when the database was closed in between:
  with a read filter of the value that encrypts and a write filter of the placeholder that decrypts,
  the lookup finds the key and puts the original bytes into the placeholder.\<close>

lemma stored_values_read_back:
  assumes "bolt_laws bo disk rd begin_tx commit_tx" "mgd_valid disk s" "mgd_view disk s b = Some m"
    and "okKey (Data_get ix) (Data_get kv)"
    and "Mgd_AddKeyValueToBucket bo b kv ix s = Inr (Inr (), s1)" "Mgd_Close bo s1 = Inr (r, s2)"
    and "Mgd_GetKeyValueFromBucket bo b ix kv' s2 = Inr (Inr (found, kv''), s3)"
    and "d_Read kv = Some enc" "d_Write kv' = Some dec" "dec (enc (d_Data kv)) = d_Data kv"
  shows "found \<and> d_Data kv'' = d_Data kv"
  using bolt_laws.managed_persists [OF assms(1-7)] assms(8-10)
  by (simp add: Data_set_write Data_get_def)

definition secret0 :: "unit Data" where
  "secret0 = (plain0 [7, 8, 9])\<lparr>d_Read := Some flip0\<rparr>"

definition stored0 :: "Mgd \<times> disk0" where
  "stored0 = (case Mgd_AddKeyValueToBucket bolt0 [1] secret0 (plain0 [5]) (mgd0, Map.empty) of
     Inr (_, s) \<Rightarrow> s | Inl _ \<Rightarrow> (mgd0, Map.empty))"

lemma stored0_eq:
  "stored0 = (mgd0\<lparr>g_bdb := True, g_dirty := True\<rparr>,
     [''data/enclave.bolt'' \<mapsto> [[2] \<mapsto> [], [1] \<mapsto> [([5], [248, 247, 246])]]])"
  by (simp add: stored0_def Mgd_AddKeyValueToBucket_def operate_def Mgd_checkIsOn_def checkIsOn_def isOn_def
      Mgd_open_def mgd0_def cfg0_def bolt0_def write_fn_def begin0_def okKey_def Data_get_def plain0_def
      secret0_def flip0_def)

section \<open>Errors\<close>

text \<open>C25: A write that the store refuses is reported as done: whatever error the update of Bolt returns, the
  method returns no error, because the handler inside it takes the error and its function returns nil.\<close>

theorem write_error_is_lost:
  assumes "always_on (g_status g)" "g_bdb g"
    and "bo_Update bo (c_Filename (g_Cfg g)) (\<lambda>t. if \<not> tx_Bucket bo t b then Inl NilDeref
      else Inr (tx_Put bo b (Data_get ix) (Data_get kv) t)) w = Inr (Some e, w')"
  shows "\<exists>g'. Mgd_AddKeyValueToBucket bo b kv ix (g, w) = Inr (Inr (), g', w')"
  using write_error_lost [OF assms] unfolding Mgd_AddKeyValueToBucket_def by blast

theorem write_error_is_lost_witness:
  "\<exists>g'. Mgd_AddKeyValueToBucket bolt0 [1] (plain0 [7]) (plain0 []) (mgd0\<lparr>g_bdb := True\<rparr>, [''data/enclave.bolt'' \<mapsto> [[1] \<mapsto> []]]) =
     Inr (Inr (), g', [''data/enclave.bolt'' \<mapsto> [[1] \<mapsto> []]])"
  by (rule write_error_is_lost [where e = "''key required''"])
    (simp_all add: always_on_def mgd0_def cfg0_def bolt0_def begin0_def okKey_def Data_get_def plain0_def)

text \<open>A value that is read into a placeholder without a write filter and without a use function is cut to
  the length of the placeholder, and an empty placeholder gets nothing although the key was found.\<close>

lemma placeholder_truncates:
  assumes "d_Write kv = None" "d_Use kv = None"
  shows "d_Data (Data_set v kv) = take (length (d_Data kv)) v @ drop (length v) (d_Data kv) \<and>
    (d_Data kv = [] \<longrightarrow> d_Data (Data_set v kv) = []) \<and>
    (length (d_Data kv) = length v \<longrightarrow> d_Data (Data_set v kv) = v)"
  using assms by (simp add: Data_set_plain go_copy_def)

section \<open>Backups\<close>

text \<open>C26: A backup that was taken is the database: the file with the prefixed name has the content that the
  database had, the database stores what it stored, it is closed, and it is clean.\<close>

theorem backup_is_the_database:
  assumes "disk_laws bo disk rd begin_tx commit_tx fs"
    and "Mgd_Backup bo fs (g, w) = Inr (Inr True, g', w')"
    and "\<And>w. PrefixName (nowRFC3339 fs w) (c_BackupName (g_Cfg g)) \<noteq> c_Filename (g_Cfg g)"
  shows "(\<exists>w1. disk w' (PrefixName (nowRFC3339 fs w1) (c_BackupName (g_Cfg g))) = disk w (c_Filename (g_Cfg g))) \<and>
    mgd_view disk (g', w') = mgd_view disk (g, w) \<and> \<not> g_bdb g' \<and> \<not> g_dirty g'"
  using disk_laws.Backup_spec [OF assms] Backup_did [OF assms(2)] by blast

lemma backup_name0: "PrefixName ''2024-01-01T00:00:00Z'' ''data/backup.bolt'' = ''data/2024-01-01T00:00:00Z_backup.bolt''"
  by code_simp

theorem backup_is_the_database_witness:
  "\<exists>g' w'. Mgd_Backup bolt0 fs0 stored0 = Inr (Inr True, g', w') \<and> mgd_view read_disk0 (g', w') = mgd_view read_disk0 stored0"
proof -
  have d: "disk_laws bolt0 read_disk0 file_view begin0 (\<lambda>fn t w. w(fn \<mapsto> t)) fs0"
    by (rule disk0.disk_laws_axioms)
  have "\<exists>g' w'. Mgd_Backup bolt0 fs0 stored0 = Inr (Inr True, g', w')"
    by (simp add: stored0_eq Mgd_Backup_def Mgd_checkIsOn_def checkIsOn_def isOn_def mgd0_def cfg0_def
        Mgd_close_def bolt0_def fs0_def FileCopy_def)
  then obtain g' w' where r: "Mgd_Backup bolt0 fs0 stored0 = Inr (Inr True, g', w')" by blast
  have "mgd_view read_disk0 (g', w') = mgd_view read_disk0 stored0"
    using backup_is_the_database [OF d r [unfolded stored0_eq]] backup_name0
    by (simp add: fs0_def mgd0_def cfg0_def stored0_eq)
  with r show ?thesis by blast
qed

text \<open>C27: Wiping a managed database leaves it marked although there is nothing to back up, so the backup that
  follows fails on the missing file and stays due; wiping a database in memory keeps every value.\<close>

theorem wipe_effects:
  assumes "Mgd_Wipe bo fs (g, w) = Inr (Inr (), g', w')" "g_dirty g" "always_on (g_status g')"
    and "os_Open fs (c_Filename (g_Cfg g)) w' = Some e" "memDB_Wipe db = Inr (r, db')"
  shows "(\<exists>g''. Mgd_Backup bo fs (g', w') = Inr (Inl (StoreErr e), g'', w') \<and> g_dirty g'') \<and>
    mem_view db' = mem_view db"
proof -
  from Wipe_did [OF assms(1)] assms(2,4) have "g_dirty g'" "\<not> g_bdb g'" "os_Open fs (c_Filename (g_Cfg g')) w' = Some e"
    by simp_all
  from Backup_missing_file [OF assms(3) this] mem_Wipe_keeps [OF assms(5)] show ?thesis by blast
qed

theorem wipe_effects_witness:
  "\<exists>g'. Mgd_Backup bolt0 fs0 (mgd0\<lparr>g_dirty := True\<rparr>, Map.empty) = Inr (Inl (StoreErr ''no such file''), g', Map.empty)"
proof -
  let ?g = "mgd0\<lparr>g_dirty := True\<rparr>"
  have w: "Mgd_Wipe bolt0 fs0 (?g, Map.empty) = Inr (Inr (), ?g, Map.empty)"
    by (simp add: Mgd_Wipe_def Mgd_checkIsOn_def checkIsOn_def isOn_def mgd0_def cfg0_def fs0_def fun_upd_idem)
  have m: "memDB_Wipe (NewMemDB [] []) = Inr (Inr (), NewMemDB [] [])"
    by (simp add: memDB_Wipe_def memDB_checkIsOn_def checkIsOn_def isOn_def NewMemDB_def)
  have "(\<exists>g''. Mgd_Backup bolt0 fs0 (?g, Map.empty) = Inr (Inl (StoreErr ''no such file''), g'', Map.empty) \<and>
      g_dirty g'') \<and> mem_view (NewMemDB [] []) = mem_view (NewMemDB [] [])"
    by (rule wipe_effects [OF w _ _ _ m]) (simp_all add: mgd0_def always_on_def fs0_def)
  then show ?thesis by blast
qed

section \<open>Instances\<close>

text \<open>After \<open>GracefulStop\<close> every instance that was ever made is still recorded and none of them has its file
  open, when closing a file does not fail; and \<open>New\<close> records each instance it makes.\<close>

lemma graceful_stop_closes_all:
  assumes "\<And>fn w. fst (bo_Close bo fn w) = None" "New cfg p0 = (i, p)"
  shows "\<exists>p'. GracefulStop bo p = Inr p' \<and> length (p_instances p') = Suc (length (p_instances p0)) \<and>
    list_all file_closed (p_instances p')"
proof -
  from New_spec [OF assms(2)] have l: "length (p_instances p) = Suc (length (p_instances p0))" by simp
  from close_all_closed [where bo = bo and hs = "p_instances p" and w = "p_world p", OF assms(1)] obtain hs' w' where
    "close_all bo (p_instances p) (p_world p) = Inr (hs', w')" "length hs' = length (p_instances p)"
    "list_all file_closed hs'" by blast
  with l show ?thesis by (simp add: GracefulStop_def)
qed

end
