(* ===== verification/Invitation.thy ===== *)
theory Invitation
  imports Base64
begin

text \<open>
  Invitations to a connection (\<open>std/didexchange/invitation\<close>): the two versions, how they are written as a link and read
  back, and the keys of their services. JSON, the parsing of URLs and the encodings of keys are parameters.
\<close>

subsection \<open>Models\<close>

record AgentInfo =
  InvitationType :: string
  InvitationID :: string
  EndpointURL :: string
  RecipientKey :: string
  AgentLabel :: string

record ServiceEndpoint =
  se_ID :: string
  se_ServiceEndpoint :: string
  se_Type :: string
  se_RecipientKeys :: "string list"
  se_RoutingKeys :: "string list"

record V0 =
  v0_ImageURL :: string
  v0_ServiceEndpoint :: string
  v0_RecipientKeys :: "string list"
  v0_ID :: string
  v0_Label :: string
  v0_RoutingKeys :: "string list"
  v0_Type :: string

record V1 =
  v1_Type :: string
  v1_ID :: string
  v1_Label :: string
  v1_Accept :: "string list"
  v1_HandshakeProtocols :: "string list"
  v1_Services :: "ServiceEndpoint list"
  v1_ImageURL :: string

text \<open>The two types that implement the interface \<open>Invitation\<close>.\<close>

datatype invitation = InvV0 V0 | InvV1 V1

definition DIDExchangeVersionV0 :: int where
  "DIDExchangeVersionV0 = 0"

definition DIDExchangeVersionV1 :: int where
  "DIDExchangeVersionV1 = 10"

text \<open>The methods of the two types, and the calls through the interface.\<close>

definition Version_V0 :: "V0 \<Rightarrow> int" where
  [simp]: "Version_V0 v = DIDExchangeVersionV0"

definition Version_V1 :: "V1 \<Rightarrow> int" where
  [simp]: "Version_V1 v = DIDExchangeVersionV1"

definition inv_Version :: "invitation \<Rightarrow> int" where
  "inv_Version i = (case i of InvV0 v \<Rightarrow> Version_V0 v | InvV1 v \<Rightarrow> Version_V1 v)"

definition Type_V0 :: "V0 \<Rightarrow> string" where
  [simp]: "Type_V0 v = v0_Type v"

definition Type_V1 :: "V1 \<Rightarrow> string" where
  [simp]: "Type_V1 v = v1_Type v"

definition inv_Type :: "invitation \<Rightarrow> string" where
  "inv_Type i = (case i of InvV0 v \<Rightarrow> Type_V0 v | InvV1 v \<Rightarrow> Type_V1 v)"

definition ID_V0 :: "V0 \<Rightarrow> string" where
  [simp]: "ID_V0 v = v0_ID v"

definition ID_V1 :: "V1 \<Rightarrow> string" where
  [simp]: "ID_V1 v = v1_ID v"

definition inv_ID :: "invitation \<Rightarrow> string" where
  "inv_ID i = (case i of InvV0 v \<Rightarrow> ID_V0 v | InvV1 v \<Rightarrow> ID_V1 v)"

definition Label_V0 :: "V0 \<Rightarrow> string" where
  [simp]: "Label_V0 v = v0_Label v"

definition Label_V1 :: "V1 \<Rightarrow> string" where
  [simp]: "Label_V1 v = v1_Label v"

definition inv_Label :: "invitation \<Rightarrow> string" where
  "inv_Label i = (case i of InvV0 v \<Rightarrow> Label_V0 v | InvV1 v \<Rightarrow> Label_V1 v)"

definition ImageURL_V0 :: "V0 \<Rightarrow> string" where
  [simp]: "ImageURL_V0 v = v0_ImageURL v"

definition ImageURL_V1 :: "V1 \<Rightarrow> string" where
  [simp]: "ImageURL_V1 v = v1_ImageURL v"

definition inv_ImageURL :: "invitation \<Rightarrow> string" where
  "inv_ImageURL i = (case i of InvV0 v \<Rightarrow> ImageURL_V0 v | InvV1 v \<Rightarrow> ImageURL_V1 v)"

definition Services_V0 :: "V0 \<Rightarrow> ServiceEndpoint list" where
  [simp]: "Services_V0 v = [\<lparr>se_ID = [], se_ServiceEndpoint = v0_ServiceEndpoint v, se_Type = [],
     se_RecipientKeys = v0_RecipientKeys v, se_RoutingKeys = v0_RoutingKeys v\<rparr>]"

definition Services_V1 :: "V1 \<Rightarrow> ServiceEndpoint list" where
  [simp]: "Services_V1 v = v1_Services v"

definition inv_Services :: "invitation \<Rightarrow> ServiceEndpoint list" where
  "inv_Services i = (case i of InvV0 v \<Rightarrow> Services_V0 v | InvV1 v \<Rightarrow> Services_V1 v)"

text \<open>The first version panics with a message of its own.\<close>

definition Accept_V0 :: "V0 \<Rightarrow> string list go" where
  [simp]: "Accept_V0 v = Inl AssertFailed"

definition Accept_V1 :: "V1 \<Rightarrow> string list go" where
  [simp]: "Accept_V1 v = Inr (v1_Accept v)"

definition inv_Accept :: "invitation \<Rightarrow> string list go" where
  "inv_Accept i = (case i of InvV0 v \<Rightarrow> Accept_V0 v | InvV1 v \<Rightarrow> Accept_V1 v)"

definition HandshakeProtocols_V0 :: "V0 \<Rightarrow> string list go" where
  [simp]: "HandshakeProtocols_V0 v = Inl AssertFailed"

definition HandshakeProtocols_V1 :: "V1 \<Rightarrow> string list go" where
  [simp]: "HandshakeProtocols_V1 v = Inr (v1_HandshakeProtocols v)"

definition inv_HandshakeProtocols :: "invitation \<Rightarrow> string list go" where
  "inv_HandshakeProtocols i = (case i of InvV0 v \<Rightarrow> HandshakeProtocols_V0 v | InvV1 v \<Rightarrow> HandshakeProtocols_V1 v)"

subsection \<open>Keys\<close>

text \<open>The encodings of keys: of did:key identifiers and in base 58. \<open>None\<close> is an error.\<close>

record keylib =
  PubKeyFromDIDKey :: "string \<Rightarrow> string option"
  CreateDIDKey :: "string \<Rightarrow> string"
  base58_Encode :: "string \<Rightarrow> string"
  base58_Decode :: "string \<Rightarrow> string option"

definition DIDKeyPrefix :: string where
  "DIDKeyPrefix = ''did:key''"

text \<open>A key that cannot be read throws, since the function has no handler. The code writes the result over the
  keys of the endpoint, whose elements are shared; the result is what is in them afterwards.\<close>

fun didKeysToB58 :: "keylib \<Rightarrow> string list \<Rightarrow> string list go" where
  "didKeysToB58 kl [] = Inr []"
| "didKeysToB58 kl (key # keys) =
     bindG (if hasPrefix key DIDKeyPrefix then
              (case PubKeyFromDIDKey kl key of None \<Rightarrow> Inl ErrThrown | Some b \<Rightarrow> Inr (base58_Encode kl b))
            else Inr key)
       (\<lambda>k. bindG (didKeysToB58 kl keys) (\<lambda>ks. Inr (k # ks)))"

definition RecipientKeysAsB58 :: "keylib \<Rightarrow> ServiceEndpoint \<Rightarrow> string list go" where
  "RecipientKeysAsB58 kl s = didKeysToB58 kl (se_RecipientKeys s)"

definition RoutingKeysAsB58 :: "keylib \<Rightarrow> ServiceEndpoint \<Rightarrow> string list go" where
  "RoutingKeysAsB58 kl s = didKeysToB58 kl (se_RoutingKeys s)"

definition b58ToDIDKey :: "keylib \<Rightarrow> string \<Rightarrow> string" where
  "b58ToDIDKey kl key =
     (if \<not> hasPrefix key DIDKeyPrefix then
        (case base58_Decode kl key of Some keyBytes \<Rightarrow> CreateDIDKey kl keyBytes | None \<Rightarrow> key)
      else key)"

subsection \<open>Creating, building, translating\<close>

definition CreateInvitationV0 :: "AgentInfo \<Rightarrow> invitation" where
  "CreateInvitationV0 info = InvV0 \<lparr>v0_ImageURL = [], v0_ServiceEndpoint = EndpointURL info,
     v0_RecipientKeys = [RecipientKey info], v0_ID = InvitationID info, v0_Label = AgentLabel info,
     v0_RoutingKeys = [], v0_Type = InvitationType info\<rparr>"

definition CreateInvitationV1 :: "keylib \<Rightarrow> AgentInfo \<Rightarrow> invitation" where
  "CreateInvitationV1 kl info = InvV1 \<lparr>v1_Type = InvitationType info, v1_ID = InvitationID info,
     v1_Label = AgentLabel info, v1_Accept = [], v1_HandshakeProtocols = [],
     v1_Services = [\<lparr>se_ID = [], se_ServiceEndpoint = EndpointURL info, se_Type = [],
       se_RecipientKeys = [b58ToDIDKey kl (RecipientKey info)], se_RoutingKeys = []\<rparr>],
     v1_ImageURL = []\<rparr>"

definition Create :: "keylib \<Rightarrow> int \<Rightarrow> AgentInfo \<Rightarrow> invitation option" where
  "Create kl version info =
     (if version = DIDExchangeVersionV0 then Some (CreateInvitationV0 info)
      else if version = DIDExchangeVersionV1 then Some (CreateInvitationV1 kl info)
      else None)"

text \<open>
  \<open>json.Marshal\<close> and \<open>json.Unmarshal\<close> at the types of the code, and what the header's type is after unmarshalling,
  whose error is not looked at; \<open>url.Parse\<close> with the raw query it yields, and \<open>url.ParseQuery\<close>.
\<close>

record weblib =
  MarshalInv :: "invitation \<Rightarrow> string option"
  UnmarshalHeader :: "string \<Rightarrow> string"
  UnmarshalV0 :: "string \<Rightarrow> V0 option"
  UnmarshalV1 :: "string \<Rightarrow> V1 option"
  url_Parse :: "string \<Rightarrow> string option"
  url_ParseQuery :: "string \<Rightarrow> (string \<rightharpoonup> string list) option"

definition V0_prefix :: string where
  "V0_prefix = ''didcomm://aries_connection_invitation?c_i=''"

definition V1_prefix :: string where
  "V1_prefix = ''didcomm://aries_connection_invitation?oob=''"

definition Build_V0 :: "weblib \<Rightarrow> V0 \<Rightarrow> string option" where
  [simp]: "Build_V0 wl v = map_option (\<lambda>b. V0_prefix @ b64_encode url_alphabet b) (MarshalInv wl (InvV0 v))"

definition Build_V1 :: "weblib \<Rightarrow> V1 \<Rightarrow> string option" where
  [simp]: "Build_V1 wl v = map_option (\<lambda>b. V1_prefix @ b64_encode url_alphabet b) (MarshalInv wl (InvV1 v))"

definition Build :: "weblib \<Rightarrow> invitation \<Rightarrow> string option" where
  "Build wl i = (case i of InvV0 v \<Rightarrow> Build_V0 wl v | InvV1 v \<Rightarrow> Build_V1 wl v)"

definition decodeB64 :: "string \<Rightarrow> string option" where
  "decodeB64 str = (case padded_decode url_alphabet str of Some d \<Rightarrow> Some d | None \<Rightarrow> raw_decode url_alphabet str)"

definition parseInvitationJSON :: "weblib \<Rightarrow> string \<Rightarrow> invitation option" where
  "parseInvitationJSON wl js =
     (let type = UnmarshalHeader wl js in
      if contains type ''connections'' then map_option InvV0 (UnmarshalV0 wl js)
      else if contains type ''out-of-band'' then map_option InvV1 (UnmarshalV1 wl js)
      else None)"

text \<open>\<open>strings.TrimSpace\<close> on ASCII text.\<close>

definition is_space :: "char \<Rightarrow> bool" where
  "is_space c \<longleftrightarrow> c \<in> {CHR '' '', CHR 0x09, CHR 0x0A, CHR 0x0B, CHR 0x0C, CHR 0x0D}"

definition TrimSpace :: "string \<Rightarrow> string" where
  "TrimSpace s = rev (dropWhile is_space (rev (dropWhile is_space s)))"

text \<open>The result is \<open>None\<close> for an error; a failed assertion is one too, since the handler of the function
  turns it into an error.\<close>

definition Translate :: "weblib \<Rightarrow> string \<Rightarrow> invitation option" where
  "Translate wl s =
     (case url_Parse wl (TrimSpace s) of
        None \<Rightarrow> parseInvitationJSON wl s
      | Some rawQuery \<Rightarrow>
          (case url_ParseQuery wl rawQuery of
             None \<Rightarrow> None
           | Some m \<Rightarrow>
               (let invB64Str = (case m ''c_i'' of Some v \<Rightarrow> v | None \<Rightarrow> (case m ''oob'' of Some v \<Rightarrow> v | None \<Rightarrow> [])) in
                case invB64Str of
                  [] \<Rightarrow> None
                | b # _ \<Rightarrow> (case decodeB64 b of None \<Rightarrow> None | Some bytes \<Rightarrow> parseInvitationJSON wl bytes))))"

subsection \<open>Laws\<close>

text \<open>
  The documented behaviour: marshalling an invitation of ASCII texts and unmarshalling it at its type gives
  it back, and its header is its type; a link of the two shapes above has the query after the question
  mark, which is one parameter, since base64's URL alphabet is not escaped.
\<close>

definition web_laws :: "weblib \<Rightarrow> bool" where
  "web_laws wl \<longleftrightarrow>
     (\<forall>v js. MarshalInv wl (InvV0 v) = Some js \<longrightarrow> UnmarshalHeader wl js = v0_Type v \<and> UnmarshalV0 wl js = Some v) \<and>
     (\<forall>v js. MarshalInv wl (InvV1 v) = Some js \<longrightarrow> UnmarshalHeader wl js = v1_Type v \<and> UnmarshalV1 wl js = Some v) \<and>
     (\<forall>t. set t \<subseteq> set url_alphabet \<longrightarrow>
        url_Parse wl (V0_prefix @ t) = Some (''c_i='' @ t) \<and> url_Parse wl (V1_prefix @ t) = Some (''oob='' @ t) \<and>
        url_ParseQuery wl (''c_i='' @ t) = Some [''c_i'' \<mapsto> [t]] \<and>
        url_ParseQuery wl (''oob='' @ t) = Some [''oob'' \<mapsto> [t]])"

definition key_laws :: "keylib \<Rightarrow> bool" where
  "key_laws kl \<longleftrightarrow>
     (\<forall>k b. base58_Decode kl k = Some b \<longrightarrow> base58_Encode kl b = k) \<and>
     (\<forall>b. hasPrefix (CreateDIDKey kl b) DIDKeyPrefix \<and> PubKeyFromDIDKey kl (CreateDIDKey kl b) = Some b)"

lemma decodeB64_encode: "decodeB64 (b64_encode url_alphabet s) = Some s"
  using padded_decode_encode [OF good_url, of s] raw_decode_encode [OF good_url, of s]
  by (auto simp: decodeB64_def split: option.split)

lemma TrimSpace_link:
  assumes "set t \<subseteq> set url_alphabet" "pre \<noteq> []" "\<not> is_space (hd pre)" "\<not> is_space (last pre)"
  shows "TrimSpace (pre @ t) = pre @ t"
proof -
  have a: "\<forall>c \<in> set url_alphabet. \<not> is_space c" by code_simp
  have l: "\<not> is_space (last (pre @ t))"
    using assms a by (cases t rule: rev_cases) auto
  obtain c s where s: "pre @ t = c # s" using assms(2) by (cases pre) auto
  with assms(2,3) have "\<not> is_space c" by (cases pre) auto
  moreover have "dropWhile is_space (rev (pre @ t)) = rev (pre @ t)"
    using l assms(2) by (cases "pre @ t" rule: rev_cases) auto
  ultimately show ?thesis using s by (simp add: TrimSpace_def)
qed

text \<open>What a built link translates to is decided by the type of the invitation alone.\<close>

lemma Translate_Build:
  assumes "web_laws wl" "Build wl i = Some s"
  shows "\<exists>js. MarshalInv wl i = Some js \<and> Translate wl s = parseInvitationJSON wl js"
proof -
  from assms(2) obtain js where js: "MarshalInv wl i = Some js"
    "s = (case i of InvV0 _ \<Rightarrow> V0_prefix | InvV1 _ \<Rightarrow> V1_prefix) @ b64_encode url_alphabet js"
    by (cases i) (auto simp: Build_def)
  let ?t = "b64_encode url_alphabet js"
  have t: "set ?t \<subseteq> set url_alphabet" by (rule encode_alphabet [OF good_url])
  have trim: "TrimSpace (V0_prefix @ ?t) = V0_prefix @ ?t" "TrimSpace (V1_prefix @ ?t) = V1_prefix @ ?t"
    by (rule TrimSpace_link [OF t]; simp add: V0_prefix_def V1_prefix_def is_space_def)+
  have q: "url_Parse wl (V0_prefix @ ?t) = Some (''c_i='' @ ?t)" "url_Parse wl (V1_prefix @ ?t) = Some (''oob='' @ ?t)"
    "url_ParseQuery wl (''c_i='' @ ?t) = Some [''c_i'' \<mapsto> [?t]]"
    "url_ParseQuery wl (''oob='' @ ?t) = Some [''oob'' \<mapsto> [?t]]"
    using assms(1) t unfolding web_laws_def by blast+
  have "Translate wl (V0_prefix @ ?t) = parseInvitationJSON wl js" "Translate wl (V1_prefix @ ?t) = parseInvitationJSON wl js"
    unfolding Translate_def trim q option.case by (simp_all add: decodeB64_encode)
  then have "Translate wl s = parseInvitationJSON wl js" unfolding js(2) by (cases i) simp_all
  with js(1) show ?thesis by blast
qed

lemma Translate_type:
  assumes "web_laws wl" "Build wl i = Some s" "Translate wl s = Some i'"
  shows "contains (inv_Type i) ''connections'' = (inv_Version i' = DIDExchangeVersionV0)"
proof -
  from Translate_Build [OF assms(1,2)] obtain js where js: "MarshalInv wl i = Some js" "Translate wl s = parseInvitationJSON wl js"
    by blast
  from js(1) assms(1) have "UnmarshalHeader wl js = inv_Type i"
    unfolding web_laws_def inv_Type_def by (cases i) auto
  with js(2) assms(3) show ?thesis
    by (cases "UnmarshalV0 wl js"; cases "UnmarshalV1 wl js") (auto simp: parseInvitationJSON_def Let_def
        inv_Version_def DIDExchangeVersionV0_def DIDExchangeVersionV1_def split: if_splits)
qed

text \<open>The type fits the version.\<close>

definition type_fits :: "invitation \<Rightarrow> bool" where
  "type_fits i \<longleftrightarrow> (case i of
     InvV0 v \<Rightarrow> contains (v0_Type v) ''connections''
   | InvV1 v \<Rightarrow> \<not> contains (v1_Type v) ''connections'' \<and> contains (v1_Type v) ''out-of-band'')"

lemma Translate_round_trip:
  assumes "web_laws wl" "Build wl i = Some s" "type_fits i"
  shows "Translate wl s = Some i"
proof -
  from Translate_Build [OF assms(1,2)] obtain js where js: "MarshalInv wl i = Some js" "Translate wl s = parseInvitationJSON wl js"
    by blast
  show ?thesis
  proof (cases i)
    case (InvV0 v)
    with js(1) assms(1) have "UnmarshalHeader wl js = v0_Type v" "UnmarshalV0 wl js = Some v"
      unfolding web_laws_def by blast+
    with js(2) assms(3) InvV0 show ?thesis by (simp add: parseInvitationJSON_def type_fits_def)
  next
    case (InvV1 v)
    with js(1) assms(1) have "UnmarshalHeader wl js = v1_Type v" "UnmarshalV1 wl js = Some v"
      unfolding web_laws_def by blast+
    with js(2) assms(3) InvV1 show ?thesis by (simp add: parseInvitationJSON_def type_fits_def)
  qed
qed

text \<open>The key of the agent comes back from either version.\<close>

lemma Create_key:
  assumes "key_laws kl" "Create kl version info = Some i" "\<not> hasPrefix (RecipientKey info) DIDKeyPrefix"
  shows "\<exists>s. inv_Services i = [s] \<and> RecipientKeysAsB58 kl s = Inr [RecipientKey info]"
proof -
  have "didKeysToB58 kl [b58ToDIDKey kl (RecipientKey info)] = Inr [RecipientKey info]"
    using assms(1,3) by (cases "base58_Decode kl (RecipientKey info)") (auto simp: b58ToDIDKey_def key_laws_def)
  with assms(2,3) show ?thesis
    by (auto simp: Create_def CreateInvitationV0_def CreateInvitationV1_def inv_Services_def RecipientKeysAsB58_def
        split: if_splits)
qed

end
