(* ===== verification/Client_Protocol.thy ===== *)
theory Client_Protocol
  imports Client_Stream Invitation
begin

text \<open>
  The protocols that a client starts over one connection: the functions of \<open>Pairwise\<close> in
  \<open>agency/client/client.go\<close>, which run a protocol and return the channel of its states, and those in
  \<open>agency/client/async/pairwise.go\<close>, which only start it. The call to the agency is a parameter: \<open>run\<close> and
  \<open>start\<close> map the protocol message to what the call returns.
\<close>

subsection \<open>The message\<close>

definition Protocol_INITIATOR :: int where
  "Protocol_INITIATOR = 1"

definition Protocol_ADDRESSEE :: int where
  "Protocol_ADDRESSEE = 2"

definition Protocol_RESUMER :: int where
  "Protocol_RESUMER = 3"

datatype 'a attrfmt = AttributesJSON string | Attributes 'a

datatype ('i, 'p) startmsg =
    StartDIDExchange string string
  | StartIssueCredential string "'i attrfmt"
  | StartPresentProof "'p attrfmt"
  | StartBasicMessage string

record ('i, 'p) Protocol =
  pr_ConnectionID :: string
  pr_TypeID :: Protocol_Type
  pr_Role :: int
  pr_StartMsg :: "('i, 'p) startmsg option"

record Pairwise =
  pw_ID :: string
  pw_Label :: string

subsection \<open>Running\<close>

definition OkStatus :: "ProtocolState \<Rightarrow> bool" where
  "OkStatus s \<longleftrightarrow> st_State s = ProtocolState_OK"

text \<open>The stream of the call is read by a goroutine of its own: the result is the new listener.\<close>

definition do_run :: "('p \<Rightarrow> string + unit) \<Rightarrow> 'p \<Rightarrow> string + ProtocolState pipe" where
  "do_run call protocol = (case call protocol of Inl e \<Rightarrow> Inl e | Inr _ \<Rightarrow> Inr new_pipe)"

definition pw_Issue :: "(('i, 'p) Protocol \<Rightarrow> 'r) \<Rightarrow> Pairwise \<Rightarrow> string \<Rightarrow> string \<Rightarrow> 'r" where
  "pw_Issue run pw credDefID attrsJSON =
     run \<lparr>pr_ConnectionID = pw_ID pw, pr_TypeID = Protocol_ISSUE_CREDENTIAL, pr_Role = Protocol_INITIATOR,
          pr_StartMsg = Some (StartIssueCredential credDefID (AttributesJSON attrsJSON))\<rparr>"

definition pw_IssueWithAttrs :: "(('i, 'p) Protocol \<Rightarrow> 'r) \<Rightarrow> Pairwise \<Rightarrow> string \<Rightarrow> 'i \<Rightarrow> 'r" where
  "pw_IssueWithAttrs run pw credDefID attrs =
     run \<lparr>pr_ConnectionID = pw_ID pw, pr_TypeID = Protocol_ISSUE_CREDENTIAL, pr_Role = Protocol_INITIATOR,
          pr_StartMsg = Some (StartIssueCredential credDefID (Attributes attrs))\<rparr>"

definition pw_ProposeIssue :: "(('i, 'p) Protocol \<Rightarrow> 'r) \<Rightarrow> Pairwise \<Rightarrow> string \<Rightarrow> string \<Rightarrow> 'r" where
  "pw_ProposeIssue run pw credDefID attrsJSON =
     run \<lparr>pr_ConnectionID = pw_ID pw, pr_TypeID = Protocol_ISSUE_CREDENTIAL, pr_Role = Protocol_ADDRESSEE,
          pr_StartMsg = Some (StartIssueCredential credDefID (AttributesJSON attrsJSON))\<rparr>"

definition pw_ProposeIssueWithAttrs :: "(('i, 'p) Protocol \<Rightarrow> 'r) \<Rightarrow> Pairwise \<Rightarrow> string \<Rightarrow> 'i \<Rightarrow> 'r" where
  "pw_ProposeIssueWithAttrs run pw credDefID attrs =
     run \<lparr>pr_ConnectionID = pw_ID pw, pr_TypeID = Protocol_ISSUE_CREDENTIAL, pr_Role = Protocol_ADDRESSEE,
          pr_StartMsg = Some (StartIssueCredential credDefID (Attributes attrs))\<rparr>"

definition pw_Ping :: "(('i, 'p) Protocol \<Rightarrow> 'r) \<Rightarrow> Pairwise \<Rightarrow> 'r" where
  "pw_Ping run pw =
     run \<lparr>pr_ConnectionID = pw_ID pw, pr_TypeID = Protocol_TRUST_PING, pr_Role = Protocol_INITIATOR, pr_StartMsg = None\<rparr>"

definition pw_BasicMessage :: "(('i, 'p) Protocol \<Rightarrow> 'r) \<Rightarrow> Pairwise \<Rightarrow> string \<Rightarrow> 'r" where
  "pw_BasicMessage run pw content =
     run \<lparr>pr_ConnectionID = pw_ID pw, pr_TypeID = Protocol_BASIC_MESSAGE, pr_Role = Protocol_INITIATOR,
          pr_StartMsg = Some (StartBasicMessage content)\<rparr>"

definition pw_ReqProof :: "(('i, 'p) Protocol \<Rightarrow> 'r) \<Rightarrow> Pairwise \<Rightarrow> string \<Rightarrow> 'r" where
  "pw_ReqProof run pw proofAttrs =
     run \<lparr>pr_ConnectionID = pw_ID pw, pr_TypeID = Protocol_PRESENT_PROOF, pr_Role = Protocol_INITIATOR,
          pr_StartMsg = Some (StartPresentProof (AttributesJSON proofAttrs))\<rparr>"

definition pw_ReqProofWithAttrs :: "(('i, 'p) Protocol \<Rightarrow> 'r) \<Rightarrow> Pairwise \<Rightarrow> 'p \<Rightarrow> 'r" where
  "pw_ReqProofWithAttrs run pw proofAttrs =
     run \<lparr>pr_ConnectionID = pw_ID pw, pr_TypeID = Protocol_PRESENT_PROOF, pr_Role = Protocol_INITIATOR,
          pr_StartMsg = Some (StartPresentProof (Attributes proofAttrs))\<rparr>"

definition pw_ProposeProof :: "(('i, 'p) Protocol \<Rightarrow> 'r) \<Rightarrow> Pairwise \<Rightarrow> string \<Rightarrow> 'r" where
  "pw_ProposeProof run pw proofAttrs =
     run \<lparr>pr_ConnectionID = pw_ID pw, pr_TypeID = Protocol_PRESENT_PROOF, pr_Role = Protocol_ADDRESSEE,
          pr_StartMsg = Some (StartPresentProof (AttributesJSON proofAttrs))\<rparr>"

definition pw_ProposeProofWithAttrs :: "(('i, 'p) Protocol \<Rightarrow> 'r) \<Rightarrow> Pairwise \<Rightarrow> 'p \<Rightarrow> 'r" where
  "pw_ProposeProofWithAttrs run pw proofAttrs =
     run \<lparr>pr_ConnectionID = pw_ID pw, pr_TypeID = Protocol_PRESENT_PROOF, pr_Role = Protocol_ADDRESSEE,
          pr_StartMsg = Some (StartPresentProof (Attributes proofAttrs))\<rparr>"

text \<open>The connection protocol: the result with the pairwise afterwards, whose id is the invitation's only
  when the protocol was started.\<close>

definition doConnection :: "weblib \<Rightarrow> (('i, 'p) Protocol \<Rightarrow> string + 'r) \<Rightarrow> Pairwise \<Rightarrow> string \<Rightarrow> int \<Rightarrow>
    (string + string \<times> 'r) \<times> Pairwise" where
  "doConnection wl run pw invitationStr role =
     (case Translate wl invitationStr of
        None \<Rightarrow> (Inl ''invitation translate'', pw)
      | Some invitation \<Rightarrow>
          (case run \<lparr>pr_ConnectionID = [], pr_TypeID = Protocol_DIDEXCHANGE, pr_Role = role,
                     pr_StartMsg = Some (StartDIDExchange (pw_Label pw) invitationStr)\<rparr> of
             Inl e \<Rightarrow> (Inl e, pw)
           | Inr ch \<Rightarrow> (let connID = inv_ID invitation in (Inr (connID, ch), pw\<lparr>pw_ID := connID\<rparr>))))"

definition Connection :: "weblib \<Rightarrow> (('i, 'p) Protocol \<Rightarrow> string + 'r) \<Rightarrow> Pairwise \<Rightarrow> string \<Rightarrow>
    (string + string \<times> 'r) \<times> Pairwise" where
  "Connection wl run pw invitationStr = doConnection wl run pw invitationStr Protocol_INITIATOR"

definition WaitConnection :: "weblib \<Rightarrow> (('i, 'p) Protocol \<Rightarrow> string + 'r) \<Rightarrow> Pairwise \<Rightarrow> string \<Rightarrow>
    (string + string \<times> 'r) \<times> Pairwise" where
  "WaitConnection wl run pw invitationStr = doConnection wl run pw invitationStr Protocol_ADDRESSEE"

subsection \<open>Starting\<close>

text \<open>The calls that start, resume, release and read a protocol return what the agency returns. After a success the type
  of the protocol is logged, which reads the id of a resumed state.\<close>

definition DoStart :: "('p \<Rightarrow> string + ProtocolID) \<Rightarrow> 'p \<Rightarrow> string + ProtocolID" where
  "DoStart start protocol = start protocol"

definition DoResume :: "(ProtocolState \<Rightarrow> string + ProtocolID) \<Rightarrow> ProtocolState \<Rightarrow> (string + ProtocolID) go" where
  "DoResume resume state =
     (case resume state of
        Inl e \<Rightarrow> Inr (Inl e)
      | Inr pid \<Rightarrow> bindG (deref (st_ProtocolID state)) (\<lambda>_. Inr (Inr pid)))"

definition DoRelease :: "(ProtocolID \<Rightarrow> string + ProtocolID) \<Rightarrow> ProtocolID \<Rightarrow> string + ProtocolID" where
  "DoRelease release pid = release pid"

definition DoStatus :: "(ProtocolID \<Rightarrow> string + ProtocolStatus) \<Rightarrow> ProtocolID \<Rightarrow> string + ProtocolStatus" where
  "DoStatus status pid = status pid"

definition NewPairwise :: "string \<Rightarrow> Pairwise" where
  "NewPairwise ID = \<lparr>pw_ID = ID, pw_Label = []\<rparr>"

definition async_BasicMessage :: "(('i, 'p) Protocol \<Rightarrow> 'r) \<Rightarrow> Pairwise \<Rightarrow> string \<Rightarrow> 'r" where
  "async_BasicMessage start pw content =
     start \<lparr>pr_ConnectionID = pw_ID pw, pr_TypeID = Protocol_BASIC_MESSAGE, pr_Role = Protocol_INITIATOR,
            pr_StartMsg = Some (StartBasicMessage content)\<rparr>"

definition async_Issue :: "(('i, 'p) Protocol \<Rightarrow> 'r) \<Rightarrow> Pairwise \<Rightarrow> string \<Rightarrow> string \<Rightarrow> 'r" where
  "async_Issue start pw credDefID attrsJSON =
     start \<lparr>pr_ConnectionID = pw_ID pw, pr_TypeID = Protocol_ISSUE_CREDENTIAL, pr_Role = Protocol_INITIATOR,
            pr_StartMsg = Some (StartIssueCredential credDefID (AttributesJSON attrsJSON))\<rparr>"

definition async_IssueWithAttrs :: "(('i, 'p) Protocol \<Rightarrow> 'r) \<Rightarrow> Pairwise \<Rightarrow> string \<Rightarrow> 'i \<Rightarrow> 'r" where
  "async_IssueWithAttrs start pw credDefID attrs =
     start \<lparr>pr_ConnectionID = pw_ID pw, pr_TypeID = Protocol_ISSUE_CREDENTIAL, pr_Role = Protocol_INITIATOR,
            pr_StartMsg = Some (StartIssueCredential credDefID (Attributes attrs))\<rparr>"

definition async_ProposeIssue :: "(('i, 'p) Protocol \<Rightarrow> 'r) \<Rightarrow> Pairwise \<Rightarrow> string \<Rightarrow> string \<Rightarrow> 'r" where
  "async_ProposeIssue start pw credDefID attrsJSON =
     start \<lparr>pr_ConnectionID = pw_ID pw, pr_TypeID = Protocol_ISSUE_CREDENTIAL, pr_Role = Protocol_ADDRESSEE,
            pr_StartMsg = Some (StartIssueCredential credDefID (AttributesJSON attrsJSON))\<rparr>"

definition async_ProposeIssueWithAttrs :: "(('i, 'p) Protocol \<Rightarrow> 'r) \<Rightarrow> Pairwise \<Rightarrow> string \<Rightarrow> 'i \<Rightarrow> 'r" where
  "async_ProposeIssueWithAttrs start pw credDefID attrs =
     start \<lparr>pr_ConnectionID = pw_ID pw, pr_TypeID = Protocol_ISSUE_CREDENTIAL, pr_Role = Protocol_ADDRESSEE,
            pr_StartMsg = Some (StartIssueCredential credDefID (Attributes attrs))\<rparr>"

definition async_ReqProof :: "(('i, 'p) Protocol \<Rightarrow> 'r) \<Rightarrow> Pairwise \<Rightarrow> string \<Rightarrow> 'r" where
  "async_ReqProof start pw proofAttrs =
     start \<lparr>pr_ConnectionID = pw_ID pw, pr_TypeID = Protocol_PRESENT_PROOF, pr_Role = Protocol_INITIATOR,
            pr_StartMsg = Some (StartPresentProof (AttributesJSON proofAttrs))\<rparr>"

definition async_ReqProofWithAttrs :: "(('i, 'p) Protocol \<Rightarrow> 'r) \<Rightarrow> Pairwise \<Rightarrow> 'p \<Rightarrow> 'r" where
  "async_ReqProofWithAttrs start pw proofAttrs =
     start \<lparr>pr_ConnectionID = pw_ID pw, pr_TypeID = Protocol_PRESENT_PROOF, pr_Role = Protocol_INITIATOR,
            pr_StartMsg = Some (StartPresentProof (Attributes proofAttrs))\<rparr>"

definition async_ProposeProof :: "(('i, 'p) Protocol \<Rightarrow> 'r) \<Rightarrow> Pairwise \<Rightarrow> string \<Rightarrow> 'r" where
  "async_ProposeProof start pw proofAttrs =
     start \<lparr>pr_ConnectionID = pw_ID pw, pr_TypeID = Protocol_PRESENT_PROOF, pr_Role = Protocol_ADDRESSEE,
            pr_StartMsg = Some (StartPresentProof (AttributesJSON proofAttrs))\<rparr>"

definition async_ProposeProofWithAttrs :: "(('i, 'p) Protocol \<Rightarrow> 'r) \<Rightarrow> Pairwise \<Rightarrow> 'p \<Rightarrow> 'r" where
  "async_ProposeProofWithAttrs start pw proofAttrs =
     start \<lparr>pr_ConnectionID = pw_ID pw, pr_TypeID = Protocol_PRESENT_PROOF, pr_Role = Protocol_ADDRESSEE,
            pr_StartMsg = Some (StartPresentProof (Attributes proofAttrs))\<rparr>"

definition async_Connection :: "weblib \<Rightarrow> (('i, 'p) Protocol \<Rightarrow> string + ProtocolID) \<Rightarrow> Pairwise \<Rightarrow> string \<Rightarrow>
    (string + ProtocolID) \<times> Pairwise" where
  "async_Connection wl start pw invitationStr =
     (case Translate wl invitationStr of
        None \<Rightarrow> (Inl ''invitation translate'', pw)
      | Some invitation \<Rightarrow>
          (case start \<lparr>pr_ConnectionID = [], pr_TypeID = Protocol_DIDEXCHANGE, pr_Role = Protocol_INITIATOR,
                       pr_StartMsg = Some (StartDIDExchange (pw_Label pw) invitationStr)\<rparr> of
             Inl e \<Rightarrow> (Inl e, pw)
           | Inr pid \<Rightarrow> (Inr pid, pw\<lparr>pw_ID := inv_ID invitation\<rparr>)))"

definition async_Resume :: "(ProtocolState \<Rightarrow> 'r) \<Rightarrow> string \<Rightarrow> Protocol_Type \<Rightarrow> int \<Rightarrow> 'r" where
  "async_Resume resume pid protocol protocolState =
     resume \<lparr>st_ProtocolID = Some \<lparr>pid_TypeID = protocol, pid_Role = Protocol_RESUMER, pid_ID = pid\<rparr>,
             st_State = protocolState\<rparr>"

subsection \<open>Laws\<close>

lemmas pairwise_defs = pw_Issue_def pw_IssueWithAttrs_def pw_ProposeIssue_def pw_ProposeIssueWithAttrs_def
  pw_Ping_def pw_BasicMessage_def pw_ReqProof_def pw_ReqProofWithAttrs_def pw_ProposeProof_def
  pw_ProposeProofWithAttrs_def async_BasicMessage_def async_Issue_def async_IssueWithAttrs_def
  async_ProposeIssue_def async_ProposeIssueWithAttrs_def async_ReqProof_def async_ReqProofWithAttrs_def
  async_ProposeProof_def async_ProposeProofWithAttrs_def

text \<open>An invitation that was built here connects under its own id, whoever invited.\<close>

lemma connection_id:
  assumes "web_laws wl" "Build wl i = Some s" "type_fits i" "doConnection wl run pw s role = (Inr (connID, ch), pw')"
  shows "connID = inv_ID i \<and> pw' = pw\<lparr>pw_ID := inv_ID i\<rparr>"
  using assms(4) Translate_round_trip [OF assms(1-3)]
  by (auto simp: doConnection_def Let_def split: sum.split_asm)

lemma connection_failed:
  assumes "doConnection wl run pw s role = (Inl e, pw')"
  shows "pw' = pw"
  using assms by (auto simp: doConnection_def Let_def split: option.split_asm sum.split_asm)

text \<open>Resuming by the id never panics: the state that is sent has one.\<close>

lemma async_Resume_returns: "async_Resume (DoResume resume) pid protocol state =
  Inr (resume \<lparr>st_ProtocolID = Some \<lparr>pid_TypeID = protocol, pid_Role = Protocol_RESUMER, pid_ID = pid\<rparr>, st_State = state\<rparr>)"
  by (simp add: async_Resume_def DoResume_def split: sum.split)

text \<open>Starting the connection and running it send the same message and end with the same pairwise.\<close>

lemma async_connection:
  "snd (async_Connection wl start pw s) = snd (Connection wl start pw s) \<and>
   fst (async_Connection wl start pw s) = map_sum id snd (fst (Connection wl start pw s))"
  by (simp add: async_Connection_def Connection_def doConnection_def Let_def split: option.split sum.split)

end
