(* ===== verification/Client_Properties.thy ===== *)
theory Client_Properties
  imports Client_Plain Client_Protocol
begin

text \<open>The properties of the client of the agency: its listeners, their waits, and connections.\<close>

subsection \<open>Examples\<close>

definition status0 :: "int \<Rightarrow> string \<Rightarrow> AgentStatus" where
  "status0 t pid = \<lparr>as_ClientID = ''client'', as_Notification = \<lparr>n_TypeID = t, n_ID = ''n'', n_ConnectionID = ''conn'',
     n_ProtocolID = pid, n_Timestamp = 0, n_ProtocolType = 1, n_Role = 1\<rparr>\<rparr>"

definition question0 :: Question where
  "question0 = \<lparr>q_Status = status0 0 ''q'', q_TypeID = 4, q_ProofVerify = None\<rparr>"

text \<open>A keep-alive and a status arrive; the first connection fails.\<close>

definition status_run :: "AgentStatus llabel list" where
  "status_run = [LConnect (Some ''down''), LSleep, LConnect None, LRecv (Msg (status0 1 ''keepalive'')),
     LRecv (Msg (status0 2 ''p''))]"

definition general_run :: "glabel list" where
  "general_run = [GStatus (LConnect None), GQuestion (LConnect None), GStatus (LRecv (Msg (status0 2 ''p''))),
     GQuestion (LRecv (Msg question0)), GQuestion LHand, GStatus LHand, GMergeStatus, GTake]"

text \<open>The stream of the statuses ends, the one of the questions goes on.\<close>

definition half_closed_run :: "glabel list" where
  "half_closed_run = [GStatus (LConnect None), GQuestion (LConnect None), GStatus (LRecv EOF), GStatus LHand,
     GQuestion (LRecv (Msg question0)), GQuestion LHand]"

lemmas client_simps = runs_of.simps ListenAndRetry_def merge_exec_def ListenStatusAndRetry_def WaitAndRetry_def
  listen_exec_def connect_def new_general_def new_listener_def transportStatus_def transportWait_def transport_def
  status_keepalive_def question_keepalive_def status0_def question0_def received_def go_consts

lemma status_run_ends:
  "\<exists>l. runs_of ListenStatusAndRetry status_run new_listener = Some l \<and> l_slept l = [fst (Sleep (NewSleeper sleeperFloor))]"
  by (cases "Sleep (NewSleeper sleeperFloor)") (simp add: status_run_def client_simps backoff_def)

lemma general_run_ends: "\<exists>g. runs_of ListenAndRetry general_run new_general = Some g \<and> lefts (g_out g) = [status0 2 ''p'']"
  by (simp add: general_run_def client_simps lefts_def)

lemma half_closed_run_ends:
  "\<exists>g. runs_of ListenAndRetry half_closed_run new_general = Some g \<and> g_merge g = MSelect 0 \<and>
     l_retry (g_status g) = RClosed \<and> l_retry (g_question g) = RForward question0 \<and> g_out g = []"
  by (simp add: half_closed_run_def client_simps)

subsection \<open>Listening\<close>

text \<open>C28: A retrying listener does not get stuck: in every state it can reach, whatever the agency and the
  network did, its goroutines and its user can make at most four more steps until only the agency can
  move it on, they do come to that point, and once there the user has read every message of all the
  streams that is not a keep-alive, once and in order, unless the channel was closed.\<close>

theorem listener_comes_to_rest:
  assumes "runs_of ListenStatusAndRetry ls new_listener = Some l"
  shows "(\<forall>ls' l'. set ls' \<subseteq> set internal \<and> runs_of ListenStatusAndRetry ls' l = Some l' \<longrightarrow> length ls' \<le> 4) \<and>
    (\<exists>ls' l'. set ls' \<subseteq> set internal \<and> runs_of ListenStatusAndRetry ls' l = Some l' \<and>
       (\<forall>lb \<in> set internal. ListenStatusAndRetry lb l' = None)) \<and>
    ((\<forall>lb \<in> set internal. ListenStatusAndRetry lb l = None) \<longrightarrow> l_retry l \<noteq> RClosed \<longrightarrow>
       l_out l = filter (\<lambda>m. \<not> status_keepalive m) (l_received l) \<and> (l_retry l = RConnect \<or> l_transport l = TRecv))"
proof -
  from assms have ok: "listener_ok status_keepalive l" unfolding ListenStatusAndRetry_exec by (rule statuses.run_ok)
  have "length ls' \<le> 4" if "set ls' \<subseteq> set internal" "runs_of ListenStatusAndRetry ls' l = Some l'" for ls' l'
    using statuses.internal_runs [OF that(2) [unfolded ListenStatusAndRetry_exec] that(1)] work_le [of l] by simp
  with statuses.comes_to_rest [of l] statuses.at_rest [OF ok] show ?thesis
    unfolding ListenStatusAndRetry_exec by blast
qed

theorem listener_comes_to_rest_witness:
  "\<exists>l. runs_of ListenStatusAndRetry status_run new_listener = Some l \<and>
     (\<exists>ls' l'. set ls' \<subseteq> set internal \<and> runs_of ListenStatusAndRetry ls' l = Some l' \<and>
       (\<forall>lb \<in> set internal. ListenStatusAndRetry lb l' = None))"
  using status_run_ends listener_comes_to_rest [of status_run] by blast

text \<open>C29: What the user of the merged listener reads is, of each kind, a prefix of the messages that the agency
  sent without the keep-alives, in their order; and when no goroutine can go on and the merge has not
  returned, nothing is missing of either kind.\<close>

theorem merged_listener_delivers_in_order:
  assumes "runs_of ListenAndRetry ls new_general = Some g"
  shows "prefix (lefts (g_out g)) (filter (\<lambda>m. \<not> status_keepalive m) (l_received (g_status g))) \<and>
    prefix (rights (g_out g)) (filter (\<lambda>m. \<not> question_keepalive m) (l_received (g_question g))) \<and>
    ((\<forall>lb \<in> set internal_general. ListenAndRetry lb g = None) \<longrightarrow> g_merge g \<noteq> MReturned \<longrightarrow>
       lefts (g_out g) = filter (\<lambda>m. \<not> status_keepalive m) (l_received (g_status g)) \<and>
       rights (g_out g) = filter (\<lambda>m. \<not> question_keepalive m) (l_received (g_question g)))"
  using general_prefixes [OF general_run_ok [OF assms]] general_at_rest [OF general_run_ok [OF assms]] by blast

theorem merged_listener_delivers_in_order_witness:
  "\<exists>g. runs_of ListenAndRetry general_run new_general = Some g \<and>
     prefix [status0 2 ''p''] (filter (\<lambda>m. \<not> status_keepalive m) (l_received (g_status g)))"
  using general_run_ends merged_listener_delivers_in_order [of general_run] by metis

text \<open>C30: The merge counts the closed channels it sees, not which they are: when the statuses have ended it
  sees their closed channel twice and returns, with its own channel closed, while the listener of
  the questions still has a question to forward. In whatever happens afterwards that question and
  those after it never reach the user.\<close>

theorem merge_abandons_open_listener:
  assumes "runs_of ListenAndRetry ls new_general = Some g" "g_merge g = MSelect 0"
    and "l_retry (g_status g) = RClosed" "l_retry (g_question g) = RForward q"
  shows "\<exists>g'. runs_of ListenAndRetry [GMergeStatus, GMergeStatus] g = Some g' \<and>
    (\<forall>ks g''. runs_of ListenAndRetry ks g' = Some g'' \<longrightarrow> g_merge g'' = MReturned \<and> g_out g'' = g_out g \<and>
       l_retry (g_question g'') = RForward q)"
proof -
  from merge_gives_up [OF assms(2-4)] obtain g' where
    g': "runs_of ListenAndRetry [GMergeStatus, GMergeStatus] g = Some g'" "abandoned q (g_out g) g'" by blast
  have "abandoned q (g_out g) g''" if "runs_of ListenAndRetry ks g' = Some g''" for ks g''
    by (rule runs_of_invariant [where I = "abandoned q (g_out g)", OF abandoned_stays g'(2) that])
  with g'(1) show ?thesis unfolding abandoned_def by blast
qed

theorem merge_abandons_open_listener_witness:
  "\<exists>g g'. runs_of ListenAndRetry half_closed_run new_general = Some g \<and>
     runs_of ListenAndRetry [GMergeStatus, GMergeStatus] g = Some g' \<and>
     (\<forall>ks g''. runs_of ListenAndRetry ks g' = Some g'' \<longrightarrow> l_retry (g_question g'') = RForward question0)"
proof -
  from half_closed_run_ends obtain g where g: "runs_of ListenAndRetry half_closed_run new_general = Some g"
    "g_merge g = MSelect 0" "l_retry (g_status g) = RClosed" "l_retry (g_question g) = RForward question0" by blast
  from merge_abandons_open_listener [OF g] g(1) show ?thesis by blast
qed

text \<open>C31: The \<open>i\<close>-th wait of a retrying listener between two connections is ten seconds and a power of two
  seconds that doubles up to the twelfth and then stays; the number of waits is never set back,
  however long a connection lasted in between, and no wait overflows.\<close>

theorem backoff_is_bounded:
  assumes "runs_of WaitAndRetry ls new_listener = Some l" "i < length (l_slept l)"
  shows "sint (l_slept l ! i) = (10 + 2 ^ min 12 (Suc i)) * 1000000000 \<and>
    12 * 1000000000 \<le> sint (l_slept l ! i) \<and> sint (l_slept l ! i) \<le> 4106 * 1000000000"
proof -
  from assms(1) have "listener_ok question_keepalive l" unfolding WaitAndRetry_def by (rule questions.run_ok)
  from listener_waits [OF this assms(2)] have
    e: "sint (l_slept l ! i) = 10 * 1000000000 + 2 ^ min 12 (Suc i) * 1000000000" .
  have "(2::int) ^ 1 \<le> 2 ^ min 12 (Suc i)" "(2::int) ^ min 12 (Suc i) \<le> 2 ^ 12" by (rule power_increasing; simp)+
  then have "(2::int) \<le> 2 ^ min 12 (Suc i)" "(2::int) ^ min 12 (Suc i) \<le> 4096" by (simp_all del: min_Suc_Suc)
  then show ?thesis unfolding e distrib_right by linarith
qed

theorem backoff_is_bounded_witness:
  "\<exists>l. runs_of WaitAndRetry [LConnect (Some ''down''), LSleep] new_listener = Some l \<and> sint (l_slept l ! 0) = 12 * 1000000000"
proof -
  have "\<exists>l. runs_of WaitAndRetry [LConnect (Some ''down''), LSleep] new_listener = Some l \<and> length (l_slept l) = 1"
    by (cases "Sleep (NewSleeper sleeperFloor)") (simp add: client_simps backoff_def)
  then obtain l where l: "runs_of WaitAndRetry [LConnect (Some ''down''), LSleep] new_listener = Some l" "length (l_slept l) = 1"
    by blast
  from l(2) have "0 < length (l_slept l)" by simp
  note l = l(1) this
  from backoff_is_bounded [OF l] l(1) show ?thesis by auto
qed

text \<open>C32: The states of a protocol that was run: the channel is closed exactly when the stream has ended or
  failed, the user who read it to its end has every state of the stream, and a failure cannot be told
  from the end.\<close>

theorem run_states_complete:
  assumes "runs_of doRun ls new_pipe = Some p"
  shows "(pi_transport p = TDone True \<longleftrightarrow> EOF \<in> set (pi_received p) \<or> (\<exists>e. RecvErr e \<in> set (pi_received p))) \<and>
    (pi_transport p = TDone True \<longrightarrow> map Msg (pi_out p) = filter (\<lambda>r. received r \<noteq> []) (pi_received p)) \<and>
    (\<forall>q e. map_option pi_transport (doRun (PRecv EOF) q) = map_option pi_transport (doRun (PRecv (RecvErr e)) q))"
proof -
  from assms have ok: "pipe_ok (\<lambda>_. False) p" unfolding doRun_def by (rule pipe_run_ok)
  have r: "received r = [] \<longleftrightarrow> r = EOF \<or> (\<exists>e. r = RecvErr e)" for r :: "ProtocolState recv"
    by (cases r) (simp_all add: received_def)
  have k: "map Msg (kept (\<lambda>_. False) rs) = filter (\<lambda>r. received r \<noteq> []) rs" for rs :: "ProtocolState recv list"
    by (induction rs) (auto simp: kept_def received_def split: recv.split)
  have "pi_transport p = TDone True \<longleftrightarrow> EOF \<in> set (pi_received p) \<or> (\<exists>e. RecvErr e \<in> set (pi_received p))"
    using ok r unfolding pipe_ok_def by metis
  moreover have "map_option pi_transport (doRun (PRecv EOF) q) = map_option pi_transport (doRun (PRecv (RecvErr e)) q)" for q e
    by (simp add: doRun_def pipe_exec_def transport_def split: tpc.split)
  ultimately show ?thesis using pipe_closed [OF ok] k by metis
qed

theorem run_states_complete_witness:
  "\<exists>p. runs_of doRun [PRecv (Msg \<lparr>st_ProtocolID = None, st_State = 0\<rparr>), PTake, PRecv EOF] new_pipe = Some p \<and>
     map Msg (pi_out p) = [Msg \<lparr>st_ProtocolID = None, st_State = 0\<rparr> :: ProtocolState recv]"
proof -
  let ?r = "[PRecv (Msg \<lparr>st_ProtocolID = None, st_State = 0\<rparr>), PTake, PRecv EOF] :: ProtocolState plabel list"
  have "\<exists>p. runs_of doRun ?r new_pipe = Some p \<and> pi_transport p = TDone True \<and>
      filter (\<lambda>r. received r \<noteq> []) (pi_received p) = [Msg \<lparr>st_ProtocolID = None, st_State = 0\<rparr>]"
    by (simp add: doRun_def pipe_exec_def transport_def new_pipe_def received_def)
  with run_states_complete [of ?r] show ?thesis by metis
qed

subsection \<open>Connections\<close>

definition agent0 :: AgentInfo where
  "agent0 = \<lparr>InvitationType = ''https://didcomm.org/connections/1.0/invitation'', InvitationID = ''d3dbb600'',
     EndpointURL = ''http://example.com'', RecipientKey = ''8QhFxKxyaFsJy4CyxeYX34dFH8oWqyBv1P4HLQCsoeLy'',
     AgentLabel = ''alice''\<rparr>"

definition keylib0 :: keylib where
  "keylib0 = \<lparr>PubKeyFromDIDKey = (\<lambda>k. Some (drop 7 k)), CreateDIDKey = (\<lambda>b. DIDKeyPrefix @ b),
     base58_Encode = id, base58_Decode = Some\<rparr>"

text \<open>A JSON library for the one invitation of the example; the URLs are taken apart at the question mark and at the
  equals sign.\<close>

definition weblib0 :: weblib where
  "weblib0 = \<lparr>MarshalInv = (\<lambda>i. if i = CreateInvitationV0 agent0 then Some ''{...}'' else None),
     UnmarshalHeader = (\<lambda>_. InvitationType agent0),
     UnmarshalV0 = (\<lambda>_. case CreateInvitationV0 agent0 of InvV0 v \<Rightarrow> Some v | _ \<Rightarrow> None),
     UnmarshalV1 = (\<lambda>_. None),
     url_Parse = (\<lambda>s. Some (tl (dropWhile (\<lambda>c. c \<noteq> CHR ''?'') s))),
     url_ParseQuery = (\<lambda>q. Some [takeWhile (\<lambda>c. c \<noteq> CHR ''='') q \<mapsto> [tl (dropWhile (\<lambda>c. c \<noteq> CHR ''='') q)]])\<rparr>"

lemma keylib0_laws: "key_laws keylib0"
  by (simp add: key_laws_def keylib0_def DIDKeyPrefix_def hasPrefix_def)

lemma weblib0_laws: "web_laws weblib0"
  by (auto simp: web_laws_def weblib0_def CreateInvitationV0_def V0_prefix_def V1_prefix_def split: if_splits)

text \<open>C33: An invitation whose type fits its version comes back from its link as it was built, with the
  inviter's key in base 58 whatever the version; and inviter and invitee who use that link both
  name the connection by the invitation's id, which a pairwise takes only when the protocol was
  started.\<close>

theorem invitation_round_trip:
  assumes "web_laws wl" "key_laws kl" "Create kl version info = Some i" "Build wl i = Some s" "type_fits i"
    and "\<not> hasPrefix (RecipientKey info) DIDKeyPrefix"
  shows "Translate wl s = Some i \<and>
    (\<exists>se. inv_Services i = [se] \<and> RecipientKeysAsB58 kl se = Inr [RecipientKey info]) \<and>
    (\<forall>run pw role res pw'. doConnection wl run pw s role = (res, pw') \<longrightarrow>
       (case res of Inl e \<Rightarrow> pw' = pw
        | Inr (connID, ch) \<Rightarrow> connID = InvitationID info \<and> pw' = pw\<lparr>pw_ID := InvitationID info\<rparr>))"
proof -
  have i: "inv_ID i = InvitationID info"
    using assms(3) by (auto simp: Create_def CreateInvitationV0_def CreateInvitationV1_def inv_ID_def split: if_splits)
  have "case res of Inl e \<Rightarrow> pw' = pw
      | Inr (connID, ch) \<Rightarrow> connID = InvitationID info \<and> pw' = pw\<lparr>pw_ID := InvitationID info\<rparr>"
    if d: "doConnection wl run pw s role = (res, pw')" for run pw role res pw'
  proof (cases res)
    case (Inl e)
    with connection_failed [OF d [unfolded Inl]] show ?thesis by simp
  next
    case (Inr r)
    then obtain connID ch where r: "res = Inr (connID, ch)" by (cases r) simp
    from connection_id [OF assms(1,4,5) d [unfolded r]] i r show ?thesis by simp
  qed
  with Translate_round_trip [OF assms(1,4,5)] Create_key [OF assms(2,3,6)] show ?thesis by blast
qed

theorem invitation_round_trip_witness:
  "\<exists>i s. Create keylib0 0 agent0 = Some i \<and> Build weblib0 i = Some s \<and> Translate weblib0 s = Some i"
proof -
  let ?i = "CreateInvitationV0 agent0"
  have c: "Create keylib0 0 agent0 = Some ?i" by (simp add: Create_def DIDExchangeVersionV0_def)
  have "\<exists>s. Build weblib0 ?i = Some s" by (simp add: Build_def weblib0_def CreateInvitationV0_def)
  then obtain s where s: "Build weblib0 ?i = Some s" ..
  have "type_fits ?i = contains ''https://didcomm.org/connections/1.0/invitation'' ''connections''"
    by (simp add: type_fits_def CreateInvitationV0_def agent0_def)
  moreover have "contains (''https://didcomm.org/'' @ ''connections'' @ ''/1.0/invitation'') ''connections''"
    unfolding contains_def by (rule sublist_appendI)
  ultimately have f: "type_fits ?i" by simp
  have k: "\<not> hasPrefix (RecipientKey agent0) DIDKeyPrefix" by (simp add: agent0_def hasPrefix_def DIDKeyPrefix_def)
  from invitation_round_trip [OF weblib0_laws keylib0_laws c s f k] c s show ?thesis by blast
qed

end
