(* ===== verification/Jwt_Tokens.thy ===== *)
theory Jwt_Tokens
  imports Go_Prelude
begin

text \<open>
  The tokens of the agency's clients (\<open>jwt/jwt.go\<close>, \<open>jwt/tokenctx.go\<close>, \<open>jwt/mw/mw.go\<close>): building them, checking the ones
  of a request, and the user and token that a request's context carries. Signing and parsing are a
  package outside the repository, a record of its functions. The package variable \<open>key\<close> is an argument.
\<close>

subsection \<open>Time\<close>

text \<open>A time is its nanoseconds since the epoch, a duration a number of nanoseconds in the range of int64.\<close>

definition second_ns :: int where
  "second_ns = 1000000000"

definition Unix :: "int \<Rightarrow> int" where
  "Unix t = t div second_ns"

definition Time_Sub :: "int \<Rightarrow> int \<Rightarrow> int" where
  "Time_Sub t u = max (- (2 ^ 63)) (min (2 ^ 63 - 1) (t - u))"

subsection \<open>Claims, tokens and contexts\<close>

text \<open>\<open>cc_ExpiresAt\<close> is \<open>None\<close> when the embedded pointer to the standard claims is nil.\<close>

record customClaims =
  cc_Username :: string
  cc_Label :: string
  cc_ExpiresAt :: "int option"

text \<open>A parsed token; \<open>tk_Claims\<close> is \<open>None\<close> when its claims are not of the type above.\<close>

record jwt_token =
  tk_Raw :: string
  tk_Claims :: "customClaims option"
  tk_Valid :: bool

record jwtlib =
  SignedString :: "customClaims \<Rightarrow> string \<Rightarrow> string option"
  ParseWithClaims :: "string \<Rightarrow> string \<Rightarrow> int \<Rightarrow> jwt_token option"
  ParseUnverified :: "string \<Rightarrow> jwt_token option"
  VerifyExpiresAt :: "int \<Rightarrow> int \<Rightarrow> bool \<Rightarrow> bool"

datatype ctxkey = UserCtxKey string | CtxKey string

datatype ctxval = UserVal string | TokenVal jwt_token | OtherVal

type_synonym ctx = "ctxkey \<rightharpoonup> ctxval"

definition userKey :: string where
  "userKey = ''UserKey''"

definition defaultKey :: string where
  "defaultKey = ''mySuperSecretKeyLol''"

text \<open>The secret is replaced as a whole.\<close>

definition SetJWTSecret :: "string \<Rightarrow> string \<Rightarrow> string" where
  "SetJWTSecret jwtSecret key = jwtSecret"

definition NewContextWithUser :: "ctx \<Rightarrow> string \<Rightarrow> ctx" where
  "NewContextWithUser c user = c(UserCtxKey userKey \<mapsto> UserVal user)"

definition User :: "ctx \<Rightarrow> string go" where
  "User c = (case c (UserCtxKey userKey) of Some (UserVal u) \<Rightarrow> Inr u | _ \<Rightarrow> Inl TypeAssertion)"

subsection \<open>Building\<close>

definition BuildJWTWithTime :: "jwtlib \<Rightarrow> string \<Rightarrow> int \<Rightarrow> string \<Rightarrow> string \<Rightarrow> int \<Rightarrow> string" where
  "BuildJWTWithTime jl key now user label timeValid =
     (case SignedString jl \<lparr>cc_Username = user, cc_Label = label, cc_ExpiresAt = Some (Unix (now + timeValid))\<rparr> key of
        None \<Rightarrow> []
      | Some ss \<Rightarrow> ss)"

definition BuildJWTWithLabel :: "jwtlib \<Rightarrow> string \<Rightarrow> int \<Rightarrow> string \<Rightarrow> string \<Rightarrow> string" where
  "BuildJWTWithLabel jl key now user label = BuildJWTWithTime jl key now user label (72 * 3600 * second_ns)"

definition BuildJWT :: "jwtlib \<Rightarrow> string \<Rightarrow> int \<Rightarrow> string \<Rightarrow> string" where
  "BuildJWT jl key now user = BuildJWTWithLabel jl key now user []"

subsection \<open>Checking\<close>

definition check :: "jwtlib \<Rightarrow> string \<Rightarrow> int \<Rightarrow> ctx \<Rightarrow> string \<Rightarrow> ctx \<times> bool" where
  "check jl key now c ts =
     (case ParseWithClaims jl ts key now of
        None \<Rightarrow> (c, False)
      | Some token \<Rightarrow>
          (case tk_Claims token of
             Some claims \<Rightarrow>
               if tk_Valid token then (NewContextWithUser c (cc_Username claims), tk_Valid token) else (c, False)
           | None \<Rightarrow> (c, False)))"

definition validateAndUser :: "jwtlib \<Rightarrow> string \<Rightarrow> int \<Rightarrow> string \<Rightarrow> string" where
  "validateAndUser jl key now ts =
     (case ParseWithClaims jl ts key now of
        None \<Rightarrow> []
      | Some token \<Rightarrow>
          (case tk_Claims token of
             Some claims \<Rightarrow> if tk_Valid token then cc_Username claims else []
           | None \<Rightarrow> []))"

definition bearer :: string where
  "bearer = ''Bearer ''"

text \<open>Each call of the parser has a time of its own: \<open>now i\<close> is the time of the \<open>i\<close>-th.\<close>

fun valid_loop :: "jwtlib \<Rightarrow> string \<Rightarrow> (nat \<Rightarrow> int) \<Rightarrow> nat \<Rightarrow> ctx \<Rightarrow> string list \<Rightarrow> ctx \<times> bool" where
  "valid_loop jl key now i c [] = (c, False)"
| "valid_loop jl key now i c (a # as) =
     (if hasPrefix a bearer then
        (let token = trimPrefix a bearer in
         if validateAndUser jl key (now i) token \<noteq> [] then check jl key (now (Suc i)) c token
         else valid_loop jl key now (Suc i) c as)
      else valid_loop jl key now i c as)"

definition valid :: "jwtlib \<Rightarrow> string \<Rightarrow> (nat \<Rightarrow> int) \<Rightarrow> ctx \<Rightarrow> string list \<Rightarrow> ctx \<times> bool" where
  "valid jl key now c authorization =
     (if length authorization < 1 then (c, False) else valid_loop jl key now 0 c authorization)"

definition ParseValidate :: "jwtlib \<Rightarrow> string \<Rightarrow> int \<Rightarrow> string \<Rightarrow> string \<Rightarrow> bool" where
  "ParseValidate jl key now user tokenStr \<longleftrightarrow> user = validateAndUser jl key now tokenStr"

fun IsValidUser_loop :: "jwtlib \<Rightarrow> string \<Rightarrow> (nat \<Rightarrow> int) \<Rightarrow> nat \<Rightarrow> string \<Rightarrow> string list \<Rightarrow> bool" where
  "IsValidUser_loop jl key now i user [] = False"
| "IsValidUser_loop jl key now i user (a # as) =
     (if hasPrefix a bearer then
        (if ParseValidate jl key (now i) user (trimPrefix a bearer) then True
         else IsValidUser_loop jl key now (Suc i) user as)
      else IsValidUser_loop jl key now i user as)"

definition IsValidUser :: "jwtlib \<Rightarrow> string \<Rightarrow> (nat \<Rightarrow> int) \<Rightarrow> string \<Rightarrow> string list \<Rightarrow> bool" where
  "IsValidUser jl key now user authorization =
     (if length authorization < 1 then False else IsValidUser_loop jl key now 0 user authorization)"

text \<open>\<open>now\<close> is the time of the parser, \<open>now'\<close> the later one of the computation.\<close>

definition IsTimeLeft :: "jwtlib \<Rightarrow> string \<Rightarrow> int \<Rightarrow> int \<Rightarrow> string \<Rightarrow> int \<Rightarrow> bool go" where
  "IsTimeLeft jl key now now' tokenStr delta =
     (case ParseWithClaims jl tokenStr key now of
        None \<Rightarrow> Inr False
      | Some token \<Rightarrow>
          (case tk_Claims token of
             Some claims \<Rightarrow>
               if tk_Valid token then
                 bindG (deref (cc_ExpiresAt claims)) (\<lambda>x. Inr (VerifyExpiresAt jl x (Unix (now' + delta)) False))
               else Inr False
           | None \<Rightarrow> Inr False))"

text \<open>The token is not verified. The error is \<open>None\<close>.\<close>

definition TimeLeft :: "jwtlib \<Rightarrow> int \<Rightarrow> string \<Rightarrow> int option go" where
  "TimeLeft jl now tokenStr =
     (case ParseUnverified jl tokenStr of
        None \<Rightarrow> Inr None
      | Some token \<Rightarrow>
          (case tk_Claims token of
             Some claims \<Rightarrow> bindG (deref (cc_ExpiresAt claims)) (\<lambda>x. Inr (Some (Time_Sub (x * second_ns) now)))
           | None \<Rightarrow> Inr None))"

subsection \<open>Requests\<close>

datatype autherr = errMissingMetadata | errInvalidToken

text \<open>The metadata of the request that the context carries, if any; an absent key is an empty list.\<close>

type_synonym metadata = "string \<Rightarrow> string list"

definition CheckTokenValidity :: "jwtlib \<Rightarrow> string \<Rightarrow> (nat \<Rightarrow> int) \<Rightarrow> metadata option \<Rightarrow> ctx \<Rightarrow> autherr + ctx" where
  "CheckTokenValidity jl key now md c =
     (case md of
        None \<Rightarrow> Inl errMissingMetadata
      | Some m \<Rightarrow>
          (let (newCtx, isValid) = valid jl key now c (m ''authorization'') in
           if \<not> isValid then Inl errInvalidToken else Inr newCtx))"

definition EnsureValidToken :: "jwtlib \<Rightarrow> string \<Rightarrow> (nat \<Rightarrow> int) \<Rightarrow> metadata option \<Rightarrow> ctx \<Rightarrow>
    (ctx \<Rightarrow> autherr + 'r) \<Rightarrow> autherr + 'r" where
  "EnsureValidToken jl key now md c handler =
     (case CheckTokenValidity jl key now md c of Inl e \<Rightarrow> Inl e | Inr newCtx \<Rightarrow> handler newCtx)"

text \<open>The handler of a stream gets the stream, with the context that the stream had.\<close>

definition EnsureValidTokenStream :: "jwtlib \<Rightarrow> string \<Rightarrow> (nat \<Rightarrow> int) \<Rightarrow> metadata option \<Rightarrow> ctx \<Rightarrow>
    (ctx \<Rightarrow> autherr + 'r) \<Rightarrow> autherr + 'r" where
  "EnsureValidTokenStream jl key now md c handler =
     (case CheckTokenValidity jl key now md c of Inl e \<Rightarrow> Inl e | Inr _ \<Rightarrow> handler c)"

subsection \<open>Tokens in a context\<close>

definition defaultLabel :: string where
  "defaultLabel = ''n/a''"

record Token =
  Token_Label :: string
  Token_AgentID :: string
  Token_Raw :: string

datatype tokenerr = NoUser | NotValid | NoRaw | ClaimsMissing | NoClaims | NoAgentDID

definition TokenFromContext :: "jwtlib \<Rightarrow> string \<Rightarrow> int \<Rightarrow> ctx \<Rightarrow> ctxkey \<Rightarrow> tokenerr + Token" where
  "TokenFromContext jl key now c contextKey =
     (case c contextKey of
        Some (TokenVal jwtToken) \<Rightarrow>
          if \<not> tk_Valid jwtToken then Inl NotValid
          else if tk_Raw jwtToken = [] then Inl NoRaw
          else
            (case ParseWithClaims jl (tk_Raw jwtToken) key now of
               None \<Rightarrow> Inl ClaimsMissing
             | Some tokenWithClaims \<Rightarrow>
                 (case tk_Claims tokenWithClaims of
                    None \<Rightarrow> Inl NoClaims
                  | Some claims \<Rightarrow>
                      if cc_Username claims = [] then Inl NoAgentDID
                      else Inr \<lparr>Token_Label = (if cc_Label claims \<noteq> [] then cc_Label claims else defaultLabel),
                                Token_AgentID = cc_Username claims, Token_Raw = tk_Raw jwtToken\<rparr>))
      | _ \<Rightarrow> Inl NoUser)"

text \<open>A nil context is \<open>None\<close>.\<close>

definition TokenToContext :: "jwtlib \<Rightarrow> string \<Rightarrow> int \<Rightarrow> ctx \<Rightarrow> ctxkey \<Rightarrow> Token \<Rightarrow> ctx option" where
  "TokenToContext jl key now c contextKey token =
     (case ParseWithClaims jl (Token_Raw token) key now of
        None \<Rightarrow> None
      | Some jwtToken \<Rightarrow> Some (c(contextKey \<mapsto> TokenVal jwtToken)))"

end
