(* ===== verification/Jwt_Laws.thy ===== *)
theory Jwt_Laws
  imports Jwt_Tokens
begin

text \<open>
  What the checks of a request accept, under the documented behaviour of the token library: a signed
  token parses under its key until it expires, to the claims that were signed (an expiry of zero is omitted), and parsing depends on
  the time only in whether it succeeds.
\<close>

subsection \<open>The library\<close>

definition jwt_laws :: "jwtlib \<Rightarrow> bool" where
  "jwt_laws jl \<longleftrightarrow>
     (\<forall>c k ts x t. SignedString jl c k = Some ts \<longrightarrow> cc_ExpiresAt c = Some x \<longrightarrow> 0 < x \<longrightarrow>
        (Unix t < x \<longrightarrow> ParseWithClaims jl ts k t = Some \<lparr>tk_Raw = ts, tk_Claims = Some c, tk_Valid = True\<rparr>) \<and>
        (x < Unix t \<longrightarrow> ParseWithClaims jl ts k t = None)) \<and>
     (\<forall>c k ts. SignedString jl c k = Some ts \<longrightarrow> ts \<noteq> []) \<and>
     (\<forall>c k ts x. SignedString jl c k = Some ts \<longrightarrow> cc_ExpiresAt c = Some x \<longrightarrow> x \<noteq> 0 \<longrightarrow>
        (\<exists>tk. ParseUnverified jl ts = Some tk \<and> tk_Claims tk = Some c)) \<and>
     (\<forall>ts k t t' tk tk'. ParseWithClaims jl ts k t = Some tk \<longrightarrow> ParseWithClaims jl ts k t' = Some tk' \<longrightarrow> tk' = tk)"

lemma signed_parses:
  assumes "jwt_laws jl" "SignedString jl c k = Some ts" "cc_ExpiresAt c = Some x" "0 < x" "Unix t < x"
  shows "ParseWithClaims jl ts k t = Some \<lparr>tk_Raw = ts, tk_Claims = Some c, tk_Valid = True\<rparr>"
  using assms unfolding jwt_laws_def by blast

lemma signed_expires:
  assumes "jwt_laws jl" "SignedString jl c k = Some ts" "cc_ExpiresAt c = Some x" "0 < x" "x < Unix t"
  shows "ParseWithClaims jl ts k t = None"
  using assms unfolding jwt_laws_def by blast

lemma parse_stable:
  assumes "jwt_laws jl" "ParseWithClaims jl ts k t = Some tk" "ParseWithClaims jl ts k t' = Some tk'"
  shows "tk' = tk"
  using assms unfolding jwt_laws_def by blast

subsection \<open>Which requests are authorised\<close>

text \<open>A bearer token of the request that names a user, at some time.\<close>

definition names_user :: "jwtlib \<Rightarrow> string \<Rightarrow> string list \<Rightarrow> string \<Rightarrow> bool" where
  "names_user jl key auth u \<longleftrightarrow> u \<noteq> [] \<and>
     (\<exists>a \<in> set auth. \<exists>t. hasPrefix a bearer \<and> validateAndUser jl key t (trimPrefix a bearer) = u)"

lemma validate_check:
  assumes "jwt_laws jl" "validateAndUser jl key t ts = u" "u \<noteq> []" "check jl key t' c ts = (c', True)"
  shows "c' = NewContextWithUser c u"
proof -
  from assms(2,3) obtain tk cl where tk: "ParseWithClaims jl ts key t = Some tk" "tk_Claims tk = Some cl"
    "cc_Username cl = u" by (auto simp: validateAndUser_def split: option.split_asm if_splits)
  from assms(4) obtain tk' where tk': "ParseWithClaims jl ts key t' = Some tk'"
    by (auto simp: check_def split: option.split_asm)
  from parse_stable [OF assms(1) tk(1) tk'] tk tk' assms(4) show ?thesis
    by (auto simp: check_def split: if_splits)
qed

lemma valid_loop_user:
  assumes "jwt_laws jl" "valid_loop jl key now i c auth = (c', True)"
  shows "\<exists>u. names_user jl key auth u \<and> c' = NewContextWithUser c u"
  using assms(2)
proof (induction auth arbitrary: i)
  case (Cons a auth)
  show ?case
  proof (cases "hasPrefix a bearer \<and> validateAndUser jl key (now i) (trimPrefix a bearer) \<noteq> []")
    case True
    with Cons.prems validate_check [OF assms(1)] show ?thesis
      by (intro exI [of _ "validateAndUser jl key (now i) (trimPrefix a bearer)"]) (auto simp: names_user_def)
  next
    case False
    then have "valid_loop jl key now i c (a # auth) =
        valid_loop jl key now (if hasPrefix a bearer then Suc i else i) c auth" by auto
    with Cons.prems have "valid_loop jl key now (if hasPrefix a bearer then Suc i else i) c auth = (c', True)"
      by simp
    from Cons.IH [OF this] show ?thesis by (auto simp: names_user_def)
  qed
qed simp

lemma CheckTokenValidity_user:
  assumes "jwt_laws jl" "CheckTokenValidity jl key now md c = Inr c'"
  shows "\<exists>m u. md = Some m \<and> names_user jl key (m ''authorization'') u \<and> c' = NewContextWithUser c u"
proof -
  from assms(2) obtain m where m: "md = Some m" "valid jl key now c (m ''authorization'') = (c', True)"
    by (auto simp: CheckTokenValidity_def split: option.split_asm prod.split_asm if_splits)
  from m(2) have "valid_loop jl key now 0 c (m ''authorization'') = (c', True)"
    by (auto simp: valid_def split: if_splits)
  from valid_loop_user [OF assms(1) this] m(1) show ?thesis by blast
qed

lemma User_NewContext [simp]: "User (NewContextWithUser c u) = Inr u"
  by (simp add: User_def NewContextWithUser_def)

text \<open>While the clock stands still, the first bearer token that names a user decides.\<close>

definition names :: "jwtlib \<Rightarrow> string \<Rightarrow> int \<Rightarrow> string \<Rightarrow> bool" where
  "names jl key t a \<longleftrightarrow> hasPrefix a bearer \<and> validateAndUser jl key t (trimPrefix a bearer) \<noteq> []"

lemma check_now:
  assumes "validateAndUser jl key t ts \<noteq> []"
  shows "check jl key t c ts = (NewContextWithUser c (validateAndUser jl key t ts), True)"
  using assms by (auto simp: validateAndUser_def check_def split: option.splits)

lemma valid_first:
  "valid jl key (\<lambda>_. t) c auth =
     (case find (names jl key t) auth of
        None \<Rightarrow> (c, False)
      | Some a \<Rightarrow> (NewContextWithUser c (validateAndUser jl key t (trimPrefix a bearer)), True))"
proof -
  have "valid_loop jl key (\<lambda>_. t) i c auth = (case find (names jl key t) auth of
      None \<Rightarrow> (c, False)
    | Some a \<Rightarrow> (NewContextWithUser c (validateAndUser jl key t (trimPrefix a bearer)), True))" for i
    by (induction auth arbitrary: i) (auto simp: names_def check_now)
  then show ?thesis by (cases auth) (simp_all add: valid_def)
qed

lemma IsValidUser_iff:
  "IsValidUser jl key (\<lambda>_. t) user auth \<longleftrightarrow>
     (\<exists>a \<in> set auth. hasPrefix a bearer \<and> validateAndUser jl key t (trimPrefix a bearer) = user)"
proof -
  have "IsValidUser_loop jl key (\<lambda>_. t) i user auth \<longleftrightarrow>
      (\<exists>a \<in> set auth. hasPrefix a bearer \<and> validateAndUser jl key t (trimPrefix a bearer) = user)" for i
    by (induction auth arbitrary: i) (auto simp: ParseValidate_def)
  then show ?thesis by (cases auth) (simp_all add: IsValidUser_def)
qed

lemma garbage_names_nobody: "ParseWithClaims jl ts key t = None \<Longrightarrow> validateAndUser jl key t ts = []"
  by (simp add: validateAndUser_def)

subsection \<open>Tokens that were built here\<close>

definition built :: "string \<Rightarrow> string \<Rightarrow> int \<Rightarrow> int \<Rightarrow> customClaims" where
  "built user label now d = \<lparr>cc_Username = user, cc_Label = label, cc_ExpiresAt = Some (Unix (now + d))\<rparr>"

lemma BuildJWTWithTime_signed:
  "SignedString jl (built user label now d) key = Some ts \<Longrightarrow> BuildJWTWithTime jl key now user label d = ts"
  by (simp add: BuildJWTWithTime_def built_def)

lemma Unix_mono: "t \<le> t' \<Longrightarrow> Unix t \<le> Unix t'"
  by (simp add: Unix_def second_ns_def zdiv_mono1)

lemma Unix_less: "t + second_ns \<le> t' \<Longrightarrow> Unix t < Unix t'"
  by (simp add: Unix_def second_ns_def)

lemma built_parses:
  assumes "jwt_laws jl" "SignedString jl (built user label now d) key = Some ts" "0 \<le> t" "t + second_ns \<le> now + d"
  shows "ParseWithClaims jl ts key t = Some \<lparr>tk_Raw = ts, tk_Claims = Some (built user label now d), tk_Valid = True\<rparr>"
proof (rule signed_parses [OF assms(1,2)])
  show "cc_ExpiresAt (built user label now d) = Some (Unix (now + d))" by (simp add: built_def)
  show "Unix t < Unix (now + d)" using assms(4) by (rule Unix_less)
  moreover have "0 \<le> Unix t" using assms(3) by (simp add: Unix_def second_ns_def)
  ultimately show "0 < Unix (now + d)" by simp
qed

lemma built_expires:
  assumes "jwt_laws jl" "SignedString jl (built user label now d) key = Some ts" "second_ns \<le> now + d"
    and "now + d + second_ns \<le> t"
  shows "ParseWithClaims jl ts key t = None"
proof (rule signed_expires [OF assms(1,2)])
  show "cc_ExpiresAt (built user label now d) = Some (Unix (now + d))" by (simp add: built_def)
  show "0 < Unix (now + d)" using assms(3) by (simp add: Unix_def second_ns_def)
  show "Unix (now + d) < Unix t" using assms(4) by (rule Unix_less)
qed

lemma built_validates:
  assumes "jwt_laws jl" "SignedString jl (built user label now d) key = Some ts" "0 \<le> t" "t + second_ns \<le> now + d"
  shows "validateAndUser jl key t ts = user"
  using built_parses [OF assms] by (simp add: validateAndUser_def built_def)

lemma built_in_context:
  assumes "jwt_laws jl" "SignedString jl (built user label now d) key = Some ts" "0 \<le> t" "t + second_ns \<le> now + d"
    and "0 \<le> t'" "t' + second_ns \<le> now + d" "user \<noteq> []"
  shows "\<exists>c'. TokenToContext jl key t c k \<lparr>Token_Label = l, Token_AgentID = i, Token_Raw = ts\<rparr> = Some c' \<and>
    TokenFromContext jl key t' c' k =
      Inr \<lparr>Token_Label = (if label \<noteq> [] then label else ''n/a''), Token_AgentID = user, Token_Raw = ts\<rparr>"
proof -
  have "ts \<noteq> []" using assms(1,2) unfolding jwt_laws_def by blast
  with built_parses [OF assms(1,2,3,4)] built_parses [OF assms(1,2,5,6)] assms(7) show ?thesis
    by (simp add: TokenToContext_def TokenFromContext_def built_def defaultLabel_def)
qed

text \<open>What is left of a token, up to the second that the expiry is rounded down to.\<close>

lemma built_time_left:
  assumes "jwt_laws jl" "SignedString jl (built user label now d) key = Some ts"
    and "second_ns \<le> now + d" "\<bar>now + d - t\<bar> < 2 ^ 62"
  shows "\<exists>x. TimeLeft jl t ts = Inr (Some x) \<and> now + d - t - second_ns < x \<and> x \<le> now + d - t"
proof -
  have "cc_ExpiresAt (built user label now d) = Some (Unix (now + d))" by (simp add: built_def)
  moreover have "Unix (now + d) \<noteq> 0" using assms(3) by (simp add: Unix_def second_ns_def)
  ultimately obtain tk where tk: "ParseUnverified jl ts = Some tk" "tk_Claims tk = Some (built user label now d)"
    using assms(1,2) unfolding jwt_laws_def by blast
  let ?x = "Unix (now + d) * second_ns"
  have x: "now + d - second_ns < ?x" "?x \<le> now + d" unfolding Unix_def second_ns_def by linarith+
  with assms(4) have "Time_Sub ?x t = ?x - t" by (auto simp: Time_Sub_def second_ns_def)
  with tk x show ?thesis by (simp add: TimeLeft_def built_def)
qed

subsection \<open>A library that keeps the laws\<close>

definition enc_nat :: "nat \<Rightarrow> string" where
  "enc_nat n = replicate n (CHR ''1'') @ ''0''"

definition enc_str :: "string \<Rightarrow> string" where
  "enc_str s = enc_nat (length s) @ s"

definition enc_exp :: "int option \<Rightarrow> string" where
  "enc_exp x = (case x of None \<Rightarrow> ''?'' | Some i \<Rightarrow> (if i < 0 then ''-'' else ''+'') @ enc_nat (nat \<bar>i\<bar>))"

definition enc_token :: "customClaims \<Rightarrow> string \<Rightarrow> string" where
  "enc_token c k = enc_str k @ enc_str (cc_Username c) @ enc_str (cc_Label c) @ enc_exp (cc_ExpiresAt c)"

definition dec_nat :: "string \<Rightarrow> nat \<times> string" where
  "dec_nat s = (length (takeWhile (\<lambda>x. x = CHR ''1'') s), tl (dropWhile (\<lambda>x. x = CHR ''1'') s))"

definition dec_str :: "string \<Rightarrow> string \<times> string" where
  "dec_str s = (let (n, r) = dec_nat s in (take n r, drop n r))"

definition dec_exp :: "string \<Rightarrow> int option" where
  "dec_exp s = (case s of [] \<Rightarrow> None | x # r \<Rightarrow>
     if x = CHR ''?'' then None else Some ((if x = CHR ''-'' then - 1 else 1) * int (fst (dec_nat r))))"

definition dec_token :: "string \<Rightarrow> string \<times> customClaims" where
  "dec_token s = (let (k, r1) = dec_str s; (u, r2) = dec_str r1; (l, r3) = dec_str r2
     in (k, \<lparr>cc_Username = u, cc_Label = l, cc_ExpiresAt = dec_exp r3\<rparr>))"

lemma dec_enc_nat [simp]: "dec_nat (enc_nat n @ r) = (n, r)"
  by (induction n) (simp_all add: dec_nat_def enc_nat_def)

lemma dec_enc_str [simp]: "dec_str (enc_str s @ r) = (s, r)"
  by (simp add: dec_str_def enc_str_def)

lemma dec_enc_exp [simp]: "dec_exp (enc_exp x) = x"
  using dec_enc_nat [of _ "[]"] by (cases x) (auto simp: dec_exp_def enc_exp_def)

lemma dec_enc_token [simp]: "dec_token (enc_token c k) = (k, c)"
  by (simp add: dec_token_def enc_token_def)

definition jwt0 :: jwtlib where
  "jwt0 = \<lparr>SignedString = (\<lambda>c k. Some (enc_token c k)),
     ParseWithClaims = (\<lambda>ts k t. let (k', c) = dec_token ts in
       if k' = k \<and> (case cc_ExpiresAt c of None \<Rightarrow> True | Some x \<Rightarrow> x = 0 \<or> Unix t \<le> x)
       then Some \<lparr>tk_Raw = ts, tk_Claims = Some c, tk_Valid = True\<rparr> else None),
     ParseUnverified = (\<lambda>ts. Some \<lparr>tk_Raw = ts, tk_Claims = Some (snd (dec_token ts)), tk_Valid = False\<rparr>),
     VerifyExpiresAt = (\<lambda>x t req. if x = 0 then \<not> req else t \<le> x)\<rparr>"

lemma enc_token_ne: "enc_token c k \<noteq> []"
  by (simp add: enc_token_def enc_str_def enc_nat_def)

lemma jwt0_laws: "jwt_laws jwt0"
  by (auto simp: jwt_laws_def jwt0_def enc_token_ne Let_def split: option.split_asm prod.split_asm if_splits)

lemma jwt0_signs: "\<exists>ts. SignedString jwt0 c k = Some ts"
  by (simp add: jwt0_def)

end
