(* ===== verification/Rpc_Config.thy ===== *)
theory Rpc_Config
  imports Jwt_Laws Db_Files
begin

text \<open>
  How a client and a server are set up (\<open>rpc/client.go\<close>, \<open>rpc/server.go\<close>, \<open>rpc/tls.go\<close>, the functions of
  \<open>agency/client/client.go\<close> that build configurations and open connections, and the sample server of
  \<open>server/main.go\<close>). Options of gRPC are data here: what a dial or a server is given. Reading
  certificates and dialling are parameters.
\<close>

subsection \<open>Certificates\<close>

record CertFiles =
  CertFile :: string
  KeyFile :: string

record PKI =
  ServerName :: string
  ServerCerts :: CertFiles
  ClientCerts :: CertFiles

text \<open>\<open>gopath\<close> is the environment variable.\<close>

definition LoadPKIWithServerName :: "string \<Rightarrow> string \<Rightarrow> string \<Rightarrow> PKI" where
  "LoadPKIWithServerName gopath tlsPath serverName =
     (let tlsPath' = (if tlsPath = [] then filepath_Join gopath ''src/github.com/findy-network/findy-common-go/cert''
                      else tlsPath);
          serverName' = (if contains serverName '':'' then hd (strings_Split serverName '':'') else serverName)
      in \<lparr>ServerName = serverName',
          ServerCerts = \<lparr>CertFile = filepath_Join tlsPath' ''server/server.crt'',
                         KeyFile = filepath_Join tlsPath' ''server/server.key''\<rparr>,
          ClientCerts = \<lparr>CertFile = filepath_Join tlsPath' ''client/client.crt'',
                         KeyFile = filepath_Join tlsPath' ''client/client.key''\<rparr>\<rparr>)"

definition LoadPKI :: "string \<Rightarrow> string \<Rightarrow> PKI" where
  "LoadPKI gopath tlsPath = LoadPKIWithServerName gopath tlsPath ''localhost''"

text \<open>Reading a file, reading a key pair; the left side is the text of the error.\<close>

record 'k certlib =
  ReadFile :: "string \<Rightarrow> string + string"
  LoadX509KeyPair :: "string \<Rightarrow> string \<Rightarrow> string + 'k"

text \<open>The TLS configurations the code builds, and the minimal version it asks for.\<close>

record 'k tls_Config =
  tls_Certificates :: "'k list"
  tls_RootCAs :: "string option"
  tls_ClientCAs :: "string option"
  tls_RequireClientCert :: bool
  tls_InsecureSkipVerify :: bool
  tls_MinVersion12 :: bool
  tls_ServerName :: string

definition loadClientTLSFromFile :: "'k certlib \<Rightarrow> PKI \<Rightarrow> string + 'k tls_Config" where
  "loadClientTLSFromFile cl pw =
     (case ReadFile cl (CertFile (ServerCerts pw)) of
        Inl e \<Rightarrow> Inl e
      | Inr caCert \<Rightarrow>
          (case LoadX509KeyPair cl (CertFile (ClientCerts pw)) (KeyFile (ClientCerts pw)) of
             Inl e \<Rightarrow> Inl e
           | Inr clientCert \<Rightarrow> Inr \<lparr>tls_Certificates = [clientCert], tls_RootCAs = Some caCert, tls_ClientCAs = None,
               tls_RequireClientCert = False, tls_InsecureSkipVerify = False, tls_MinVersion12 = True,
               tls_ServerName = ServerName pw\<rparr>))"

definition mTLSCredentials :: "'k certlib \<Rightarrow> PKI \<Rightarrow> string + 'k tls_Config" where
  "mTLSCredentials cl pw =
     (case ReadFile cl (CertFile (ClientCerts pw)) of
        Inl e \<Rightarrow> Inl e
      | Inr caCert \<Rightarrow>
          (case LoadX509KeyPair cl (CertFile (ServerCerts pw)) (KeyFile (ServerCerts pw)) of
             Inl e \<Rightarrow> Inl e
           | Inr serverCert \<Rightarrow> Inr \<lparr>tls_Certificates = [serverCert], tls_RootCAs = None, tls_ClientCAs = Some caCert,
               tls_RequireClientCert = True, tls_InsecureSkipVerify = False, tls_MinVersion12 = False,
               tls_ServerName = []\<rparr>))"

subsection \<open>The client\<close>

record 'o ClientCfg =
  cfg_PKI :: "PKI option"
  cfg_JWT :: string
  cfg_Addr :: string
  cfg_Opts :: "'o list"
  cfg_Insecure :: bool

datatype ('o, 'k) dialopt =
    PerRPCOauth string
  | PerRPCCfg "'o ClientCfg"
  | TransportTLS "'k tls_Config"
  | TransportInsecure
  | UserOpt 'o

definition GetRequestMetadata :: "'o ClientCfg \<Rightarrow> (string \<times> string) list" where
  "GetRequestMetadata c =
     (if cfg_Insecure c \<and> cfg_PKI c = None then [(''Authorization'', ''Bearer '' @ cfg_JWT c)] else [])"

definition RequireTransportSecurity :: "'o ClientCfg \<Rightarrow> bool" where
  "RequireTransportSecurity c \<longleftrightarrow> \<not> cfg_Insecure c \<or> cfg_PKI c \<noteq> None"

text \<open>The options the dial gets; \<open>assert.NotImplemented\<close> panics.\<close>

definition ClientConn :: "'k certlib \<Rightarrow> 'o ClientCfg \<Rightarrow> (string + ('o, 'k) dialopt list) go" where
  "ClientConn cl cfg =
     (case cfg_PKI cfg of
        Some pki \<Rightarrow>
          (let opts = (if cfg_JWT cfg \<noteq> [] then [PerRPCOauth (cfg_JWT cfg)] else []) in
           case loadClientTLSFromFile cl pki of
             Inl e \<Rightarrow> Inr (Inl e)
           | Inr creds \<Rightarrow> Inr (Inr (opts @ [TransportTLS creds] @ map UserOpt (cfg_Opts cfg))))
      | None \<Rightarrow>
          if cfg_Insecure cfg then
            (let opts = (if cfg_JWT cfg \<noteq> [] then [PerRPCCfg cfg] else []) in
             Inr (Inr (opts @ [TransportInsecure] @ map UserOpt (cfg_Opts cfg))))
          else Inl AssertFailed)"

text \<open>\<open>%d\<close> of a port.\<close>

definition fmt_d :: "int \<Rightarrow> string" where
  "fmt_d n = (if n < 0 then ''-'' @ decimal (- n) else decimal n)"

definition BuildConnBase :: "string \<Rightarrow> string \<Rightarrow> string \<Rightarrow> 'o list \<Rightarrow> 'o ClientCfg" where
  "BuildConnBase gopath tlsPath fullAddr opts =
     \<lparr>cfg_PKI = Some (LoadPKIWithServerName gopath tlsPath fullAddr), cfg_JWT = [], cfg_Addr = fullAddr,
      cfg_Opts = opts, cfg_Insecure = False\<rparr>"

definition BuildClientConnBase :: "string \<Rightarrow> string \<Rightarrow> string \<Rightarrow> int \<Rightarrow> 'o list \<Rightarrow> 'o ClientCfg" where
  "BuildClientConnBase gopath tlsPath addr port opts =
     \<lparr>cfg_PKI = Some (LoadPKIWithServerName gopath tlsPath addr), cfg_JWT = [], cfg_Addr = addr @ '':'' @ fmt_d port,
      cfg_Opts = opts, cfg_Insecure = False\<rparr>"

definition BuildInsecureClientConnBase :: "string \<Rightarrow> int \<Rightarrow> 'o list \<Rightarrow> 'o ClientCfg" where
  "BuildInsecureClientConnBase addr port opts =
     \<lparr>cfg_PKI = None, cfg_JWT = [], cfg_Addr = addr @ '':'' @ fmt_d port, cfg_Opts = opts, cfg_Insecure = True\<rparr>"

text \<open>The configuration is copied; an error is thrown to the caller's handler.\<close>

definition TryAuthOpen :: "'k certlib \<Rightarrow> string \<Rightarrow> 'o ClientCfg option \<Rightarrow> ('o ClientCfg \<times> ('o, 'k) dialopt list) go" where
  "TryAuthOpen cl jwtToken conf =
     (case conf of
        None \<Rightarrow> Inl AssertFailed
      | Some cf \<Rightarrow>
          (let lc = cf\<lparr>cfg_JWT := jwtToken\<rparr> in
           bindG (ClientConn cl lc) (\<lambda>r. case r of Inl e \<Rightarrow> Inl ErrThrown | Inr opts \<Rightarrow> Inr (lc, opts))))"

definition TryOpen :: "jwtlib \<Rightarrow> string \<Rightarrow> int \<Rightarrow> 'k certlib \<Rightarrow> string \<Rightarrow> 'o ClientCfg option \<Rightarrow>
    ('o ClientCfg \<times> ('o, 'k) dialopt list) go" where
  "TryOpen jl key now cl user conf = TryAuthOpen cl (BuildJWT jl key now user) conf"

subsection \<open>The server\<close>

datatype icept = IAuth | IRecovery | IErrHandler

datatype 'k serveropt = Creds "'k tls_Config" | UnaryInterceptor "icept list" | StreamInterceptor "icept list"

record 'l ServerCfg =
  srv_PKI :: "PKI option"
  srv_Port :: int
  srv_TestLis :: "'l option"
  srv_JWTSecret :: string
  srv_NoAuthorization :: bool

text \<open>The interceptor that only logs.\<close>

definition errHandler :: "('c \<Rightarrow> 'e + 'r) \<Rightarrow> 'c \<Rightarrow> 'e + 'r" where
  "errHandler handler c = (case handler c of Inl e \<Rightarrow> Inl e | Inr resp \<Rightarrow> Inr resp)"

text \<open>The options of the new server, and the secret afterwards.\<close>

definition Server :: "'k certlib \<Rightarrow> 'l ServerCfg \<Rightarrow> string \<Rightarrow> (string + 'k serveropt list) \<times> string" where
  "Server cl cfg key =
     (let key1 = (if srv_JWTSecret cfg \<noteq> [] then SetJWTSecret (srv_JWTSecret cfg) key else key);
          creds = (case srv_PKI cfg of None \<Rightarrow> Inr [] | Some pki \<Rightarrow> map_sum id (\<lambda>c. [Creds c]) (mTLSCredentials cl pki))
      in (case creds of
            Inl e \<Rightarrow> Inl e
          | Inr opts \<Rightarrow>
              Inr (opts @
                (if srv_NoAuthorization cfg
                 then [UnaryInterceptor [IRecovery, IErrHandler], StreamInterceptor [IRecovery]]
                 else [UnaryInterceptor [IAuth, IRecovery, IErrHandler], StreamInterceptor [IAuth, IRecovery]])),
          key1))"

text \<open>\<open>listen\<close> opens a TCP port, \<open>register\<close> is the function of the configuration, and \<open>serve\<close> blocks until the server
  stops; each yields the text of its error.\<close>

definition PrepareServe :: "'k certlib \<Rightarrow> (string \<Rightarrow> string + 'l) \<Rightarrow> ('k serveropt list \<Rightarrow> string option) \<Rightarrow> 'l ServerCfg \<Rightarrow>
    string \<Rightarrow> (string + 'k serveropt list \<times> 'l) \<times> string" where
  "PrepareServe cl listen register cfg key =
     (let addr = '':'' @ fmt_d (srv_Port cfg) in
      case (case srv_TestLis cfg of Some l \<Rightarrow> Inr l | None \<Rightarrow> listen addr) of
        Inl e \<Rightarrow> (Inl e, key)
      | Inr lis \<Rightarrow>
          (case Server cl cfg key of
             (Inl e, key1) \<Rightarrow> (Inl e, key1)
           | (Inr s, key1) \<Rightarrow> (case register s of Some e \<Rightarrow> (Inl e, key1) | None \<Rightarrow> (Inr (s, lis), key1))))"

text \<open>The error that is logged, if any, and the secret afterwards.\<close>

definition Serve :: "'k certlib \<Rightarrow> (string \<Rightarrow> string + 'l) \<Rightarrow> ('k serveropt list \<Rightarrow> string option) \<Rightarrow>
    ('k serveropt list \<Rightarrow> 'l \<Rightarrow> string option) \<Rightarrow> 'l ServerCfg \<Rightarrow> string \<Rightarrow> string option \<times> string" where
  "Serve cl listen register serve cfg key =
     (case PrepareServe cl listen register cfg key of
        (Inl e, key1) \<Rightarrow> (Some e, key1)
      | (Inr (s, lis), key1) \<Rightarrow> (serve s lis, key1))"

subsection \<open>The sample server\<close>

datatype Cmd_Type = Cmd_PING | Cmd_LOGGING | Cmd_COUNT

text \<open>The response of a command, if it has one, or the error of a user without the right.\<close>

definition AuthFuncOverride :: "string \<Rightarrow> ctx \<Rightarrow> ctx" where
  "AuthFuncOverride Root c = NewContextWithUser c Root"

definition Enter :: "bool \<Rightarrow> string \<Rightarrow> ctx \<Rightarrow> Cmd_Type \<Rightarrow> (string + string option) go" where
  "Enter noTLS Root c cmd =
     bindG (if \<not> noTLS then User c else Inr Root) (\<lambda>user.
       if user \<noteq> Root then Inr (Inl ''access right'')
       else Inr (Inr (case cmd of
          Cmd_PING \<Rightarrow> Some ''TEST, ping ok''
        | Cmd_LOGGING \<Rightarrow> None
        | Cmd_COUNT \<Rightarrow> Some ''100/1000 cloud agents'')))"

text \<open>What the two programs make of their flags: the configuration of the server, and the client's connection.\<close>

definition server_main :: "string \<Rightarrow> bool \<Rightarrow> string \<Rightarrow> int \<Rightarrow> 'l ServerCfg" where
  "server_main gopath noTLS cert port =
     \<lparr>srv_PKI = (if \<not> noTLS then Some (LoadPKI gopath cert) else None), srv_Port = port, srv_TestLis = None,
      srv_JWTSecret = [], srv_NoAuthorization = noTLS\<rparr>"

definition newClient :: "jwtlib \<Rightarrow> string \<Rightarrow> int \<Rightarrow> 'k certlib \<Rightarrow> string \<Rightarrow> bool \<Rightarrow> string \<Rightarrow> string \<Rightarrow> string \<Rightarrow>
    (string + ('o, 'k) dialopt list) go" where
  "newClient jl key now cl gopath noTLS cert user addr =
     (let pki = (if \<not> noTLS then Some (LoadPKIWithServerName gopath cert addr) else None);
          jwtStr = (if \<not> noTLS then BuildJWT jl key now user else [])
      in ClientConn cl \<lparr>cfg_PKI = pki, cfg_JWT = jwtStr, cfg_Addr = addr, cfg_Opts = [], cfg_Insecure = noTLS\<rparr>)"

subsection \<open>Laws\<close>

lemma contains_colon: "contains s '':'' \<longleftrightarrow> CHR '':'' \<in> set s"
proof
  assume "contains s '':''"
  then show "CHR '':'' \<in> set s" by (auto simp: contains_def dest: set_mono_sublist)
next
  assume "CHR '':'' \<in> set s"
  then obtain a b where "s = a @ '':'' @ b" by (metis append_Cons append_Nil split_list)
  then show "contains s '':''" unfolding contains_def sublist_def by blast
qed

lemma splitAux_colon:
  assumes "CHR '':'' \<notin> set host"
  shows "splitAux '':'' acc (host @ '':'' @ rest) = (rev acc @ host) # splitAux '':'' [] rest"
  using assms by (induction host arbitrary: acc) auto

text \<open>The name that certificates are checked against is the address up to its first colon.\<close>

lemma LoadPKI_host:
  assumes "CHR '':'' \<notin> set host"
  shows "ServerName (LoadPKIWithServerName g p (host @ '':'' @ port)) = host"
    and "ServerName (LoadPKIWithServerName g p host) = host"
  using assms splitAux_colon [OF assms, of "[]" port]
  by (simp_all add: LoadPKIWithServerName_def Let_def contains_colon strings_Split_def)

text \<open>A token never leaves over a connection that is not encrypted unless the client is set to be insecure
  and has no certificates.\<close>

lemma token_transport:
  assumes "ClientConn cl cfg = Inr (Inr opts)" "PerRPCOauth t \<in> set opts \<or> PerRPCCfg c \<in> set opts"
  shows "(\<exists>creds. TransportTLS creds \<in> set opts \<and> \<not> tls_InsecureSkipVerify creds \<and> tls_MinVersion12 creds) \<or>
    cfg_Insecure cfg \<and> cfg_PKI cfg = None"
  using assms by (auto simp: ClientConn_def loadClientTLSFromFile_def Let_def
      split: option.split_asm sum.split_asm if_splits)

text \<open>What the credentials of a dial put into the request: the metadata of the configuration, whose keys
  gRPC writes in lower case, or the header of the OAuth token.\<close>

definition credential_header :: "(string \<Rightarrow> string) \<Rightarrow> ('o, 'k) dialopt \<Rightarrow> string list" where
  "credential_header oauth opt =
     (case opt of PerRPCOauth t \<Rightarrow> [oauth t] | PerRPCCfg c \<Rightarrow> map snd (GetRequestMetadata c) | _ \<Rightarrow> [])"

lemma ClientConn_header:
  assumes "ClientConn cl cfg = Inr (Inr opts)" "cfg_JWT cfg \<noteq> []" "oauth (cfg_JWT cfg) = ''Bearer '' @ cfg_JWT cfg"
  shows "concat (map (credential_header oauth) opts) = [''Bearer '' @ cfg_JWT cfg]"
  using assms by (auto simp: ClientConn_def credential_header_def GetRequestMetadata_def Let_def
      split: option.split_asm sum.split_asm if_splits)

lemma ClientConn_no_header:
  assumes "ClientConn cl cfg = Inr (Inr opts)" "cfg_JWT cfg = []"
  shows "concat (map (credential_header oauth) opts) = []"
  using assms by (auto simp: ClientConn_def credential_header_def Let_def
      split: option.split_asm sum.split_asm if_splits)

text \<open>A client of a user that was opened in time is that user to a server with the same secret.\<close>

lemma built_authorised:
  assumes "jwt_laws jl" "SignedString jl (built user label now d) key = Some ts" "user \<noteq> []"
    and "\<And>i. 0 \<le> clock i \<and> clock i + second_ns \<le> now + d"
  shows "CheckTokenValidity jl key clock (Some (\<lambda>k. if k = ''authorization'' then [''Bearer '' @ ts] else [])) c =
    Inr (NewContextWithUser c user)"
proof -
  have v: "validateAndUser jl key (clock i) ts = user" for i
    using built_validates [OF assms(1,2)] assms(4) [of i] by simp
  have "check jl key (clock i) c ts = (NewContextWithUser c user, True)" for i
    using check_now [of jl key "clock i" ts c] v [of i] assms(3) by simp
  with v assms(3) hasPrefix_append [of "''Bearer ''" ts] trimPrefix_append [of "''Bearer ''" ts] show ?thesis
    by (simp add: CheckTokenValidity_def valid_def bearer_def del: hasPrefix_append trimPrefix_append)
qed

lemma Server_auth:
  assumes "Server cl cfg key = (Inr opts, key')" "\<not> srv_NoAuthorization cfg"
  shows "UnaryInterceptor [IAuth, IRecovery, IErrHandler] \<in> set opts" "StreamInterceptor [IAuth, IRecovery] \<in> set opts"
    "\<And>is. UnaryInterceptor is \<in> set opts \<or> StreamInterceptor is \<in> set opts \<Longrightarrow> hd is = IAuth \<and> is \<noteq> []"
  using assms
  by (cases "srv_PKI cfg"; cases "mTLSCredentials cl (the (srv_PKI cfg))"; force simp: Server_def Let_def)+

text \<open>The secret is replaced exactly when the configuration names one and the server was reached.\<close>

lemma PrepareServe_secret:
  "snd (PrepareServe cl listen register cfg key) \<in> {key, srv_JWTSecret cfg}"
  "srv_JWTSecret cfg = [] \<Longrightarrow> snd (PrepareServe cl listen register cfg key) = key"
  by (auto simp: PrepareServe_def Server_def SetJWTSecret_def Let_def split: sum.split option.split prod.split)

lemma PrepareServe_auth:
  assumes "PrepareServe cl listen register cfg key = (Inr (opts, lis), key')" "\<not> srv_NoAuthorization cfg"
  shows "UnaryInterceptor is \<in> set opts \<or> StreamInterceptor is \<in> set opts \<Longrightarrow> hd is = IAuth \<and> is \<noteq> []"
proof -
  from assms(1) obtain key1 where "Server cl cfg key = (Inr opts, key1)"
    by (auto simp: PrepareServe_def Let_def split: sum.split_asm option.split_asm prod.split_asm)
  from Server_auth(3) [OF this assms(2)] show "UnaryInterceptor is \<in> set opts \<or> StreamInterceptor is \<in> set opts \<Longrightarrow>
    hd is = IAuth \<and> is \<noteq> []" .
qed

text \<open>The sample client never runs into the branch that is not implemented, and without certificates it sends no
  credentials; the sample server then asks for none.\<close>

lemma newClient_total: "newClient jl key now cl gopath noTLS cert user addr \<noteq> Inl p"
  by (cases noTLS) (auto simp: newClient_def ClientConn_def Let_def split: sum.split)

lemma newClient_plain:
  "newClient jl key now cl gopath True cert user addr = Inr (Inr [TransportInsecure])"
  by (simp add: newClient_def ClientConn_def Let_def)

lemma server_main_plain:
  "Server cl (server_main gopath True cert port) key =
     (Inr [UnaryInterceptor [IRecovery, IErrHandler], StreamInterceptor [IRecovery]], key)"
  by (simp add: Server_def server_main_def Let_def)

end
