(* ===== verification/Jwt_Properties.thy ===== *)
theory Jwt_Properties
  imports Rpc_Config
begin

text \<open>The properties of tokens: which requests reach a handler, what a built token is good for, and how a
  client's token gets to the server.\<close>

subsection \<open>Examples\<close>

definition alice :: customClaims where
  "alice = built ''alice'' [] 0 (72 * 3600 * second_ns)"

definition alice_token :: string where
  "alice_token = enc_token alice defaultKey"


lemma alice_signed: "SignedString jwt0 (built ''alice'' [] 0 (72 * 3600 * second_ns)) defaultKey = Some alice_token"
  by (simp add: jwt0_def alice_token_def alice_def)



definition other_key_token :: string where
  "other_key_token = enc_token alice ''other''"

lemma other_key_fails: "ParseWithClaims jwt0 other_key_token defaultKey 0 = None"
  by (simp add: jwt0_def other_key_token_def defaultKey_def)

definition insecure0 :: "unit ClientCfg" where
  "insecure0 = BuildInsecureClientConnBase ''localhost'' 50051 []"






subsection \<open>Requests\<close>



text \<open>C35: A token that was built for a user is good for that user and no longer than it was built for: until a
  second before the end it validates, a context made from it yields the user and the label, a
  missing label becoming \<open>n/a\<close>, and the time left is right to the second; a second after the end it
  does not validate.\<close>

theorem built_token_is_good:
  assumes "jwt_laws jl" "SignedString jl (built user label now d) key = Some ts" "user \<noteq> []"
    and "0 \<le> t" "t + second_ns \<le> now + d" "now + d - t < 2 ^ 62"
  shows "BuildJWTWithTime jl key now user label d = ts \<and> ParseValidate jl key t user ts \<and>
    (\<exists>c'. TokenToContext jl key t c k \<lparr>Token_Label = [], Token_AgentID = [], Token_Raw = ts\<rparr> = Some c' \<and>
       TokenFromContext jl key t c' k =
         Inr \<lparr>Token_Label = (if label \<noteq> [] then label else ''n/a''), Token_AgentID = user, Token_Raw = ts\<rparr>) \<and>
    (\<exists>x. TimeLeft jl t ts = Inr (Some x) \<and> now + d - t - second_ns < x \<and> x \<le> now + d - t) \<and>
    (\<forall>t'. now + d + second_ns \<le> t' \<longrightarrow> \<not> ParseValidate jl key t' user ts)"
proof -
  have e: "second_ns \<le> now + d" using assms(4,5) by simp
  have late: "\<not> ParseValidate jl key t' user ts" if "now + d + second_ns \<le> t'" for t'
    using garbage_names_nobody [OF built_expires [OF assms(1,2) e that]] assms(3) by (simp add: ParseValidate_def)
  have "\<bar>now + d - t\<bar> < 2 ^ 62" using assms(5,6) by (simp add: second_ns_def)
  from built_time_left [OF assms(1,2) e this] late built_validates [OF assms(1,2,4,5)]
    built_in_context [OF assms(1,2,4,5,4,5,3)] BuildJWTWithTime_signed [OF assms(2)]
  show ?thesis by (simp add: ParseValidate_def)
qed

theorem built_token_is_good_witness:
  "ParseValidate jwt0 defaultKey 5 ''alice'' alice_token \<and>
   (\<exists>x. TimeLeft jwt0 5 alice_token = Inr (Some x) \<and> x \<le> 72 * 3600 * second_ns - 5)"
proof -
  have "(''alice'' :: string) \<noteq> []" "(0::int) \<le> 5" "5 + second_ns \<le> 0 + 72 * 3600 * second_ns"
    "0 + 72 * 3600 * second_ns - 5 < 2 ^ 62" by (simp_all add: second_ns_def)
  note g = built_token_is_good [OF jwt0_laws alice_signed this, of Map.empty "CtxKey ''token''"]
  then obtain x where "TimeLeft jwt0 5 alice_token = Inr (Some x)" "x \<le> 0 + 72 * 3600 * second_ns - 5" by blast
  with g show ?thesis by simp
qed

text \<open>C36: \<open>IsValidUser\<close> compares the user with the empty name that a token which is refused gets: asked for the
  empty user it accepts any such token, which admits no request and is no other user's.\<close>

theorem empty_user_accepts_garbage:
  assumes "ParseWithClaims jl ts key t = None"
  shows "IsValidUser jl key (\<lambda>_. t) [] [''Bearer '' @ ts] \<and>
    valid jl key (\<lambda>_. t) c [''Bearer '' @ ts] = (c, False) \<and>
    (\<forall>user. IsValidUser jl key (\<lambda>_. t) user [''Bearer '' @ ts] \<longrightarrow> user = [])"
proof -
  have "hasPrefix (''Bearer '' @ ts) bearer" "trimPrefix (''Bearer '' @ ts) bearer = ts"
    unfolding bearer_def by (rule hasPrefix_append, rule trimPrefix_append)
  with garbage_names_nobody [OF assms] show ?thesis unfolding IsValidUser_iff valid_first names_def by simp
qed

theorem empty_user_accepts_garbage_witness:
  "IsValidUser jwt0 defaultKey (\<lambda>_. 0) [] [''Bearer '' @ other_key_token]"
  using empty_user_accepts_garbage [OF other_key_fails] by blast

subsection \<open>Connections\<close>





end
