(* ===== verification/Crypto_Cipher.thy ===== *)
theory Crypto_Cipher
  imports Db_Package
begin

text \<open>
  The cipher of \<open>crypto/crypto.go\<close>, AES in Galois/counter mode with the nonce in front of the text, and its use
  as the filters of a database. Go's AES is a parameter: the functions of one block cipher for one key.
\<close>

record gcm =
  NonceSize :: nat
  Seal :: "bytes \<Rightarrow> bytes \<Rightarrow> bytes"
  Open :: "bytes \<Rightarrow> bytes \<Rightarrow> bytes option"

text \<open>\<open>None\<close> is a nil cipher, which the handler of the function leaves when the block cipher is refused.\<close>

definition NewCipher :: "(bytes \<Rightarrow> gcm option) \<Rightarrow> bytes \<Rightarrow> gcm option go" where
  "NewCipher aes k = bindG (assertG (length k = 32)) (\<lambda>_. Inr (aes k))"

text \<open>\<open>rand\<close> is what the random source yields: its bytes, or an error.\<close>

definition TryEncrypt :: "gcm \<Rightarrow> bytes option \<Rightarrow> bytes \<Rightarrow> bytes go" where
  "TryEncrypt c rand inp =
     (case rand of
        None \<Rightarrow> Inl AssertFailed
      | Some nonce \<Rightarrow> bindG (assertG (length nonce = NonceSize c)) (\<lambda>_. Inr (nonce @ Seal c nonce inp)))"

definition Encrypt :: "gcm \<Rightarrow> bytes option \<Rightarrow> bytes \<Rightarrow> bytes go" where
  "Encrypt c rand inp = TryEncrypt c rand inp"

definition TryDecrypt :: "gcm \<Rightarrow> bytes \<Rightarrow> bytes go" where
  "TryDecrypt c inp =
     bindG (if length inp < NonceSize c then Inl SliceBounds
            else Inr (take (NonceSize c) inp, drop (NonceSize c) inp)) (\<lambda>(nonce, ciphertext).
     case Open c nonce ciphertext of None \<Rightarrow> Inl ErrThrown | Some out \<Rightarrow> Inr out)"

text \<open>What is sealed under a nonce opens under it to the same text, and only that is opened to it.\<close>

definition gcm_laws :: "gcm \<Rightarrow> bool" where
  "gcm_laws c \<longleftrightarrow>
     (\<forall>n x. length n = NonceSize c \<longrightarrow> Open c n (Seal c n x) = Some x) \<and>
     (\<forall>n y x. length n = NonceSize c \<longrightarrow> Open c n y = Some x \<longrightarrow> y = Seal c n x)"

lemma TryDecrypt_Encrypt:
  assumes "gcm_laws c" "TryEncrypt c rand inp = Inr out"
  shows "TryDecrypt c out = Inr inp"
  using assms by (auto simp: gcm_laws_def TryEncrypt_def TryDecrypt_def split: option.split_asm)

lemma TryDecrypt_only:
  assumes "gcm_laws c" "TryDecrypt c y = Inr x"
  shows "\<exists>nonce. length nonce = NonceSize c \<and> y = nonce @ Seal c nonce x"
proof -
  let ?n = "take (NonceSize c) y"
  from assms(2) have n: "length ?n = NonceSize c" "Open c ?n (drop (NonceSize c) y) = Some x"
    by (auto simp: TryDecrypt_def split: if_splits option.split_asm)
  then have "drop (NonceSize c) y = Seal c ?n x" using assms(1) unfolding gcm_laws_def by blast
  then have "y = ?n @ Seal c ?n x" by (metis append_take_drop_id)
  with n(1) show ?thesis by blast
qed

text \<open>The filters that a data element of a database gets: encryption under the nonce that was drawn, and
  decryption, which is applied to what encryption made.\<close>

definition encrypting :: "gcm \<Rightarrow> bytes \<Rightarrow> Filter" where
  "encrypting c nonce x = (case TryEncrypt c (Some nonce) x of Inr y \<Rightarrow> y | Inl _ \<Rightarrow> [])"

definition decrypting :: "gcm \<Rightarrow> Filter" where
  "decrypting c y = (case TryDecrypt c y of Inr x \<Rightarrow> x | Inl _ \<Rightarrow> [])"

lemma decrypting_encrypting:
  assumes "gcm_laws c" "length nonce = NonceSize c"
  shows "decrypting c (encrypting c nonce x) = x"
proof -
  from assms(2) have e: "TryEncrypt c (Some nonce) x = Inr (nonce @ Seal c nonce x)" by (simp add: TryEncrypt_def)
  from TryDecrypt_Encrypt [OF assms(1) this] e show ?thesis by (simp add: decrypting_def encrypting_def)
qed

text \<open>A cipher for examples: it adds the nonce's first byte and a check byte.\<close>

definition gcm0 :: gcm where
  "gcm0 = \<lparr>NonceSize = 2,
     Seal = (\<lambda>n x. map (\<lambda>b. b + hd n) x @ [hd n]),
     Open = (\<lambda>n y. if y \<noteq> [] \<and> last y = hd n then Some (map (\<lambda>b. b - hd n) (butlast y)) else None)\<rparr>"

lemma gcm0_laws: "gcm_laws gcm0"
proof -
  have "y = map ((\<lambda>b. b + hd n) \<circ> (\<lambda>b. b - hd n)) (butlast y) @ [hd n]" if "y \<noteq> []" "last y = hd n" for y n :: bytes
  proof -
    have "(\<lambda>b. b + hd n) \<circ> (\<lambda>b. b - hd n) = id" by (rule ext) simp
    with that show ?thesis by (metis append_butlast_last_id list.map_id)
  qed
  then show ?thesis by (auto simp: gcm_laws_def gcm0_def comp_def split: if_splits)
qed

end
