(* ===== verification/Small_Packages.thy ===== *)
theory Small_Packages
  imports Go_Prelude
begin

text \<open>
  Three small packages: JSON arrays and the helpers around the encoders (\<open>dto/dto.go\<close>), message threads
  (\<open>std/decorator\<close>), and the parsing of logging flags (\<open>utils/utils.go\<close>).
\<close>

subsection \<open>Data transfer objects\<close>

text \<open>The encoders are parameters; \<open>None\<close> is their error.\<close>

definition ToJSONBytes :: "('d \<Rightarrow> string option) \<Rightarrow> 'd \<Rightarrow> string" where
  "ToJSONBytes marshal dto = (case marshal dto of None \<Rightarrow> [] | Some output \<Rightarrow> output)"

definition ToJSON :: "('d \<Rightarrow> string option) \<Rightarrow> 'd \<Rightarrow> string" where
  "ToJSON marshal dto = ToJSONBytes marshal dto"

definition FromJSON :: "(string \<Rightarrow> 'd option) \<Rightarrow> string \<Rightarrow> 'd go" where
  "FromJSON unmarshal bs = (case unmarshal bs of None \<Rightarrow> Inl ErrThrown | Some dto \<Rightarrow> Inr dto)"

definition FromJSONStr :: "(string \<Rightarrow> 'd option) \<Rightarrow> string \<Rightarrow> 'd go" where
  "FromJSONStr unmarshal str = FromJSON unmarshal str"

definition ToGOB :: "('d \<Rightarrow> 'b option) \<Rightarrow> 'd \<Rightarrow> 'b go" where
  "ToGOB encode dto = (case encode dto of None \<Rightarrow> Inl ErrThrown | Some buf \<Rightarrow> Inr buf)"

definition FromGOB :: "('b \<Rightarrow> 'd option) \<Rightarrow> 'b \<Rightarrow> 'd go" where
  "FromGOB decode dat = (case decode dat of None \<Rightarrow> Inl ErrThrown | Some dto \<Rightarrow> Inr dto)"

definition quote :: char where
  "quote = CHR 0x22"

text \<open>The loop of \<open>DoJSONArray\<close>, from its \<open>i\<close>-th element on.\<close>

fun DoJSONArray_loop :: "nat \<Rightarrow> string list \<Rightarrow> string" where
  "DoJSONArray_loop i [] = []"
| "DoJSONArray_loop i (s # strs) = (if i > 0 then '','' else []) @ [quote] @ s @ [quote] @ DoJSONArray_loop (Suc i) strs"

definition DoJSONArray :: "string list \<Rightarrow> string" where
  "DoJSONArray strs = ''['' @ DoJSONArray_loop 0 strs @ '']''"

definition JSONArray :: "string list \<Rightarrow> string" where
  "JSONArray strs = DoJSONArray strs"

text \<open>An object that can be marshalled comes back; of one that cannot \<open>ToJSON\<close> makes the empty text, and reading that
  panics.\<close>

lemma JSON_round_trip:
  assumes "\<And>d s. marshal d = Some s \<Longrightarrow> unmarshal s = Some d" "unmarshal [] = None"
  shows "FromJSONStr unmarshal (ToJSON marshal d) = (case marshal d of None \<Rightarrow> Inl ErrThrown | Some _ \<Rightarrow> Inr d)"
  using assms by (simp add: FromJSONStr_def FromJSON_def ToJSON_def ToJSONBytes_def split: option.split)

lemma GOB_round_trip:
  assumes "\<And>d s. encode d = Some s \<Longrightarrow> decode s = Some d" "ToGOB encode d = Inr buf"
  shows "FromGOB decode buf = Inr d"
  using assms by (auto simp: ToGOB_def FromGOB_def split: option.split_asm)

text \<open>A reader of arrays of texts without escapes.\<close>

fun read_text :: "string \<Rightarrow> string \<Rightarrow> (string \<times> string) option" where
  "read_text acc [] = None"
| "read_text acc (c # s) = (if c = quote then Some (rev acc, s) else read_text (c # acc) s)"

lemma read_text_quoted: "quote \<notin> set t \<Longrightarrow> read_text acc (t @ quote # s) = Some (rev acc @ t, s)"
  by (induction t arbitrary: acc) auto

lemma read_text_length: "read_text acc s = Some (t, r) \<Longrightarrow> length r < length s"
  by (induction acc s rule: read_text.induct) (auto split: if_splits)

function read_texts :: "string \<Rightarrow> string list option" where
  "read_texts s =
     (case s of
        [] \<Rightarrow> None
      | c # s1 \<Rightarrow>
          if c \<noteq> quote then None
          else (case read_text [] s1 of
             None \<Rightarrow> None
           | Some (t, []) \<Rightarrow> None
           | Some (t, d # r) \<Rightarrow>
               if d = CHR '','' then map_option ((#) t) (read_texts r)
               else if d # r = '']'' then Some [t] else None))"
  by pat_completeness auto
termination
  by (relation "measure length") (auto dest!: read_text_length)

declare read_texts.simps [simp del]

definition read_array :: "string \<Rightarrow> string list option" where
  "read_array s = (if s = ''[]'' then Some [] else case s of c # r \<Rightarrow> if c = CHR ''['' then read_texts r else None | [] \<Rightarrow> None)"

lemma read_texts_loop:
  assumes "quote \<notin> set t" "\<forall>x \<in> set ts. quote \<notin> set x"
  shows "read_texts (quote # t @ quote # DoJSONArray_loop (Suc i) ts @ '']'') = Some (t # ts)"
  using assms
proof (induction ts arbitrary: t i)
  case Nil
  then show ?case by (subst read_texts.simps) (simp add: read_text_quoted)
next
  case (Cons x ts)
  from Cons.prems Cons.IH [of x "Suc i"]
  have "read_texts (quote # x @ quote # DoJSONArray_loop (Suc (Suc i)) ts @ '']'') = Some (x # ts)" by simp
  with Cons.prems show ?case by (subst read_texts.simps) (simp add: read_text_quoted)
qed

text \<open>Texts without quotes are read back; texts are not escaped, so with quotes two arrays can be the same text.\<close>

lemma JSONArray_round_trip:
  assumes "\<forall>x \<in> set ts. quote \<notin> set x"
  shows "read_array (JSONArray ts) = Some ts"
proof (cases ts)
  case Nil
  then show ?thesis by (simp add: JSONArray_def DoJSONArray_def read_array_def)
next
  case (Cons t r)
  with read_texts_loop [of t r 0] assms show ?thesis
    by (simp add: JSONArray_def DoJSONArray_def read_array_def)
qed

lemma JSONArray_collides:
  "JSONArray [''a'' @ [quote] @ '','' @ [quote] @ ''b''] = JSONArray [''a'', ''b'']"
  by (simp add: JSONArray_def DoJSONArray_def)

subsection \<open>Threads of messages\<close>

record Thread =
  th_ID :: string
  th_PID :: string
  th_SenderOrder :: int
  th_ReceivedOrders :: "string \<rightharpoonup> int"

definition NewThread :: "string \<Rightarrow> string \<Rightarrow> Thread" where
  "NewThread ID PID =
     (let realPID = (if ID \<noteq> PID then PID else [])
      in \<lparr>th_ID = ID, th_PID = realPID, th_SenderOrder = 0, th_ReceivedOrders = Map.empty\<rparr>)"

text \<open>The argument is a pointer, and a thread that is there is changed in place: the result is the argument afterwards.\<close>

definition CheckThread :: "Thread option \<Rightarrow> string \<Rightarrow> Thread" where
  "CheckThread thread ID =
     (case thread of
        None \<Rightarrow> \<lparr>th_ID = ID, th_PID = [], th_SenderOrder = 0, th_ReceivedOrders = Map.empty\<rparr>
      | Some t \<Rightarrow> if th_ID t = [] then t\<lparr>th_ID := ID\<rparr> else t)"

lemma CheckThread_ID: "th_ID (CheckThread t ID) = (case t of Some x \<Rightarrow> if th_ID x = [] then ID else th_ID x | None \<Rightarrow> ID)"
  by (simp add: CheckThread_def split: option.split)

lemma CheckThread_again: "ID \<noteq> [] \<Longrightarrow> CheckThread (Some (CheckThread t ID)) ID' = CheckThread t ID"
  by (auto simp: CheckThread_def split: option.split)

lemma CheckThread_NewThread: "ID \<noteq> [] \<Longrightarrow> CheckThread (Some (NewThread ID PID)) ID' = NewThread ID PID"
  by (simp add: CheckThread_def NewThread_def)

lemma NewThread_no_own_parent: "th_PID (NewThread ID PID) \<noteq> ID \<or> ID = []"
  by (simp add: NewThread_def)

subsection \<open>Decorators of messages\<close>

text \<open>The other decorators are data with names in JSON; a time is the number of its nanoseconds.\<close>

definition TransportReturnRouteNone :: string where
  "TransportReturnRouteNone = ''none''"

definition TransportReturnRouteAll :: string where
  "TransportReturnRouteAll = ''all''"

definition TransportReturnRouteThread :: string where
  "TransportReturnRouteThread = ''thread''"

record Timing =
  ti_ExpiresTime :: int

record ReturnRoute =
  rr_Value :: string

record Transport =
  tr_ReturnRoute :: "ReturnRoute option"

record 'j AttachmentData =
  ad_Sha256 :: string
  ad_Links :: "string list"
  ad_Base64 :: string
  ad_JSON :: "'j option"

record 'j Attachment =
  ac_ID :: string
  ac_Description :: string
  ac_FileName :: string
  ac_MimeType :: string
  ac_LastModTime :: int
  ac_ByteCount :: int
  ac_Data :: "'j AttachmentData"

subsection \<open>Logging flags\<close>

text \<open>The program's arguments after the call, and those that the flags were parsed from, if they were.\<close>

definition ParseLoggingArgs :: "string \<Rightarrow> string list \<Rightarrow> string list \<times> string list option" where
  "ParseLoggingArgs s osArgs =
     (if s = [] then (osArgs, None)
      else let osArgs1 = osArgs @ [''-logtostderr'']; args = osArgs1 ! 0 # strings_Split s '' ''
           in (osArgs1, Some args))"

text \<open>The flag that is added to the arguments is not among those that are parsed: they are the program's name and the
  words of the text.\<close>

lemma ParseLoggingArgs_parsed:
  assumes "ParseLoggingArgs s osArgs = (osArgs', Some args)" "osArgs \<noteq> []"
  shows "join '' '' (tl args) = s \<and> hd args = hd osArgs \<and> osArgs' = osArgs @ [''-logtostderr'']"
  using assms join_split [of "'' ''" s] by (auto simp: ParseLoggingArgs_def Let_def hd_conv_nth nth_append split: if_splits)

end
