(* ===== verification/Http_Server.thy ===== *)
theory Http_Server
  imports Go_Prelude
begin

text \<open>
  The HTTP(S) server of \<open>http/http.go\<close>, which starts a server of \<open>net/http\<close> and gives its caller a channel of
  signals, and the middleware of \<open>jwt/mw/mw.go\<close>. What the server's listening call returns, and when the system signals
  the process, is in the labels; durations are in nanoseconds.
\<close>

subsection \<open>The server\<close>

definition second :: int where
  "second = 1000000000"

record HttpServer =
  hs_ReadTimeout :: int
  hs_ReadHeaderTimeout :: int
  hs_WriteTimeout :: int
  hs_IdleTimeout :: int

definition defaultServer :: HttpServer where
  "defaultServer = \<lparr>hs_ReadTimeout = 20 * second, hs_ReadHeaderTimeout = 10 * second,
     hs_WriteTimeout = 30 * second, hs_IdleTimeout = 120 * second\<rparr>"

datatype signal = Interrupt | SIGTERM | SIGALRM

text \<open>What \<open>ListenAndServe\<close> and \<open>ListenAndServeTLS\<close> return: \<open>ErrServerClosed\<close>, or another error. They return when the
  server stops and not with nil.\<close>

datatype listen_ret = ErrServerClosed | ListenErr string

text \<open>
  Where the goroutine is: in the listening call, with the names of the certificate and the key when it is the call for
  HTTPS; at the send of the deferred handler; or ended.
\<close>

datatype serve_pc = SvListen "(string \<times> string) option" | SvAlarm | SvEnded

text \<open>\<open>hr_shutdownCh\<close> is the channel of capacity 1, \<open>hr_notify\<close> whether \<open>signal.Notify\<close> has been called, \<open>hr_stderr\<close> what was
  printed and \<open>hr_read\<close> what the caller has read.\<close>

record http_run =
  hr_server :: HttpServer
  hr_pc :: serve_pc
  hr_shutdownCh :: "signal list"
  hr_notify :: bool
  hr_stderr :: "string list"
  hr_read :: "signal list"

definition Run_http :: "HttpServer option \<Rightarrow> string list \<Rightarrow> http_run" where
  "Run_http s a =
     (let server = (case s of None \<Rightarrow> defaultServer | Some x \<Rightarrow> x);
          startHTTPS = (length a = 2)
      in \<lparr>hr_server = server, hr_pc = SvListen (if startHTTPS then Some (a ! 0, a ! 1) else None),
          hr_shutdownCh = [], hr_notify = False, hr_stderr = [], hr_read = []\<rparr>)"

text \<open>The system's signals do not wait for room in the channel: they are dropped.\<close>

datatype hlabel = HServe listen_ret | HAlarm | HNotify | HSignal signal | HRead

definition http_exec :: "hlabel \<Rightarrow> http_run \<Rightarrow> http_run option" where
  "http_exec l r =
     (case l of
        HServe res \<Rightarrow>
          (case hr_pc r of
             SvListen _ \<Rightarrow>
               Some (case res of
                  ErrServerClosed \<Rightarrow> r\<lparr>hr_pc := SvEnded\<rparr>
                | ListenErr e \<Rightarrow> r\<lparr>hr_pc := SvAlarm, hr_stderr := hr_stderr r @ [e]\<rparr>)
           | _ \<Rightarrow> None)
      | HAlarm \<Rightarrow>
          (case hr_pc r of
             SvAlarm \<Rightarrow> (if length (hr_shutdownCh r) < 1
               then Some (r\<lparr>hr_pc := SvEnded, hr_shutdownCh := hr_shutdownCh r @ [SIGALRM]\<rparr>) else None)
           | _ \<Rightarrow> None)
      | HNotify \<Rightarrow> Some (r\<lparr>hr_notify := True\<rparr>)
      | HSignal sig \<Rightarrow>
          Some (if hr_notify r \<and> sig \<in> {Interrupt, SIGTERM} \<and> length (hr_shutdownCh r) < 1
                then r\<lparr>hr_shutdownCh := hr_shutdownCh r @ [sig]\<rparr> else r)
      | HRead \<Rightarrow>
          (case hr_shutdownCh r of
             [] \<Rightarrow> None
           | sig # sigs \<Rightarrow> Some (r\<lparr>hr_shutdownCh := sigs, hr_read := hr_read r @ [sig]\<rparr>)))"

fun http_execs :: "hlabel list \<Rightarrow> http_run \<Rightarrow> http_run option" where
  "http_execs [] r = Some r"
| "http_execs (l # ls) r = (case http_exec l r of None \<Rightarrow> None | Some r' \<Rightarrow> http_execs ls r')"

text \<open>HTTPS is served just when two names are given; with one, or with three, it is HTTP.\<close>

lemma Run_http_https: "hr_pc (Run_http s a) = SvListen (Some ck) \<longleftrightarrow> a = [fst ck, snd ck]"
proof -
  have "length a = 2 \<longleftrightarrow> (\<exists>x y. a = [x, y])" by (auto simp: numeral_2_eq_2 length_Suc_conv)
  then show ?thesis by (cases ck) (auto simp: Run_http_def Let_def)
qed

lemma Run_http_without_key: "hr_pc (Run_http s [cert]) = SvListen None"
  by (simp add: Run_http_def Let_def)

text \<open>
  A server that fails is reported once and for sure: from its failure on either the goroutine is at the send, or the alarm
  is in the channel, or the caller has read it; a server that was closed reports nothing.
\<close>

definition http_ok :: "http_run \<Rightarrow> bool" where
  "http_ok r \<longleftrightarrow> length (hr_shutdownCh r) \<le> 1 \<and>
     length (filter ((=) SIGALRM) (hr_read r @ hr_shutdownCh r)) +
       (case hr_pc r of SvAlarm \<Rightarrow> 1 | _ \<Rightarrow> 0) = length (hr_stderr r) \<and>
     (case hr_pc r of SvListen _ \<Rightarrow> hr_stderr r = [] | SvAlarm \<Rightarrow> length (hr_stderr r) = 1
        | SvEnded \<Rightarrow> length (hr_stderr r) \<le> 1)"

lemma Run_http_ok: "http_ok (Run_http s a)"
  by (simp add: http_ok_def Run_http_def Let_def)

lemma http_exec_ok:
  assumes "http_ok r" "http_exec l r = Some r'"
  shows "http_ok r'"
proof (cases l)
  case (HServe res)
  with assms show ?thesis
    by (cases res) (auto simp: http_exec_def http_ok_def split: serve_pc.split_asm)
next
  case HAlarm
  with assms show ?thesis
    by (auto simp: http_exec_def http_ok_def split: serve_pc.split_asm if_split_asm)
next
  case (HSignal sig)
  with assms show ?thesis
    by (auto simp: http_exec_def http_ok_def split: if_split_asm serve_pc.split)
next
  case HRead
  with assms show ?thesis
    by (auto simp: http_exec_def http_ok_def split: list.split_asm serve_pc.split)
qed (use assms in \<open>auto simp: http_exec_def http_ok_def split: serve_pc.split\<close>)

lemma http_execs_ok: "http_execs ls r = Some r' \<Longrightarrow> http_ok r \<Longrightarrow> http_ok r'"
  by (induction ls arbitrary: r) (auto split: option.split_asm dest: http_exec_ok)

lemma failure_reported:
  assumes "http_execs ls (Run_http s a) = Some r" "hr_pc r = SvEnded"
  shows "length (filter ((=) SIGALRM) (hr_read r @ hr_shutdownCh r)) = length (hr_stderr r)"
  using http_execs_ok [OF assms(1) Run_http_ok] assms(2) by (simp add: http_ok_def)

text \<open>A signal that waits in the channel makes the alarm wait; the caller who reads it lets the alarm in.\<close>

lemma alarm_waits:
  assumes "hr_pc r = SvAlarm" "hr_shutdownCh r = [sig]"
  shows "http_exec HAlarm r = None"
    and "http_execs [HRead, HAlarm, HRead] r = Some (r\<lparr>hr_pc := SvEnded, hr_shutdownCh := [],
      hr_read := hr_read r @ [sig, SIGALRM]\<rparr>)"
  using assms by (simp_all add: http_exec_def)

text \<open>\<open>GracefulStop\<close> shuts down the server that was started last, with twenty seconds to do so. Its error, and the panic when
  there is none yet, are caught.\<close>

definition GracefulStop_http :: "HttpServer option \<Rightarrow> (HttpServer \<times> int) list" where
  "GracefulStop_http server = (case server of None \<Rightarrow> [] | Some s \<Rightarrow> [(s, 20 * second)])"

subsection \<open>The middleware for tokens\<close>

text \<open>The options of \<open>go-jwt-middleware\<close> that are filled; its extractors are the constructors that are called.\<close>

datatype extractor = FromAuthHeader | FromParameter string | FromFirst "extractor list"

record 'h mw_Options =
  mo_ValidationKey :: string
  mo_QueryParameter :: string
  mo_ErrorHandler :: 'h

record ('t, 'h) jwt_Options =
  jo_ValidationKeyGetter :: "'t \<Rightarrow> string option"
  jo_SigningMethod :: string
  jo_EnableAuthOnOptions :: bool
  jo_Extractor :: extractor
  jo_ErrorHandler :: 'h

definition mw_New :: "'h mw_Options \<Rightarrow> ('t, 'h) jwt_Options" where
  "mw_New options =
     (let validationKey = mo_ValidationKey options
      in \<lparr>jo_ValidationKeyGetter = (\<lambda>token. Some validationKey), jo_SigningMethod = ''HS256'',
          jo_EnableAuthOnOptions = True,
          jo_Extractor = FromFirst [FromAuthHeader, FromParameter (mo_QueryParameter options)],
          jo_ErrorHandler = mo_ErrorHandler options\<rparr>)"

end
