(* ===== verification/Chat_Requests.thy ===== *)
theory Chat_Requests
  imports Chat_Conversation Client_Protocol
begin

text \<open>
  What a conversation asks of the agency: the calls behind the outputs of \<open>Chat_Conversation\<close>, in the terms of the
  client's protocols (\<open>getStatus\<close>, \<open>reply\<close>, \<open>sendBasicMessage\<close>, \<open>sendIssuing\<close> and \<open>sendReqProof\<close> of \<open>chat/chat.go\<close> over
  \<open>async/pairwise.go\<close>).
\<close>

text \<open>The id that \<open>getStatus\<close> asks for.\<close>

record StatusID =
  sq_TypeID :: Protocol_Type
  sq_ID :: string
  sq_NotificationTime :: int

definition getStatus :: "(StatusID \<Rightarrow> ProtocolStatus option) \<Rightarrow> AgentStatus \<Rightarrow> ProtocolStatus go" where
  "getStatus agencyStatus status =
     (case agencyStatus \<lparr>sq_TypeID = n_ProtocolType (as_Notification status),
          sq_ID = n_ProtocolID (as_Notification status),
          sq_NotificationTime = n_Timestamp (as_Notification status)\<rparr> of
        None \<Rightarrow> Inl ErrThrown
      | Some statusResult \<Rightarrow> Inr statusResult)"

record Answer =
  an_ID :: string
  an_ClientID :: string
  an_Ack :: bool
  an_Info :: string

definition reply_answer :: "AgentStatus \<Rightarrow> bool \<Rightarrow> Answer" where
  "reply_answer status ack = \<lparr>an_ID = n_ID (as_Notification status), an_ClientID = as_ClientID status,
     an_Ack = ack, an_Info = ''testing says hello!''\<rparr>"

definition sendBasicMessage :: "string \<Rightarrow> string \<Rightarrow> ('i, 'p) Protocol" where
  "sendBasicMessage cid content = async_BasicMessage (\<lambda>p. p) (NewPairwise cid) content"

definition sendIssuing :: "string \<Rightarrow> string \<Rightarrow> string \<Rightarrow> ('i, 'p) Protocol" where
  "sendIssuing cid credDefID attrsJSON = async_Issue (\<lambda>p. p) (NewPairwise cid) credDefID attrsJSON"

definition sendReqProof :: "string \<Rightarrow> string \<Rightarrow> ('i, 'p) Protocol" where
  "sendReqProof cid proofJSON = async_ReqProof (\<lambda>p. p) (NewPairwise cid) proofJSON"

definition conv_request :: "string \<Rightarrow> outmsg \<Rightarrow> ('i, 'p) Protocol option" where
  "conv_request cid out =
     (case out of
        OBasicMessage content _ \<Rightarrow> Some (sendBasicMessage cid content)
      | OIssue credDefID attrsJSON _ \<Rightarrow> Some (sendIssuing cid credDefID attrsJSON)
      | OReqProof proofJSON _ \<Rightarrow> Some (sendReqProof cid proofJSON)
      | _ \<Rightarrow> None)"

text \<open>A conversation starts protocols over its own connection only, as their initiator, and of the kind that the event
  names; the events of the three kinds are the ones that start a protocol.\<close>

lemma event_request:
  assumes "outputOf status e = Inr out"
  shows "(conv_request cid out :: ('i, 'p) Protocol option) \<noteq> None \<longleftrightarrow>
      e_ProtocolType e \<in> {Protocol_BASIC_MESSAGE, Protocol_ISSUE_CREDENTIAL, Protocol_PRESENT_PROOF}"
    and "conv_request cid out = Some (p :: ('i, 'p) Protocol) \<Longrightarrow>
      pr_ConnectionID p = cid \<and> pr_Role p = Protocol_INITIATOR \<and> pr_TypeID p = e_ProtocolType e"
  using assms
  by (auto simp: outputOf_def conv_request_def sendBasicMessage_def sendIssuing_def sendReqProof_def
      async_BasicMessage_def async_Issue_def async_ReqProof_def NewPairwise_def go_consts
      split: if_split_asm option.split_asm)

text \<open>The answer goes to the notification that asked, in the name of its client.\<close>

lemma event_answer:
  assumes "outputOf (Some s) e = Inr (OReply nid client ack)"
  shows "reply_answer s ack = \<lparr>an_ID = nid, an_ClientID = client, an_Ack = (e_Data e = ''ACK''),
    an_Info = ''testing says hello!''\<rparr>"
  using assms by (auto simp: outputOf_def reply_answer_def split: if_split_asm option.split_asm)

end
