(* ===== verification/Sample_Programs.thy ===== *)
theory Sample_Programs
  imports Rpc_Config
begin

text \<open>
  The two programs that try the packages out (\<open>client/main.go\<close>, \<open>server/main.go\<close>): their flags, and what they do once these
  are parsed. The call of the client to the server is a parameter of the client, serving one of the server.
\<close>

record program_flags =
  fl_cert :: string
  fl_user :: string
  fl_addr :: string
  fl_port :: int
  fl_noTLS :: bool

text \<open>The values of the flags that are not given.\<close>

definition client_flags :: program_flags where
  "client_flags = \<lparr>fl_cert = ''../cert'', fl_user = [], fl_addr = ''localhost'', fl_port = 50051, fl_noTLS = False\<rparr>"

definition server_flags :: program_flags where
  "server_flags = \<lparr>fl_cert = ''../cert'', fl_user = ''findy-root'', fl_addr = ''localhost'', fl_port = 50051,
     fl_noTLS = False\<rparr>"

text \<open>What the client prints: the error on its standard error, or the result. A response without a text is the empty one.\<close>

definition client_main :: "jwtlib \<Rightarrow> string \<Rightarrow> int \<Rightarrow> 'k certlib \<Rightarrow> string \<Rightarrow> program_flags \<Rightarrow>
    (('o, 'k) dialopt list \<Rightarrow> Cmd_Type \<Rightarrow> string + string option) \<Rightarrow> (string + string) go" where
  "client_main jl key now cl gopath fl enter =
     bindG (newClient jl key now cl gopath (fl_noTLS fl) (fl_cert fl) (fl_user fl)
       (fl_addr fl @ '':'' @ fmt_d (fl_port fl))) (\<lambda>conn.
     Inr (case conn of
        Inl e \<Rightarrow> Inl e
      | Inr opts \<Rightarrow>
          (case enter opts Cmd_PING of
             Inl e \<Rightarrow> Inl e
           | Inr r \<Rightarrow> Inr (''result: '' @ (case r of None \<Rightarrow> [] | Some ping \<Rightarrow> ping)))))"

definition server_program :: "'k certlib \<Rightarrow> (string \<Rightarrow> string + 'l) \<Rightarrow> ('k serveropt list \<Rightarrow> string option) \<Rightarrow>
    ('k serveropt list \<Rightarrow> 'l \<Rightarrow> string option) \<Rightarrow> string \<Rightarrow> program_flags \<Rightarrow> string \<Rightarrow> string option \<times> string" where
  "server_program cl listen register serve gopath fl key =
     Serve cl listen register serve (server_main gopath (fl_noTLS fl) (fl_cert fl) (fl_port fl)) key"

text \<open>The client against the server's handler behind its own check of the user: every user who gets through is answered,
  whatever name the client was started with.\<close>

definition served :: "program_flags \<Rightarrow> ctx \<Rightarrow> Cmd_Type \<Rightarrow> string + string option" where
  "served fl c cmd =
     (case Enter (fl_noTLS fl) (fl_user fl) (AuthFuncOverride (fl_user fl) c) cmd of
        Inl p \<Rightarrow> Inl ''panic'' | Inr r \<Rightarrow> r)"

lemma served_ping: "served fl c Cmd_PING = Inr (Some ''TEST, ping ok'')"
  by (simp add: served_def Enter_def AuthFuncOverride_def User_NewContext)

lemma client_pings:
  fixes enter :: "('o, 'k) dialopt list \<Rightarrow> Cmd_Type \<Rightarrow> string + string option"
    and opts :: "('o, 'k) dialopt list"
  assumes "\<And>opts cmd. enter opts cmd = served sf c cmd"
    and "newClient jl key now cl gopath (fl_noTLS cf) (fl_cert cf) (fl_user cf)
      (fl_addr cf @ '':'' @ fmt_d (fl_port cf)) = Inr (Inr opts)"
  shows "client_main jl key now cl gopath cf enter = Inr (Inr ''result: TEST, ping ok'')"
  unfolding client_main_def assms(2) by (simp add: assms(1) served_ping)

text \<open>By default the two programs use the same port and the same certificates.\<close>

lemma defaults_agree:
  "fl_port client_flags = fl_port server_flags \<and> fl_cert client_flags = fl_cert server_flags \<and>
   fl_noTLS client_flags = fl_noTLS server_flags"
  by (simp add: client_flags_def server_flags_def)

text \<open>The client never panics, and without TLS it needs no certificates and sends no token.\<close>

lemma client_main_total: "client_main jl key now cl gopath fl enter \<noteq> Inl p"
  by (simp add: client_main_def bindG_eq_Inl newClient_total)

lemma client_main_plain:
  assumes "fl_noTLS fl"
  shows "client_main jl key now cl gopath fl enter =
    Inr (case enter [TransportInsecure] Cmd_PING of Inl e \<Rightarrow> Inl e
      | Inr r \<Rightarrow> Inr (''result: '' @ (case r of None \<Rightarrow> [] | Some ping \<Rightarrow> ping)))"
  using assms by (simp add: client_main_def newClient_plain)

end
