(* ===== verification/Spec2Isabelle.thy ===== *)
theory Spec2Isabelle
  imports Chat_Service X_Utils Fsm_Properties Db_Properties X_Containers Client_Properties Jwt_Properties Crypto_Properties Small_Packages Http_Server Chat_Requests Sample_Programs
begin

text \<open>
  findy-common-go is the library that the agents of the findy network share. This development models
  the chat bots that run state machines (\<open>agency/fsm\<close>, \<open>agency/client/chat\<close>), the clients that connect them and others
  with the agency (\<open>agency/client\<close>, \<open>rpc\<close>, \<open>jwt\<close>, \<open>std/didexchange\<close>), the managed databases (\<open>crypto/db\<close>, \<open>crypto\<close>, \<open>backup\<close>),
  and the small packages they use (\<open>x\<close>, \<open>tools/sleeper\<close>, \<open>dto\<close>, \<open>std/decorator\<close>, \<open>utils\<close>,
  \<open>http\<close>, \<open>jwt/mw\<close>).

  \<^bold>\<open>Bots.\<close> A bot reads a state machine from a file and runs one copy of it per connection. A goroutine,
  the multiplexer (\<open>Multiplexer\<close> in \<open>chat/chat.go\<close>), receives the agency's status notifications and
  questions and the messages for the backend machine, starts a goroutine per new connection
  (\<open>Conversation.Run\<close>), and passes each message to the channel of its conversation. A conversation asks
  its machine for the transition that the message triggers (\<open>event.go\<close>, \<open>machine.go\<close>), builds and sends
  the events of that transition (\<open>transition.go\<close>), and makes the step (\<open>Machine.Step\<close>). The machine's
  memory is a map of registers that triggers write and that \<open>${NAME}\<close> links of texts and Lua scripts
  read. Backend machines connect the conversations: what one of them sends is triggered on the backend
  machine, and what that sends goes to all conversations.

  \<^item> \<open>Go_Prelude\<close>: Go's panics as the left side of a sum (\<open>'a go\<close>), maps with a zero value, strings, the heap
    of cells that pointers share.
  \<^item> \<open>Fsm_Types\<close>: the records of the file format and the agency's messages (\<open>fsm.go\<close>, \<open>event.go\<close>,
    \<open>transition.go\<close>, \<open>machine.go\<close>, \<open>backend.go\<close>, the messages of \<open>grpc/agency/v1\<close>); \<open>env\<close> collects the code that is
    not in the repository (JSON, templates, formats, random numbers, the Lua interpreter) as parameters.
    A machine is the state of \<open>Machine\<close>; transitions are named by their place in it, because the code
    writes to them through pointers.
  \<^item> \<open>Fsm_Filter\<close> (\<open>filterLink\<close> and its callers), \<open>Fsm_Event\<close> (triggers, answers, Lua), \<open>Fsm_Transition\<close>
    (building events), \<open>Fsm_Machine\<close> (loading, \<open>Initialize\<close>, searches, \<open>Step\<close>, \<open>Start\<close>), one definition per
    function.
  \<^item> \<open>Fsm_Invariant\<close> (the well-formedness of a machine, kept by every operation), \<open>Fsm_Search\<close> (the search as the
    first enabled transition), \<open>Fsm_Step\<close>, \<open>Fsm_Init\<close> and \<open>Fsm_Rules\<close>: what the operations return on every
    branch.
  \<^item> \<open>Chat_Conversation\<close> (the handlers of a conversation), \<open>Chat_Handlers\<close> (their results), \<open>Chat_System\<close>: the
    multiplexer and the conversations as one state with a program counter per goroutine; \<open>exec\<close> makes the
    step of a label (a delivery, a send, a receive), and a run is a list of labels, so every interleaving
    of the goroutines is a run. The code between two operations on channels is one step: it touches
    nothing shared except the global variables, which only the multiplexer writes, and the backend
    messages on the heap. A channel is the list of what is in its buffer; an unbuffered send is a step of
    both sides.
  \<^item> \<open>Chat_Invariant\<close> (the invariant of the reachable states, interpretation of the invariant's locale),
    \<open>Chat_Blocking\<close> (states that are never left), \<open>Chat_Waiting\<close> (the deadlock of two signals, and all the states in which
    the bot can make no step of its own), \<open>Chat_Relation\<close>, \<open>Chat_Machines\<close>, \<open>Chat_Programs\<close>,
    \<open>Chat_Reactions\<close> and \<open>Chat_Bots\<close>: the machines of \<open>machines.go\<close>, the relation between a loaded machine and
    its program, and what a conversation that runs a program can send.
  \<^item> \<open>Chat_Rest\<close> and \<open>Chat_Settles\<close>: the own steps of a bot without a backend machine lower a measure (what is still to be
    handled, then what is still to be sent), so that a bot whose file sends no transient steps comes to rest in every
    schedule (\<open>inevitable\<close>). \<open>Chat_Requests\<close>: what a conversation asks of the agency, over the client's protocols.
  \<^item> \<open>Chat_Service\<close> (\<open>chat/bot.go\<close>): loading and saving machines, and \<open>Bot.Run\<close>, which joins two listeners of the
    agency with the multiplexer: its states are those of the listeners, of the goroutine of \<open>Run\<close> and of the chat, and
    it is proved to refine the chat. \<open>Fsm_Plantuml\<close>: the drawing of a machine and the link to it.
  \<^item> \<open>Samples\<close>: concrete bots and runs; the properties are in this theory and in \<open>Fsm_Properties\<close>.

  \<^bold>\<open>Clients.\<close> A client opens a connection to the agency with a token of its user (\<open>TryOpen\<close>), listens to the
  agency's statuses and questions, and starts protocols on its connections.

  \<^item> \<open>Tools_Sleeper\<close>: the waits between two connections, with durations as 64-bit words. \<open>Client_Stream\<close>: the goroutines of a
    listener as program counters (\<open>transportStatus\<close>, \<open>transportWait\<close>, \<open>ListenStatusAndRetry\<close>, \<open>WaitAndRetry\<close>, \<open>merge\<close>), where a
    label is a step of one of them or a rendezvous of two; what the stream returns and when the context is
    cancelled is in the label. \<open>Client_Listen\<close> proves once, in the locale \<open>listening\<close>, what a retrying listener delivers and
    that it comes to rest, and interprets it on both kinds; \<open>Client_General\<close> and \<open>Client_Plain\<close> do the merged listeners.
  \<^item> \<open>Client_Protocol\<close>: the messages that start protocols (\<open>client.go\<close>, \<open>async/pairwise.go\<close>); \<open>Invitation\<close> over \<open>Base64\<close>: both
    versions of invitations, their links, and the keys in them.
  \<^item> \<open>Jwt_Tokens\<close>: tokens and the checks of requests; \<open>Jwt_Laws\<close>: what the token library promises (\<open>jwt_laws\<close>), what follows,
    and an instance; \<open>Rpc_Config\<close>: certificates, the options of a client's dial and of a server;
    \<open>Sample_Programs\<close>: the two programs that try them out. \<open>Client_Properties\<close> and \<open>Jwt_Properties\<close> hold the properties.
  \<^item> \<open>Small_Packages\<close>: \<open>dto\<close>, \<open>std/decorator\<close>, \<open>utils\<close>. \<open>Http_Server\<close>: the server of \<open>http\<close> with its channel of signals, whose
    failure is reported once, and the options of \<open>jwt/mw\<close>.

  \<^bold>\<open>Databases.\<close> \<open>Handle\<close> (\<open>handle.go\<close>) is implemented by \<open>memDB\<close> (\<open>mem.go\<close>) and \<open>Mgd\<close> (\<open>db.go\<close>). Each operation
  holds a lock from start to end and is one step.

  \<^item> \<open>Db_Data\<close>: data elements, the switch, and the contract \<open>kv_handle\<close>: an operation that succeeds does to the
    abstract store what it says, one that fails does nothing. Runs of operations are proved to refine the
    abstract store once, in the locale.
  \<^item> \<open>Db_Mem\<close>: the memory database and the interpretation of the contract; \<open>Db_Managed\<close>: the managed database over
    a record of Bolt's calls; \<open>Db_Contract\<close>: the laws of Bolt (\<open>bolt_laws\<close>: a transaction sees and leaves a
    store, an update that fails leaves the file as it was, opening and closing keep it) and the managed
    database under them as a \<open>sublocale\<close> of the contract; \<open>Db_Files\<close>, \<open>Db_Store\<close>: backup names and copies, the laws
    of the file system, and an instance of all the laws over a map of files.
  \<^item> \<open>Db_Package\<close>: any handle, and the functions of the package over the list of instances;
    \<open>Db_Properties\<close>: the properties. \<open>X_Containers\<close>, \<open>X_Utils\<close>: the package \<open>x\<close>.
  \<^item> \<open>Crypto_Cipher\<close>: the cipher over a record of AES-GCM and its use as filters of a database;
    \<open>Crypto_Properties\<close>: its properties, among them the encrypted database.

  \<^bold>\<open>Bounds.\<close> Nothing runs on fuel: the loops of the code are over slices and maps, and the loops of goroutines
  are steps. Go's \<open>int\<close> counts lengths here and is \<open>nat\<close> where it never leaves the range of a length. Channels
  have the capacities of the code. The iteration over a Go map, whose order is not fixed, is over the
  list of the map's entries, so a statement about all such lists holds for every order.

  \<^bold>\<open>Not modelled.\<close> The generated code of \<open>grpc\<close> except the message types that the machines and the client read; the
  network (a request to the agency, and a read from one of its streams, returns any answer or error);
  the server of \<open>net/http\<close> and the middleware outside the repository that \<open>http\<close> and \<open>jwt/mw\<close> start and fill; the parsing
  of flags; logging, except where its arguments can panic. Parsers and printers of
  JSON, YAML, URLs and keys, AES-GCM, Bolt, the token library and the file system are parameters, with what the
  code relies on as named laws (\<open>bolt_laws\<close>, \<open>disk_laws\<close>, \<open>jwt_laws\<close>, \<open>gcm_laws\<close>, \<open>web_laws\<close>, \<open>key_laws\<close>), each of which has an
  instance in the development.
\<close>

section \<open>The chat bot\<close>

text \<open>C1: In every state that a bot can reach from its start, whatever order its goroutines and the
  agency's messages take, the conversations are keyed by their connection, each holds a well-formed
  conversation machine (its current state exists, every transition has a trigger and a target that
  exists), every buffered channel respects its capacity, the backend machine is well formed, and the
  conversations that the multiplexer waits for exist.\<close>

theorem chat_bot_invariant:
  assumes "files_ok cd info" "reachable env cd info s"
  shows "sys_wf s"
  using assms by (rule reachable_wf)

theorem chat_bot_invariant_witness:
  "\<exists>s. execs env0 (codec0 EmailIssuerMachine) info0 toPin sys0 = Some s \<and> sys_wf s"
proof -
  have "\<exists>s. execs env0 (codec0 EmailIssuerMachine) info0 toPin sys0 = Some s"
    using issuer_run by (auto simp: run_sends_def split: option.split_asm)
  then obtain s where s: "execs env0 (codec0 EmailIssuerMachine) info0 toPin sys0 = Some s" ..
  have f: "files_ok (codec0 EmailIssuerMachine) info0"
    using runs0 [of EmailIssuerMachine env0] EmailIssuer_plain
    by (intro files_ok0) (simp add: EmailIssuerMachine_def mkMachine_def)
  from chat_bot_invariant [OF f execs_reachable [OF reachable0 s]] s show ?thesis by blast
qed

text \<open>C2: The email issuer of \<open>machines.go\<close> starts to issue a credential only when the user of the
  connection has just sent the PIN that the machine holds in its memory: a conversation that begins
  to send an \<open>issue_cred\<close> event was waiting for the PIN and was delivered a message equal to it.\<close>

theorem issuer_issues_against_pin:
  assumes "runs env cd info EmailIssuerMachine" "reachable env cd info s" "exec env cd info l s = Some s'"
    and "conv s cid = Some c" "c_pc c = CIdle" "c_machine c = Some m"
    and "conv s' cid = Some c'" "c_pc c' = CSending es st fo"
    and "e \<in> set es" "e_ProtocolType e = Protocol_ISSUE_CREDENTIAL"
  shows "\<exists>status. l = LDeliver (Some status) \<and> m_Current m = ''WAITING_EMAIL_PIN'' \<and>
    ps_BasicMessage status = Some (mget (m_Memory m) ''PIN'') \<and> mget (m_Memory m) ''PIN'' \<noteq> ''reset''"
  by (rule EmailIssuer_needs_pin [OF assms])

theorem issuer_issues_against_pin_witness:
  "\<exists>s c m. reachable env0 (codec0 EmailIssuerMachine) info0 s \<and> conv s ''conn'' = Some c \<and>
     c_machine c = Some m \<and> m_Current m = ''WAITING_EMAIL_PIN'' \<and> mget (m_Memory m) ''PIN'' = ''100000''"
proof -
  let ?cd = "codec0 EmailIssuerMachine"
  have r: "runs env0 ?cd info0 EmailIssuerMachine"
    by (rule runs0) (use EmailIssuer_plain in \<open>simp_all add: EmailIssuerMachine_def mkMachine_def\<close>)
  from issuer_run obtain s where s: "reachable env0 ?cd info0 s"
    "starts_sending ''conn'' (\<lambda>e. e_ProtocolType e = Protocol_ISSUE_CREDENTIAL) s
       (exec env0 ?cd info0 (LDeliver (Some (said ''100000''))) s)" by (rule run_sendsE)
  from s(2) obtain s' c m c' es st fo e where k: "exec env0 ?cd info0 (LDeliver (Some (said ''100000''))) s = Some s'"
    "conv s ''conn'' = Some c" "c_pc c = CIdle" "c_machine c = Some m" "conv s' ''conn'' = Some c'"
    "c_pc c' = CSending es st fo" "e \<in> set es" "e_ProtocolType e = Protocol_ISSUE_CREDENTIAL"
    by (rule starts_sendingE)
  from issuer_issues_against_pin [OF r s(1) k(1-4) k(5-8)] s(1) k(2,4) show ?thesis
    by (auto simp: said_def protocolStatus_def)
qed

text \<open>C3: The proof bot of \<open>machines.go\<close> acknowledges a proof only when it was asked to verify exactly
  one attribute, and that attribute is the email of the credential definition it had asked for.\<close>

theorem proof_bot_acknowledges:
  assumes "runs env cd info ReqProofMachine" "reachable env cd info s" "exec env cd info l s = Some s'"
    and "conv s cid = Some c" "c_pc c = CIdle" "c_machine c = Some m"
    and "conv s' cid = Some c'" "c_pc c' = CSending es st fo"
    and "e \<in> set es" "e_ProtocolType e = QAProtocol" "e_Data e = ''ACK''"
    and "parses_email_proof env"
  shows "\<exists>q a. s_mux s = MQuestion cid q \<and> q_ProofVerify q = Some [a] \<and> at_Name a = ''email'' \<and>
    at_CredDefID a = emailCredDefID"
  by (rule ReqProof_acknowledges [OF assms])

theorem proof_bot_acknowledges_witness:
  "\<exists>s q a. reachable env0 (codec0 ReqProofMachine) info0 s \<and> s_mux s = MQuestion ''conn'' q \<and>
     q_ProofVerify q = Some [a] \<and> at_CredDefID a = emailCredDefID"
proof -
  let ?cd = "codec0 ReqProofMachine"
  have r: "runs env0 ?cd info0 ReqProofMachine"
    by (rule runs0) (use ReqProof_plain in \<open>simp_all add: ReqProofMachine_def mkMachine_def\<close>)
  have p: "parses_email_proof env0" by (simp add: parses_email_proof_def env0_def)
  from proof_run obtain s where s: "reachable env0 ?cd info0 s"
    "starts_sending ''conn'' (\<lambda>e. e_ProtocolType e = QAProtocol \<and> e_Data e = ''ACK'') s
       (exec env0 ?cd info0 (LDeliver None) s)" by (rule run_sendsE)
  from s(2) obtain s' c m c' es st fo e where k: "exec env0 ?cd info0 (LDeliver None) s = Some s'"
    "conv s ''conn'' = Some c" "c_pc c = CIdle" "c_machine c = Some m" "conv s' ''conn'' = Some c'"
    "c_pc c' = CSending es st fo" "e \<in> set es" "e_ProtocolType e = QAProtocol \<and> e_Data e = ''ACK''"
    by (rule starts_sendingE)
  from proof_bot_acknowledges [OF r s(1) k(1-4) k(5-7) _ _ p] k(8) s(1) show ?thesis by blast
qed

section \<open>Waiting forever\<close>

text \<open>C4: When the backend machine steps into a terminating state, the multiplexer sends on that
  machine's termination channel, which has no buffer and no reader: in whatever the bot does
  afterwards it stays at that send, no conversation is created for a new connection, and the user is
  never signalled that the machine has ended.\<close>

theorem backend_termination_blocks_forever:
  assumes "files_ok cd info" "reachable env cd info s" "s_panic s = None"
    and "s_mux s = MSending [] (Some t)" "s_backend s = Some b"
    and "stateOf (b_machine b) (f_Target t) = Some st" "s_Terminate st"
  shows "\<exists>s'. exec env cd info LSend s = Some s' \<and>
    (\<forall>ls s''. execs env cd info ls s' = Some s'' \<longrightarrow> s_mux s'' = MBlocked \<and>
       map fst (s_conversations s'') = map fst (s_conversations s) \<and> s_interrupts s'' = s_interrupts s)"
proof -
  note wf = reachable_wf [OF assms(1,2)]
  then have "backend_ok b" using assms(5) by (simp add: sys_wf_def)
  from backend_terminates_blocks [where env = env and cd = cd and info = info, OF assms(3-5) this assms(6,7)]
  obtain s' where
    s': "exec env cd info LSend s = Some s'" and
    "mux_stuck (map fst (s_conversations s)) (s_interrupts s) s'"
    by (auto simp: mux_stuck_def)
  with stuck_mux.stays_execs [OF assms(1) exec_wf [OF assms(1) s' wf]] show ?thesis
    unfolding mux_stuck_def by blast
qed

theorem backend_termination_blocks_forever_witness:
  "\<exists>s s'. reachable env0 (codec2 (frontMachine [toBackend]) (backMachine [] True)) info2 s \<and>
     exec env0 (codec2 (frontMachine [toBackend]) (backMachine [] True)) info2 LSend s = Some s' \<and>
     s_mux s' = MBlocked"
proof -
  let ?cd = "codec2 (frontMachine [toBackend]) (backMachine [] True)"
  from ending_run obtain s where s: "reachable env0 ?cd info2 s" "ending s" by (rule holds_afterE)
  from s(2) obtain t b st where e: "s_panic s = None" "s_mux s = MSending [] (Some t)" "s_backend s = Some b"
    "stateOf (b_machine b) (f_Target t) = Some st" "s_Terminate st"
    by (auto simp: ending_def split: option.split_asm mux_pc.split_asm list.split_asm)
  from backend_termination_blocks_forever [OF files_ok2 s(1) e] obtain s' where
    "exec env0 ?cd info2 LSend s = Some s'"
    "\<forall>ls s''. execs env0 ?cd info2 ls s' = Some s'' \<longrightarrow> s_mux s'' = MBlocked" by blast
  with s(1) show ?thesis by (metis execs.simps(1))
qed

text \<open>C5: A conversation that sends two transient steps in a row fills its own channel with the first
  and waits at the second for ever: it is the only reader of that channel. In whatever the bot does
  afterwards the second event and those after it are never sent.\<close>

theorem two_transient_steps_block_forever:
  assumes "files_ok cd info" "reachable env cd info s" "s_panic s = None" "conv s cid = Some c"
    and "c_pc c = CSending (e1 # e2 # es) status f" "c_TransientChan c = []"
    and "outputOf status e1 = Inr (OTransient msg1)" "outputOf status e2 = Inr (OTransient msg2)"
  shows "\<exists>s'. exec env cd info (LConvSend cid r) s = Some s' \<and>
    (\<forall>ls s''. execs env cd info ls s' = Some s'' \<longrightarrow>
       (\<exists>c''. conv s'' cid = Some c'' \<and> c_pc c'' = CSending (e2 # es) status f))"
proof -
  note wf = reachable_wf [OF assms(1,2)]
  from two_transients_lock [OF assms(3,4) sys_wf_conv(1) [OF wf assms(4)] assms(5-8)] obtain s' where
    s': "exec env cd info (LConvSend cid r) s = Some s'" "self_locked cid (e2 # es) status f s'" by blast
  have "\<exists>c''. conv s'' cid = Some c'' \<and> c_pc c'' = CSending (e2 # es) status f"
    if "execs env cd info ls s' = Some s''" for ls s''
    using self_lock.stays_execs [OF assms(1) exec_wf [OF assms(1) s'(1) wf] s'(2) that]
    by (auto simp: self_locked_def split: option.split_asm)
  with s'(1) show ?thesis by blast
qed

theorem two_transient_steps_block_forever_witness:
  "\<exists>s s' c. reachable env0 (codec2 (frontMachine [toSelf, toSelf]) (backMachine [] True)) info2 s \<and>
     exec env0 (codec2 (frontMachine [toSelf, toSelf]) (backMachine [] True)) info2 (LConvSend ''conn'' None) s =
       Some s' \<and> conv s' ''conn'' = Some c \<and> c_pc c \<noteq> CIdle"
proof -
  let ?cd = "codec2 (frontMachine [toSelf, toSelf]) (backMachine [] True)"
  from twice_run obtain s where s: "reachable env0 ?cd info2 s" "twice s" by (rule holds_afterE)
  from s(2) obtain c where 1: "s_panic s = None" "conv s ''conn'' = Some c" "c_TransientChan c = []"
    by (auto simp: twice_def split: option.split_asm)
  with s(2) obtain e1 e2 status f where 2: "c_pc c = CSending [e1, e2] status f"
    by (auto simp: twice_def split: conv_pc.split_asm list.split_asm)
  with s(2) 1 obtain out1 out2 where 3: "outputOf status e1 = Inr out1" "outputOf status e2 = Inr out2"
    "case (out1, out2) of (OTransient _, OTransient _) \<Rightarrow> True | _ \<Rightarrow> False"
    by (auto simp: twice_def split: sum.split_asm outmsg.split_asm)
  from 3(3) obtain m1 m2 where "out1 = OTransient m1" "out2 = OTransient m2"
    by (auto split: outmsg.split_asm)
  with two_transient_steps_block_forever [OF files_ok2 s(1) 1(1,2) 2 1(3)] 3(1,2) obtain s' where
    "exec env0 ?cd info2 (LConvSend ''conn'' None) s = Some s'"
    "\<forall>ls s''. execs env0 ?cd info2 ls s' = Some s'' \<longrightarrow>
       (\<exists>c''. conv s'' ''conn'' = Some c'' \<and> c_pc c'' = CSending [e2] status f)" by blast
  with s(1) show ?thesis by (metis execs.simps(1) conv_pc.distinct(7))
qed

text \<open>C6: The other circular wait: the multiplexer broadcasts to a conversation whose channel is full
  while that conversation sends to the backend machine, whose channel is full and which only the
  multiplexer empties. Once the bot is there no step of any goroutine leads out of it.\<close>

theorem multiplexer_conversation_deadlock:
  assumes "files_ok cd info" "reachable env cd info s" "cross_locked cid s"
    and "execs env cd info ls s = Some s'"
  shows "cross_locked cid s'"
  using cross_lock.stays_execs [OF assms(1) reachable_wf [OF assms(1,2)] assms(3,4)] by blast

theorem multiplexer_conversation_deadlock_witness:
  "\<exists>s. reachable env0 (codec2 (frontMachine [toBackend, toBackend, toBackend]) (backMachine [toBackend] False))
     info2 s \<and> cross_locked ''conn'' s"
proof -
  let ?cd = "codec2 (frontMachine [toBackend, toBackend, toBackend]) (backMachine [toBackend] False)"
  from crossed_run obtain s where s: "reachable env0 ?cd info2 s" "crossed s \<and> halted s"
    by (rule holds_afterE)
  then have "crossed s" by blast
  have "cross_locked ''conn'' s"
    by (rule multiplexer_conversation_deadlock [OF files_ok2 s(1) crossed_locked [OF \<open>crossed s\<close>]])
      (rule execs.simps(1))
  with s(1) show ?thesis by blast
qed

text \<open>C7: The third one: a conversation has ended and waits to signal it, because the signal of another one
  is still in the channel, and the multiplexer takes a status of its connection before that signal. In
  whatever the bot does afterwards, the multiplexer stays at the send of that status and the conversation
  at the send of its signal, and the user, who should have been signalled twice, is not signalled again.\<close>

theorem two_signals_deadlock:
  assumes "files_ok cd info" "reachable env cd info s" "s_panic s = None" "s_mux s = MIdle"
    and "conv s cid = Some c" "c_pc c = CSignal" "0 < s_termChan s" "n_ConnectionID (as_Notification as) = cid"
  shows "\<exists>s'. exec env cd info (LStatus as) s = Some s' \<and>
    (\<forall>ls s''. execs env cd info ls s' = Some s'' \<longrightarrow> s_mux s'' = MStatus cid as \<and> conv s'' cid = Some c \<and>
       s_interrupts s'' = s_interrupts s)"
proof -
  note wf = reachable_wf [OF assms(1,2)]
  from status_signal_locks [OF assms(3-8)] obtain s' where
    s': "exec env cd info (LStatus as) s = Some s'" "signal_locked cid (MStatus cid as) c (s_interrupts s) s'" by blast
  with signal_lock.stays_execs [OF assms(1) exec_wf [OF assms(1) s'(1) wf] s'(2)] show ?thesis
    unfolding signal_locked_def by blast
qed

theorem two_signals_deadlock_witness:
  "\<exists>s s'. reachable env0 (codec0 endMachine) info0 s \<and>
     exec env0 (codec0 endMachine) info0 (LStatus notified2) s = Some s' \<and> s_mux s' = MStatus ''conn2'' notified2"
proof -
  let ?cd = "codec0 endMachine"
  from meeting_run obtain s where s: "reachable env0 ?cd info0 s" "meeting s" by (rule holds_afterE)
  from s(2) obtain c where c: "s_panic s = None" "s_mux s = MIdle" "conv s ''conn2'' = Some c"
      "c_pc c = CSignal" "0 < s_termChan s"
    by (auto simp: meeting_def split: option.split_asm mux_pc.split_asm conv_pc.split_asm)
  have "n_ConnectionID (as_Notification notified2) = ''conn2''" by (simp add: notified2_def Let_def)
  from two_signals_deadlock [OF endMachine_files s(1) c this] obtain s' where
    "exec env0 ?cd info0 (LStatus notified2) s = Some s'"
    "\<forall>ls s''. execs env0 ?cd info0 ls s' = Some s'' \<longrightarrow> s_mux s'' = MStatus ''conn2'' notified2" by blast
  with s(1) show ?thesis by (metis execs.simps(1))
qed







section \<open>Sessions\<close>

text \<open>C11: The messages of the backend machine, which it sends to all conversations, stay in their session: a
  conversation that starts to send because of one was waiting with it at the head of its channel, has the
  message's session id or none, is not its sender when the message is not to be echoed, and sends the events
  of a transition of its current state whose trigger is for backend messages.\<close>

theorem backend_messages_stay_in_session:
  assumes "files_ok cd info" "reachable env cd info s" "exec env cd info (LConvBackend cid) s = Some s'"
    and "conv s cid = Some c" "c_machine c = Some m" "conv s' cid = Some c'" "c_pc c' = CSending es st fo"
  shows "\<exists>p ds i trg. c_BackendChan c = Some p # ds \<and>
    takes_up cid m (cells (fixConnID cid p (s_heap s)) p) \<and>
    sends_of m i es \<and> triggerOf m i = Some trg \<and> e_ProtocolType trg = BackendProtocol"
  by (rule backend_reacts [OF reachable_wf [OF assms(1,2)] assms(3-7)])

theorem backend_messages_stay_in_session_witness:
  "\<exists>s c m p ds. reachable env0 (codec0 roomMachine) info0 s \<and> conv s ''conn'' = Some c \<and> c_machine c = Some m \<and>
     m_Memory m LUA_SESSION_ID = Some ''s1'' \<and> c_BackendChan c = Some p # ds \<and>
     bd_SessionID (cells (s_heap s) p) = ''s1''"
proof -
  let ?cd = "codec0 roomMachine"
  let ?P = "\<lambda>s. hears s (exec env0 ?cd info0 (LConvBackend ''conn'') s)"
  from hears_run obtain s where s: "reachable env0 ?cd info0 s" "?P s" by (rule holds_afterE)
  from s(2) obtain s' c m c' es st fo where k: "exec env0 ?cd info0 (LConvBackend ''conn'') s = Some s'"
    "conv s ''conn'' = Some c" "c_machine c = Some m" "conv s' ''conn'' = Some c'" "c_pc c' = CSending es st fo"
    "m_Memory m LUA_SESSION_ID = Some ''s1''"
    by (auto simp: hears_def split: option.split_asm conv_pc.split_asm)
  from backend_messages_stay_in_session [OF room_files s(1) k(1-5)] obtain p ds where
    p: "c_BackendChan c = Some p # ds" "takes_up ''conn'' m (cells (fixConnID ''conn'' p (s_heap s)) p)" by blast
  then have "bd_SessionID (cells (s_heap s) p) = ''s1''"
    using k(6) by (simp add: takes_up_def fixConnID_def split: if_split_asm)
  with s(1) k(2,3,6) p(1) show ?thesis by blast
qed

section \<open>The bot and its listeners\<close>

text \<open>C12: Refinement: whatever the agency sends to a running bot and in whatever order its goroutines run, the
  multiplexer and the conversations behave as the chat does on its own, so its invariant holds; and the
  multiplexer is given the statuses and the questions of the streams once each, in their order and
  without the keep-alives.\<close>

theorem bot_refines_chat:
  assumes "files_ok cd info" "mux_init env cd info h0 = Inr s"
    and "runs_of (Run env cd info) ls (bot_start s) = Some b"
  shows "reachable env cd info (bt_chat b) \<and> sys_wf (bt_chat b) \<and>
    prefix (bt_given b) (kept status_keepalive (pi_received (bt_status b))) \<and>
    prefix (bt_asked b) (kept question_keepalive (pi_received (bt_question b)))"
proof -
  have b: "bot_ok env cd info b" by (rule bot_run_ok [OF reachable.init [OF assms(2)] assms(3)])
  then have "reachable env cd info (bt_chat b)" by (simp add: bot_ok_def)
  with reachable_wf [OF assms(1) this] given_prefix [OF b] show ?thesis by blast
qed

theorem bot_refines_chat_witness:
  "\<exists>b. runs_of (Run env0 (codec0 endMachine) info0)
     [BStatusRecv (Msg (notified ''p1'' Protocol_BASIC_MESSAGE)), BStatusCh, BGive] (bot_start sys0) = Some b \<and>
     sys_wf (bt_chat b) \<and> bt_given b \<noteq> []"
proof -
  let ?m = "notified ''p1'' Protocol_BASIC_MESSAGE"
  let ?ls = "[BStatusRecv (Msg ?m), BStatusCh, BGive]"
  have "exec env0 (codec0 endMachine) info0 (LStatus ?m) sys0 \<noteq> None"
    by code_simp
  moreover have "\<not> status_keepalive ?m" by (simp add: status_keepalive_def notified_def go_consts)
  ultimately obtain b where b: "runs_of (Run env0 (codec0 endMachine) info0) ?ls (bot_start sys0) = Some b" "bt_given b \<noteq> []"
    by (auto simp: Run_def bot_start_def new_pipe_def ListenStatus_def pipe_exec_def transportStatus_def transport_def)
  from bot_refines_chat [OF endMachine_files mux_init0 b(1)] b show ?thesis by blast
qed

end
